(* ===== verification/Prelude.thy ===== *)
theory Prelude
  imports Main "HOL-Library.Word" "HOL-Library.Monad_Syntax" "HOL-Library.Signed_Division"
begin

text \<open>
  What the theories of the drone swarm share: the C types of the program, the outcome of a
  system call, a weakest-precondition calculus for the state-passing functions that model
  C functions, a locale for step systems with an invariant, and generic lemmas on lists and
  buffers.

  A C function that reads and writes the state \<open>w\<close> of its process is a HOL function
  \<open>w \<Rightarrow> (r \<times> w) option\<close>.  The value \<open>None\<close> means that the function has no defined
  result: it has not returned within the behaviour of the environment that the state
  describes (it still blocks in a system call), or it has undefined behaviour (an access
  outside a buffer).
\<close>

section \<open>C types and constants\<close>

text \<open>The integers of the target (LP64): \<open>int\<close> values are mathematical integers that the
  bounds lemmas keep within \<open>in_int\<close>; \<open>size_t\<close> wraps around at 64 bits.\<close>

type_synonym byte = "8 word"
type_synonym size_t = "64 word"

definition INT_MAX :: int where
  "INT_MAX = 2147483647"

definition INT_MIN :: int where
  "INT_MIN = - 2147483648"

definition LONG_MAX :: int where
  "LONG_MAX = 9223372036854775807"

definition LONG_MIN :: int where
  "LONG_MIN = - 9223372036854775808"

definition in_int :: "int \<Rightarrow> bool" where
  "in_int x \<longleftrightarrow> INT_MIN \<le> x \<and> x \<le> INT_MAX"

abbreviation (input) EXIT_SUCCESS :: int where
  "EXIT_SUCCESS \<equiv> 0"

abbreviation (input) EXIT_FAILURE :: int where
  "EXIT_FAILURE \<equiv> 1"

text \<open>The outcome of a system call: the value it returns, or \<open>-1\<close> with a value of
  \<open>errno\<close>.\<close>

datatype errno = EINTR | EEXIST | EINVAL | ENOENT | EIO

datatype sysret = SysOk int | SysErr errno

text \<open>How a function that may call \<open>exit\<close> ends: it returns an \<open>int\<close>, or the process is
  gone with an exit code.\<close>

datatype status = Returned int | Exited int

section \<open>Named collections\<close>

named_theorems wp_rules \<open>weakest-precondition rules of the operations\<close>
named_theorems frame_simps \<open>fields that an operation leaves alone\<close>

section \<open>Weakest preconditions of state-passing functions\<close>

text \<open>\<open>outc b x Q\<close>: a result satisfies \<open>Q\<close>, and no result is acceptable only if \<open>b\<close>.  With
  \<open>b = True\<close> this is partial correctness, with \<open>b = False\<close> total correctness.\<close>

definition outc :: "bool \<Rightarrow> ('r \<times> 's) option \<Rightarrow> ('r \<Rightarrow> 's \<Rightarrow> bool) \<Rightarrow> bool" where
  "outc b x Q \<longleftrightarrow> (case x of None \<Rightarrow> b | Some (r, s) \<Rightarrow> Q r s)"

abbreviation wp :: "('r \<times> 's) option \<Rightarrow> ('r \<Rightarrow> 's \<Rightarrow> bool) \<Rightarrow> bool" where
  "wp \<equiv> outc True"

lemma outc_None [simp]: "outc b None Q \<longleftrightarrow> b"
  by (simp add: outc_def)

lemma outc_Some [simp]: "outc b (Some (r, s)) Q \<longleftrightarrow> Q r s"
  by (simp add: outc_def)

lemma outc_bind [simp]: "outc b (Option.bind x f) Q \<longleftrightarrow> outc b x (\<lambda>r s. outc b (f (r, s)) Q)"
  by (auto simp: outc_def split: option.splits)

lemma outc_if [simp]: "outc b (if c then x else y) Q \<longleftrightarrow> (if c then outc b x Q else outc b y Q)"
  by simp

lemma outc_D: "outc b x Q \<Longrightarrow> x = Some (r, s) \<Longrightarrow> Q r s"
  by simp

lemma wp_I: "(\<And>r s. x = Some (r, s) \<Longrightarrow> Q r s) \<Longrightarrow> wp x Q"
  by (auto simp: outc_def split: option.splits)

lemma outc_mono: "outc b x P \<Longrightarrow> (\<And>r s. P r s \<Longrightarrow> Q r s) \<Longrightarrow> outc b x Q"
  by (auto simp: outc_def split: option.splits)

lemma outc_False: "outc False x Q \<longleftrightarrow> (\<exists>r s. x = Some (r, s) \<and> Q r s)"
  by (auto simp: outc_def split: option.splits)

section \<open>Step systems with an invariant\<close>

text \<open>A component whose state changes by actions: if every single action keeps the
  invariant, so does every sequence of actions, and likewise for a transitive relation
  that every action respects.\<close>

locale invariant_system =
  fixes act :: "'a \<Rightarrow> 's \<Rightarrow> 's"
    and inv :: "'s \<Rightarrow> bool"
  assumes act_inv: "inv s \<Longrightarrow> inv (act a s)"
begin

lemma run_inv: "inv s \<Longrightarrow> inv (fold act as s)"
  by (induction as arbitrary: s) (auto intro: act_inv)

lemma run_rel:
  assumes refl: "\<And>s. R s s"
    and trans: "\<And>s t u. R s t \<Longrightarrow> R t u \<Longrightarrow> R s u"
    and act: "\<And>a s. inv s \<Longrightarrow> R s (act a s)"
    and "inv s"
  shows "R s (fold act as s)"
  using \<open>inv s\<close>
proof (induction as arbitrary: s)
  case Nil
  show ?case by (simp add: refl)
next
  case (Cons a as)
  then have "R s (act a s)" and "R (act a s) (fold act as (act a s))"
    by (auto intro: act act_inv)
  then show ?case by (auto intro: trans)
qed

end

section \<open>Counting in updated lists\<close>

definition count_by :: "('a \<Rightarrow> bool) \<Rightarrow> 'a list \<Rightarrow> int" where
  "count_by P xs = int (length (filter P xs))"

lemma count_by_Nil [simp]: "count_by P [] = 0"
  by (simp add: count_by_def)

lemma count_by_Cons [simp]: "count_by P (x # xs) = (if P x then 1 else 0) + count_by P xs"
  by (simp add: count_by_def)

lemma count_by_update:
  "k < length xs \<Longrightarrow>
     count_by P (xs[k := v]) =
       count_by P xs - (if P (xs ! k) then 1 else 0) + (if P v then 1 else 0)"
proof (induction xs arbitrary: k)
  case Nil
  then show ?case by simp
next
  case (Cons x xs)
  then show ?case by (cases k) auto
qed

lemma count_by_nonneg [simp]: "0 \<le> count_by P xs"
  by (simp add: count_by_def)

lemma count_by_le_length: "count_by P xs \<le> int (length xs)"
  by (simp add: count_by_def)

lemma count_by_pos: "k < length xs \<Longrightarrow> P (xs ! k) \<Longrightarrow> 0 < count_by P xs"
  by (induction xs arbitrary: k) (auto simp: nth_Cons add_pos_nonneg split: nat.splits)

lemma count_by_mono: "(\<And>x. x \<in> set xs \<Longrightarrow> P x \<Longrightarrow> Q x) \<Longrightarrow> count_by P xs \<le> count_by Q xs"
  by (induction xs) auto

lemma count_by_replicate [simp]: "count_by P (replicate n x) = (if P x then int n else 0)"
  by (simp add: count_by_def)

lemma count_by_compl: "count_by P xs + count_by (\<lambda>x. \<not> P x) xs = int (length xs)"
  by (induction xs) auto

lemma count_by_card: "count_by P xs = int (card {i. i < length xs \<and> P (xs ! i)})"
  by (simp add: count_by_def length_filter_conv_card)

section \<open>Buffers\<close>

text \<open>\<open>memcpy (dst + off, src, n)\<close> into a buffer: defined when both ranges lie inside
  their buffers.\<close>

definition memcpy :: "'a list \<Rightarrow> nat \<Rightarrow> 'a list \<Rightarrow> nat \<Rightarrow> 'a list option" where
  "memcpy dst off src n =
     (if off + n \<le> length dst \<and> n \<le> length src
      then Some (take off dst @ take n src @ drop (off + n) dst) else None)"

definition buf_slice :: "nat \<Rightarrow> nat \<Rightarrow> 'a list \<Rightarrow> 'a list" where
  "buf_slice off n xs = take n (drop off xs)"

lemma memcpy_length: "memcpy dst off src n = Some d \<Longrightarrow> length d = length dst"
  by (auto simp: memcpy_def split: if_splits)

lemma memcpy_buf_slice_same:
  "memcpy dst off src n = Some d \<Longrightarrow> buf_slice off n d = take n src"
  by (auto simp: memcpy_def buf_slice_def split: if_splits)

lemma memcpy_buf_slice_before:
  assumes "memcpy dst off src n = Some d" and "i + m \<le> off"
  shows "buf_slice i m d = buf_slice i m dst"
proof -
  have d: "d = take off dst @ take n src @ drop (off + n) dst" and "off \<le> length dst"
    using assms(1) by (auto simp: memcpy_def split: if_splits)
  then have "take m (drop i d) = take m (drop i (take off dst))"
    using assms(2) by simp
  also have "\<dots> = take m (drop i dst)"
    using assms(2) by (simp add: drop_take min_absorb1)
  finally show ?thesis by (simp add: buf_slice_def)
qed

lemma buf_slice_length: "off + n \<le> length xs \<Longrightarrow> length (buf_slice off n xs) = n"
  by (simp add: buf_slice_def)

end
