(* ===== verification/Stack.thy ===== *)
theory Stack
  imports Prelude
begin

text \<open>
  The stack of \<^verbatim>\<open>src/src/data_structures/stack.c\<close>: a header of three \<open>size_t\<close>
  fields followed by the bytes of the elements, all in one shared-memory segment.  The
  record has the header and the bytes behind it; a pointer that may be \<open>NULL\<close> is an
  option; a result \<open>None\<close> is a \<open>memcpy\<close> outside the segment.

  The second half is the interface the rest of the program relies on: a bounded stack of
  \<open>int\<close> indices (locale \<open>index_stack\<close>), and its interpretation on the byte-level
  functions used with \<open>sizeof(int)\<close> elements.
\<close>

section \<open>The data structure and its operations\<close>

record Stack =
  st_capacity :: size_t
  st_size :: size_t
  st_elem_size :: size_t
  st_data :: "byte list"

definition STACK_SUCCESS :: int where
  "STACK_SUCCESS = 0"

definition STACK_ERROR :: int where
  "STACK_ERROR = - 1"

text \<open>\<open>sizeof(Stack)\<close>: three 8-byte fields, padded to the 16 bytes of \<open>max_align_t\<close>.\<close>

definition sizeof_Stack :: size_t where
  "sizeof_Stack = 32"

definition Stack_bytes_needed :: "size_t \<Rightarrow> size_t \<Rightarrow> size_t" where
  "Stack_bytes_needed capacity elem_size = sizeof_Stack + capacity * elem_size"

definition Stack_init :: "Stack option \<Rightarrow> size_t \<Rightarrow> size_t \<Rightarrow> int \<times> Stack option" where
  "Stack_init stack capacity elem_size =
     (case stack of
        None \<Rightarrow> (STACK_ERROR, None)
      | Some s \<Rightarrow>
          if capacity = 0 \<or> elem_size = 0 then (STACK_ERROR, Some s)
          else (STACK_SUCCESS,
                Some (s\<lparr>st_capacity := capacity, st_size := 0, st_elem_size := elem_size\<rparr>)))"

definition Stack_is_empty :: "Stack option \<Rightarrow> int" where
  "Stack_is_empty stack =
     (case stack of None \<Rightarrow> STACK_ERROR | Some s \<Rightarrow> if st_size s = 0 then 1 else 0)"

definition Stack_is_full :: "Stack option \<Rightarrow> int" where
  "Stack_is_full stack =
     (case stack of None \<Rightarrow> STACK_ERROR | Some s \<Rightarrow> if st_size s \<ge> st_capacity s then 1 else 0)"

definition Stack_push :: "Stack option \<Rightarrow> byte list option \<Rightarrow> (int \<times> Stack option) option" where
  "Stack_push stack elem =
     (case (stack, elem) of
        (Some s, Some e) \<Rightarrow>
          if st_size s \<ge> st_capacity s then Some (STACK_ERROR, stack)
          else do {
            d \<leftarrow> memcpy (st_data s) (unat (st_size s * st_elem_size s)) e (unat (st_elem_size s));
            Some (STACK_SUCCESS, Some (s\<lparr>st_data := d, st_size := st_size s + 1\<rparr>))
          }
      | _ \<Rightarrow> Some (STACK_ERROR, stack))"

definition Stack_pop ::
  "Stack option \<Rightarrow> byte list option \<Rightarrow> (int \<times> Stack option \<times> byte list option) option" where
  "Stack_pop stack out =
     (case (stack, out) of
        (Some s, Some b) \<Rightarrow>
          if st_size s = 0 then Some (STACK_ERROR, stack, out)
          else do {
            let s' = s\<lparr>st_size := st_size s - 1\<rparr>;
            let off = unat (st_size s' * st_elem_size s');
            let n = unat (st_elem_size s');
            if off + n \<le> length (st_data s') then do {
              b' \<leftarrow> memcpy b 0 (drop off (st_data s')) n;
              Some (STACK_SUCCESS, Some s', Some b')
            } else None
          }
      | _ \<Rightarrow> Some (STACK_ERROR, stack, out))"

definition Stack_top ::
  "Stack option \<Rightarrow> byte list option \<Rightarrow> (int \<times> byte list option) option" where
  "Stack_top stack out =
     (case (stack, out) of
        (Some s, Some b) \<Rightarrow>
          if st_size s = 0 then Some (STACK_ERROR, out)
          else do {
            let off = unat ((st_size s - 1) * st_elem_size s);
            let n = unat (st_elem_size s);
            if off + n \<le> length (st_data s) then do {
              b' \<leftarrow> memcpy b 0 (drop off (st_data s)) n;
              Some (STACK_SUCCESS, Some b')
            } else None
          }
      | _ \<Rightarrow> Some (STACK_ERROR, out))"

definition Stack_get_capacity :: "Stack \<Rightarrow> size_t" where
  "Stack_get_capacity s = st_capacity s"

definition Stack_get_size :: "Stack \<Rightarrow> size_t" where
  "Stack_get_size s = st_size s"

definition Stack_get_elem_size :: "Stack \<Rightarrow> size_t" where
  "Stack_get_elem_size s = st_elem_size s"

section \<open>The object representation of an \<open>int\<close>\<close>

text \<open>Four bytes, two's complement, least significant byte first.\<close>

definition sizeof_int :: size_t where
  "sizeof_int = 4"

definition int_to_bytes :: "int \<Rightarrow> byte list" where
  "int_to_bytes i =
     [word_of_int i, word_of_int (i div 256), word_of_int (i div 65536),
      word_of_int (i div 16777216)]"

definition bytes_to_int :: "byte list \<Rightarrow> int" where
  "bytes_to_int bs =
     (case bs of
        [a, b, c, d] \<Rightarrow>
          signed_take_bit 31 (uint a + 256 * uint b + 65536 * uint c + 16777216 * uint d)
      | _ \<Rightarrow> 0)"

text \<open>What the callers pass: the address of an \<open>int\<close>, and an \<open>int\<close> to read into.\<close>

definition Stack_push_int :: "Stack \<Rightarrow> int \<Rightarrow> (int \<times> Stack) option" where
  "Stack_push_int s i =
     (case Stack_push (Some s) (Some (int_to_bytes i)) of
        Some (r, Some s') \<Rightarrow> Some (r, s') | _ \<Rightarrow> None)"

definition Stack_pop_int :: "Stack \<Rightarrow> int \<Rightarrow> (int \<times> Stack \<times> int) option" where
  "Stack_pop_int s out =
     (case Stack_pop (Some s) (Some (int_to_bytes out)) of
        Some (r, Some s', Some b) \<Rightarrow> Some (r, s', bytes_to_int b) | _ \<Rightarrow> None)"

definition Stack_top_int :: "Stack \<Rightarrow> int \<Rightarrow> (int \<times> int) option" where
  "Stack_top_int s out =
     (case Stack_top (Some s) (Some (int_to_bytes out)) of
        Some (r, Some b) \<Rightarrow> Some (r, bytes_to_int b) | _ \<Rightarrow> None)"

section \<open>Abstraction\<close>

text \<open>The elements of the stack, bottom first, as blocks of bytes; and as indices, top
  first.\<close>

definition stack_blocks :: "Stack \<Rightarrow> byte list list" where
  "stack_blocks s =
     map (\<lambda>k. buf_slice (k * unat (st_elem_size s)) (unat (st_elem_size s)) (st_data s))
       [0..<unat (st_size s)]"

definition stack_ok :: "Stack \<Rightarrow> bool" where
  "stack_ok s \<longleftrightarrow>
     st_size s \<le> st_capacity s \<and> 0 < st_elem_size s \<and>
     unat (st_capacity s) * unat (st_elem_size s) \<le> length (st_data s) \<and>
     unat (st_capacity s) * unat (st_elem_size s) < 2 ^ 64"

definition stack_ints :: "Stack \<Rightarrow> int list" where
  "stack_ints s = rev (map bytes_to_int (stack_blocks s))"

definition int_stack_ok :: "Stack \<Rightarrow> bool" where
  "int_stack_ok s \<longleftrightarrow> stack_ok s \<and> st_elem_size s = sizeof_int"

section \<open>Representation lemmas\<close>

lemma int_to_bytes_length [simp]: "length (int_to_bytes i) = 4"
  by (simp add: int_to_bytes_def)

lemma bytes_to_int_to_bytes:
  assumes "in_int i"
  shows "bytes_to_int (int_to_bytes i) = i"
proof -
  have u: "uint (word_of_int x :: byte) = x mod 256" for x
    by (simp add: uint_word_of_int)
  have d: "i div 256 div 256 = i div 65536" "i div 65536 div 256 = i div 16777216"
    using zdiv_zmult2_eq [of 256 i 256] zdiv_zmult2_eq [of 256 i 65536] by simp_all
  have digits: "a + 256 * b + 65536 * c + 16777216 * z = m"
    if "m = 256 * x + a" "x = 256 * y + b" "y = 256 * z + c" for a b c m x y z :: int
    using that by simp
  have m1: "i mod 4294967296 = 256 * (i div 256 mod 16777216) + i mod 256"
    using mod_mult2_eq' [of i 256 16777216] by simp
  have m2: "i div 256 mod 16777216 = 256 * (i div 65536 mod 65536) + i div 256 mod 256"
    using mod_mult2_eq' [of "i div 256" 256 65536] by (simp add: d)
  have m3: "i div 65536 mod 65536 = 256 * (i div 16777216 mod 256) + i div 65536 mod 256"
    using mod_mult2_eq' [of "i div 65536" 256 256] by (simp add: d)
  have t: "take_bit 32 i = i mod 4294967296"
    by (simp add: take_bit_eq_mod)
  have "bytes_to_int (int_to_bytes i) =
      signed_take_bit 31 (i mod 256 + 256 * (i div 256 mod 256) + 65536 * (i div 65536 mod 256)
        + 16777216 * (i div 16777216 mod 256))"
    by (simp only: bytes_to_int_def int_to_bytes_def u list.case)
  also have "\<dots> = signed_take_bit 31 (take_bit 32 i)"
    by (simp only: digits [OF m1 m2 m3] t)
  also have "\<dots> = signed_take_bit 31 i"
    by (simp add: signed_take_bit_take_bit)
  also have "\<dots> = i"
    using assms by (intro signed_take_bit_int_eq_self) (simp_all add: in_int_def INT_MIN_def INT_MAX_def)
  finally show ?thesis .
qed

lemma stack_blocks_length [simp]: "length (stack_blocks s) = unat (st_size s)"
  by (simp add: stack_blocks_def)

lemma stack_ints_length [simp]: "length (stack_ints s) = unat (st_size s)"
  by (simp add: stack_ints_def)

text \<open>Offsets do not wrap around below the capacity.\<close>

lemma stack_offset:
  assumes "stack_ok s" and "k < st_capacity s"
  shows "unat (k * st_elem_size s) = unat k * unat (st_elem_size s)"
    and "unat k * unat (st_elem_size s) + unat (st_elem_size s) \<le> length (st_data s)"
proof -
  have k: "Suc (unat k) \<le> unat (st_capacity s)"
    using assms(2) by (simp add: word_less_nat_alt)
  then have le: "Suc (unat k) * unat (st_elem_size s) \<le> unat (st_capacity s) * unat (st_elem_size s)"
    by (rule mult_le_mono1)
  with assms(1) have "unat k * unat (st_elem_size s) < 2 ^ 64"
    by (simp add: stack_ok_def)
  then show "unat (k * st_elem_size s) = unat k * unat (st_elem_size s)"
    by (simp add: unat_word_ariths)
  from le assms(1) show "unat k * unat (st_elem_size s) + unat (st_elem_size s) \<le> length (st_data s)"
    by (simp add: stack_ok_def)
qed

lemma size_plus_one: "st_size s < st_capacity s \<Longrightarrow> unat (st_size s + 1) = Suc (unat (st_size s))"
  using unsigned_less [of "st_capacity s", where 'a = nat]
  by (simp add: word_less_nat_alt unat_word_ariths)

lemma size_minus_one: "st_size s \<noteq> 0 \<Longrightarrow> unat (st_size s - 1) = unat (st_size s) - 1"
  by (simp add: unat_minus_one)

section \<open>The operations on well-formed stacks\<close>

lemma Stack_push_ok:
  assumes ok: "stack_ok s" and room: "st_size s < st_capacity s"
    and e: "unat (st_elem_size s) \<le> length e"
  shows "\<exists>s'. Stack_push (Some s) (Some e) = Some (STACK_SUCCESS, Some s') \<and> stack_ok s' \<and>
    stack_blocks s' = stack_blocks s @ [take (unat (st_elem_size s)) e] \<and>
    st_capacity s' = st_capacity s \<and> st_elem_size s' = st_elem_size s"
proof -
  let ?es = "unat (st_elem_size s)" and ?n = "unat (st_size s)"
  note off = stack_offset [OF ok room]
  obtain d where d: "memcpy (st_data s) (?n * ?es) e ?es = Some d"
    using off e by (simp add: memcpy_def)
  let ?s' = "s\<lparr>st_data := d, st_size := st_size s + 1\<rparr>"
  have before: "buf_slice (k * ?es) ?es d = buf_slice (k * ?es) ?es (st_data s)" if "k < ?n" for k
  proof (rule memcpy_buf_slice_before [OF d])
    show "k * ?es + ?es \<le> ?n * ?es"
      using that mult_le_mono1 [of "Suc k" ?n ?es] by simp
  qed
  have "stack_blocks ?s' = stack_blocks s @ [take ?es e]"
    using before memcpy_buf_slice_same [OF d] by (simp add: stack_blocks_def size_plus_one [OF room])
  moreover have "stack_ok ?s'"
    using ok room memcpy_length [OF d] by (simp add: stack_ok_def inc_le)
  moreover have "Stack_push (Some s) (Some e) = Some (STACK_SUCCESS, Some ?s')"
    using d off leD [of "st_size s" "st_capacity s"] room by (auto simp: Stack_push_def not_le)
  ultimately show ?thesis by auto
qed

lemma Stack_push_full:
  "st_size s \<ge> st_capacity s \<Longrightarrow> Stack_push (Some s) (Some e) = Some (STACK_ERROR, Some s)"
  by (simp add: Stack_push_def)

lemma stack_blocks_last:
  assumes "st_size s \<noteq> 0"
  shows "stack_blocks s =
    stack_blocks (s\<lparr>st_size := st_size s - 1\<rparr>) @
      [buf_slice (unat (st_size s - 1) * unat (st_elem_size s)) (unat (st_elem_size s)) (st_data s)]"
proof -
  have "unat (st_size s) = Suc (unat (st_size s - 1))"
    using assms by (simp add: size_minus_one unat_gt_0)
  then show ?thesis
    by (simp add: stack_blocks_def)
qed

lemma Stack_pop_ok:
  assumes ok: "stack_ok s" and ne: "st_size s \<noteq> 0"
    and b: "length b = unat (st_elem_size s)"
  shows "Stack_pop (Some s) (Some b) =
      Some (STACK_SUCCESS, Some (s\<lparr>st_size := st_size s - 1\<rparr>), Some (last (stack_blocks s)))"
    and "stack_ok (s\<lparr>st_size := st_size s - 1\<rparr>)"
    and "stack_blocks (s\<lparr>st_size := st_size s - 1\<rparr>) = butlast (stack_blocks s)"
proof -
  have lt: "st_size s - 1 < st_capacity s"
    using ok ne by (metis measure_unat order_less_le_trans stack_ok_def word_less_nat_alt)
  note off = stack_offset [OF ok lt]
  show "Stack_pop (Some s) (Some b) =
      Some (STACK_SUCCESS, Some (s\<lparr>st_size := st_size s - 1\<rparr>), Some (last (stack_blocks s)))"
    using ne off b
    by (simp add: Stack_pop_def Let_def memcpy_def stack_blocks_last [OF ne] buf_slice_def)
  show "stack_ok (s\<lparr>st_size := st_size s - 1\<rparr>)"
    using ok lt by (simp add: stack_ok_def)
  show "stack_blocks (s\<lparr>st_size := st_size s - 1\<rparr>) = butlast (stack_blocks s)"
    by (subst stack_blocks_last [OF ne]) simp
qed

lemma Stack_pop_empty:
  "st_size s = 0 \<Longrightarrow> Stack_pop (Some s) (Some b) = Some (STACK_ERROR, Some s, Some b)"
  by (simp add: Stack_pop_def)

lemma Stack_top_ok:
  assumes ok: "stack_ok s" and ne: "st_size s \<noteq> 0"
    and b: "length b = unat (st_elem_size s)"
  shows "Stack_top (Some s) (Some b) = Some (STACK_SUCCESS, Some (last (stack_blocks s)))"
proof -
  have "st_size s - 1 < st_capacity s"
    using ok ne by (metis measure_unat order_less_le_trans stack_ok_def word_less_nat_alt)
  note off = stack_offset [OF ok this]
  show ?thesis
    using ne off b
    by (simp add: Stack_top_def Let_def memcpy_def stack_blocks_last [OF ne] buf_slice_def)
qed

section \<open>The interface: a bounded stack of indices\<close>

locale index_stack =
  fixes push :: "'s \<Rightarrow> int \<Rightarrow> (int \<times> 's) option"
    and pop :: "'s \<Rightarrow> int \<Rightarrow> (int \<times> 's \<times> int) option"
    and items :: "'s \<Rightarrow> int list"
    and room :: "'s \<Rightarrow> nat"
    and ok :: "'s \<Rightarrow> bool"
  assumes push_room: "ok s \<Longrightarrow> length (items s) < room s \<Longrightarrow> in_int i \<Longrightarrow>
      \<exists>s'. push s i = Some (0, s') \<and> ok s' \<and> items s' = i # items s \<and> room s' = room s"
    and push_full: "ok s \<Longrightarrow> length (items s) = room s \<Longrightarrow> push s i = Some (- 1, s)"
    and pop_item: "ok s \<Longrightarrow> items s = i # is \<Longrightarrow>
      \<exists>s'. pop s out = Some (0, s', i) \<and> ok s' \<and> items s' = is \<and> room s' = room s"
    and pop_empty: "ok s \<Longrightarrow> items s = [] \<Longrightarrow> in_int out \<Longrightarrow> pop s out = Some (- 1, s, out)"
    and within: "ok s \<Longrightarrow> length (items s) \<le> room s"
begin

lemma push_total:
  assumes "ok s" and "in_int i"
  shows "\<exists>r s'. push s i = Some (r, s') \<and> ok s' \<and> room s' = room s \<and>
    (r = 0 \<and> length (items s) < room s \<and> items s' = i # items s \<or>
     r = - 1 \<and> length (items s) = room s \<and> s' = s)"
  using assms push_room push_full within by (metis order_le_imp_less_or_eq)

lemma push_pop:
  assumes "ok s" and "length (items s) < room s" and "in_int i"
  shows "\<exists>s' s''. push s i = Some (0, s') \<and> pop s' out = Some (0, s'', i) \<and> items s'' = items s"
  using push_room [OF assms] pop_item by metis

lemma pop_push:
  assumes "ok s" and "items s = i # is" and "in_int i"
  shows "\<exists>s' s''. pop s out = Some (0, s', i) \<and> push s' i = Some (0, s'') \<and> items s'' = items s"
proof -
  obtain s' where s': "pop s out = Some (0, s', i)" "ok s'" "items s' = is" "room s' = room s"
    using pop_item [OF assms(1,2)] by blast
  with within [OF assms(1)] assms(2) have "length (items s') < room s'" by simp
  with s' assms push_room show ?thesis by metis
qed

end

lemma int_stack_size_full:
  "int_stack_ok s \<Longrightarrow> length (stack_ints s) = unat (st_capacity s) \<longleftrightarrow> st_size s \<ge> st_capacity s"
  by (auto simp: int_stack_ok_def stack_ok_def word_le_nat_alt)

lemma unat_sizeof_int [simp]: "unat sizeof_int = 4"
  by (simp add: sizeof_int_def)

interpretation st: index_stack Stack_push_int Stack_pop_int stack_ints
  "\<lambda>s. unat (st_capacity s)" int_stack_ok
proof (unfold_locales, goal_cases)
  case (1 s i)
  then have "stack_ok s" "st_size s < st_capacity s" "st_elem_size s = sizeof_int"
    by (auto simp: int_stack_ok_def word_less_nat_alt)
  with Stack_push_ok [of s "int_to_bytes i"] \<open>in_int i\<close> show ?case
    by (auto simp: Stack_push_int_def int_stack_ok_def stack_ints_def STACK_SUCCESS_def
        bytes_to_int_to_bytes)
next
  case (2 s i)
  then have "st_capacity s \<le> st_size s"
    by (simp only: int_stack_size_full)
  then show ?case
    by (simp add: Stack_push_int_def Stack_push_full STACK_ERROR_def)
next
  case (3 s i "is" out)
  then have ok: "stack_ok s" "st_elem_size s = sizeof_int"
    and m: "map bytes_to_int (stack_blocks s) = rev is @ [i]"
    by (auto simp: int_stack_ok_def stack_ints_def)
  from m have nn: "stack_blocks s \<noteq> []" by auto
  then have ne: "st_size s \<noteq> 0" by (auto simp: stack_blocks_def)
  have blocks: "i = bytes_to_int (last (stack_blocks s))"
    "is = rev (map bytes_to_int (butlast (stack_blocks s)))"
    using m by (metis nn last_map last_snoc,
        metis butlast_snoc map_butlast rev_rev_ident)
  show ?case
    using ok Stack_pop_ok [OF ok(1) ne, of "int_to_bytes out"] blocks
    by (auto simp: Stack_pop_int_def int_stack_ok_def stack_ints_def STACK_SUCCESS_def)
next
  case (4 s out)
  then have "st_size s = 0"
    by (metis list.size(3) stack_ints_length unat_eq_0)
  with 4 show ?case
    by (simp add: Stack_pop_int_def Stack_pop_empty bytes_to_int_to_bytes STACK_ERROR_def)
next
  case (5 s)
  then show ?case by (simp add: int_stack_ok_def stack_ok_def word_le_nat_alt)
qed

text \<open>From here on the stack is used through the interface only.\<close>

declare stack_ints_length [simp del]

section \<open>Properties\<close>

text \<open>C39. What is pushed on a stack that is not full comes back with the next pop, byte for byte, for
  every element size, and the stack below it is as before.\<close>

theorem Stack_push_then_pop:
  assumes "stack_ok s" and "st_size s < st_capacity s"
    and "length e = unat (st_elem_size s)" and "length out = unat (st_elem_size s)"
  shows "\<exists>s' s''. Stack_push (Some s) (Some e) = Some (STACK_SUCCESS, Some s') \<and>
    Stack_pop (Some s') (Some out) = Some (STACK_SUCCESS, Some s'', Some e) \<and>
    stack_ok s'' \<and> stack_blocks s'' = stack_blocks s"
proof -
  obtain s' where s': "Stack_push (Some s) (Some e) = Some (STACK_SUCCESS, Some s')" "stack_ok s'"
      "stack_blocks s' = stack_blocks s @ [e]" "st_elem_size s' = st_elem_size s"
    using Stack_push_ok [OF assms(1,2), of e] assms(3) by auto
  then have "length (stack_blocks s') \<noteq> 0" by simp
  then have ne: "st_size s' \<noteq> 0" by (simp add: unat_eq_0)
  have "length out = unat (st_elem_size s')" using assms(4) s'(4) by simp
  with s' Stack_pop_ok [OF s'(2) ne, of out] show ?thesis by simp
qed

theorem Stack_push_then_pop_witness:
  "\<exists>s' s''.
     Stack_push (Some \<lparr>st_capacity = 2, st_size = 1, st_elem_size = 3, st_data = [1, 2, 3, 0, 0, 0]\<rparr>) (Some [7, 8, 9]) =
       Some (STACK_SUCCESS, Some s') \<and>
     Stack_pop (Some s') (Some [0, 0, 0]) = Some (STACK_SUCCESS, Some s'', Some [7, 8, 9]) \<and>
     stack_ok s'' \<and>
     stack_blocks s'' = stack_blocks \<lparr>st_capacity = 2, st_size = 1, st_elem_size = 3, st_data = [1, 2, 3, 0, 0, 0]\<rparr>"
  by (rule Stack_push_then_pop) (simp_all add: stack_ok_def)

text \<open>C40. Used with \<open>int\<close> elements, the byte-level stack implements a bounded list of integers: a push
  puts the value in front of the list or, when the stack is full, fails and changes nothing; a pop
  takes the first value off or, when the stack is empty, fails and changes nothing.  Both always
  return.\<close>

theorem Stack_refines_bounded_list:
  assumes "int_stack_ok s" and "in_int i" and "in_int out"
  shows "(\<exists>s'. Stack_push_int s i =
           Some (if length (stack_ints s) < unat (st_capacity s) then STACK_SUCCESS else STACK_ERROR, s') \<and>
         int_stack_ok s' \<and> st_capacity s' = st_capacity s \<and>
         stack_ints s' = (if length (stack_ints s) < unat (st_capacity s) then i # stack_ints s else stack_ints s)) \<and>
    (\<exists>s'. Stack_pop_int s out =
           Some (if stack_ints s = [] then (STACK_ERROR, s, out) else (STACK_SUCCESS, s', hd (stack_ints s))) \<and>
         int_stack_ok s' \<and> st_capacity s' = st_capacity s \<and> stack_ints s' = tl (stack_ints s))"
proof
  show "\<exists>s'. Stack_push_int s i =
         Some (if length (stack_ints s) < unat (st_capacity s) then STACK_SUCCESS else STACK_ERROR, s') \<and>
       int_stack_ok s' \<and> st_capacity s' = st_capacity s \<and>
       stack_ints s' = (if length (stack_ints s) < unat (st_capacity s) then i # stack_ints s else stack_ints s)"
    using st.push_total [OF assms(1,2)] assms(1)
    by (auto simp: STACK_SUCCESS_def STACK_ERROR_def word_eq_iff_unsigned [where 'a = nat])
  show "\<exists>s'. Stack_pop_int s out =
         Some (if stack_ints s = [] then (STACK_ERROR, s, out) else (STACK_SUCCESS, s', hd (stack_ints s))) \<and>
       int_stack_ok s' \<and> st_capacity s' = st_capacity s \<and> stack_ints s' = tl (stack_ints s)"
  proof (cases "stack_ints s")
    case Nil
    with st.pop_empty [OF assms(1) Nil assms(3)] assms(1) show ?thesis
      by (auto simp: STACK_ERROR_def intro!: exI [of _ s])
  next
    case (Cons j js)
    with st.pop_item [OF assms(1) Cons, of out] show ?thesis
      by (auto simp: STACK_SUCCESS_def word_eq_iff_unsigned [where 'a = nat])
  qed
qed

theorem Stack_refines_bounded_list_witness:
  "(\<exists>s'. Stack_push_int \<lparr>st_capacity = 2, st_size = 1, st_elem_size = 4, st_data = [5, 0, 0, 0, 0, 0, 0, 0]\<rparr> (- 3) =
        Some (STACK_SUCCESS, s') \<and> stack_ints s' = [- 3, 5]) \<and>
   (\<exists>s'. Stack_pop_int \<lparr>st_capacity = 2, st_size = 1, st_elem_size = 4, st_data = [5, 0, 0, 0, 0, 0, 0, 0]\<rparr> 0 =
        Some (STACK_SUCCESS, s', 5) \<and> stack_ints s' = [])"
proof -
  let ?s = "\<lparr>st_capacity = 2, st_size = 1, st_elem_size = 4, st_data = [5, 0, 0, 0, 0, 0, 0, 0]\<rparr>"
  have "int_stack_ok ?s" by (simp add: int_stack_ok_def stack_ok_def sizeof_int_def)
  moreover have "stack_ints ?s = [5]" by code_simp
  moreover have "in_int (- 3)" "in_int 0" by code_simp+
  ultimately show ?thesis
    using Stack_refines_bounded_list [of ?s "- 3" 0] by auto
qed

text \<open>The object representation of an \<open>int\<close>: every value of the type survives being stored as
  four bytes and read back.\<close>

theorem int_bytes_roundtrip:
  assumes "in_int i"
  shows "length (int_to_bytes i) = unat sizeof_int \<and> bytes_to_int (int_to_bytes i) = i"
  using assms by (simp add: bytes_to_int_to_bytes)

theorem int_bytes_roundtrip_witness:
  "in_int (- 123456) \<and> length (int_to_bytes (- 123456)) = unat sizeof_int \<and>
     bytes_to_int (int_to_bytes (- 123456)) = - 123456"
proof -
  have h: "in_int (- 123456)" by code_simp
  show ?thesis using h int_bytes_roundtrip [OF h] by simp
qed

text \<open>The segment size that \<open>Stack_bytes_needed\<close> computes is enough: if the size does not
  overflow \<open>size_t\<close>, \<open>Stack_init\<close> on a segment of that size succeeds and gives an empty, well-formed
  stack, on which exactly \<open>capacity\<close> pushes stay inside the segment.\<close>

theorem Stack_init_bytes_needed:
  assumes "0 < capacity" and "0 < elem_size" and "32 + unat capacity * unat elem_size < 2 ^ 64"
    and "length (st_data s) = unat (Stack_bytes_needed capacity elem_size) - unat sizeof_Stack"
  shows "\<exists>s'. Stack_init (Some s) capacity elem_size = (STACK_SUCCESS, Some s') \<and> stack_ok s' \<and>
    stack_blocks s' = [] \<and> st_capacity s' = capacity \<and>
    length (st_data s') = unat capacity * unat elem_size"
proof -
  have "unat (Stack_bytes_needed capacity elem_size) = 32 + unat capacity * unat elem_size"
    using assms(3) by (simp add: Stack_bytes_needed_def sizeof_Stack_def unat_word_ariths)
  then show ?thesis
    using assms by (auto simp: Stack_init_def stack_ok_def stack_blocks_def sizeof_Stack_def)
qed

theorem Stack_init_bytes_needed_witness:
  "\<exists>s'. Stack_init (Some \<lparr>st_capacity = 0, st_size = 0, st_elem_size = 0, st_data = replicate 12 0\<rparr>) 3 4 =
       (STACK_SUCCESS, Some s') \<and> stack_ok s' \<and> stack_blocks s' = [] \<and> st_capacity s' = 3 \<and>
     length (st_data s') = unat (3 :: size_t) * unat (4 :: size_t)"
  by (rule Stack_init_bytes_needed) (simp_all add: Stack_bytes_needed_def sizeof_Stack_def)

end
