(* ===== verification/Drone_Data.thy ===== *)
theory Drone_Data
  imports Stack
begin

text \<open>
  The shared data of the swarm: the types of \<^verbatim>\<open>src/src/ipc/ipc.h\<close> and the four operations
  of \<^verbatim>\<open>src/src/ipc/shm.c\<close> on the table of drones and the stack of free slots.  The flexible
  array \<open>drones[]\<close> is a list with one entry per slot of the segment; an index outside it
  has no defined result (\<open>None\<close>).

  The invariant \<open>table_ok\<close> ties the counters and the free stack to the table; every
  operation keeps it under the conditions its callers establish.
\<close>

section \<open>Types\<close>

record SHM_Configuration =
  starting_drones_count :: int
  resupply_interval :: int
  cfg_maximum_charge_time :: int
  max_loading_cycles :: int
  cfg_gate_time_to_pass :: int
  dron_work_interval :: int

text \<open>The enumeration of locations.  An object of this type can hold any other value of
  the underlying integer type; \<open>LOCATION_OTHER\<close> stands for those.\<close>

datatype DronData_Location =
    LOCATION_UNDEFINE
  | LOCATION_BASE
  | LOCATION_MISSION
  | LOCATION_OTHER int

definition location_of_int :: "int \<Rightarrow> DronData_Location" where
  "location_of_int n =
     (if n = 0 then LOCATION_UNDEFINE else if n = 1 then LOCATION_BASE
      else if n = 2 then LOCATION_MISSION else LOCATION_OTHER n)"

fun int_of_location :: "DronData_Location \<Rightarrow> int" where
  "int_of_location LOCATION_UNDEFINE = 0"
| "int_of_location LOCATION_BASE = 1"
| "int_of_location LOCATION_MISSION = 2"
| "int_of_location (LOCATION_OTHER n) = n"

datatype DronData_DESTRUCTION_REASON =
    DESTRUCTION_REASON_OUT_OF_POWER
  | DESTRUCTION_REASON_DECOMMISSIONED
  | DESTRUCTION_REASON_SUICIDE
  | DESTRUCTION_REASON_OTHER

record DronData =
  dd_id :: int
  dd_pid :: int
  dd_location :: DronData_Location

record SHM_AllDronesData =
  next_dron_id :: int
  dron_count :: int
  dron_in_base_count :: int
  maximum_dron_in_base_count :: int
  dron_reserving_space_count :: int
  capacity :: int
  drone_lost_suicide :: int
  drone_lost_decommissioned :: int
  drone_lost_out_of_power :: int
  drone_lost_other :: int
  drones :: "DronData list"

text \<open>Access to \<open>drones[i]\<close>.\<close>

definition slot_valid :: "SHM_AllDronesData \<Rightarrow> int \<Rightarrow> bool" where
  "slot_valid a i \<longleftrightarrow> 0 \<le> i \<and> i < int (length (drones a))"

definition slot :: "SHM_AllDronesData \<Rightarrow> int \<Rightarrow> DronData" where
  "slot a i = drones a ! nat i"

definition set_slot :: "SHM_AllDronesData \<Rightarrow> int \<Rightarrow> DronData \<Rightarrow> SHM_AllDronesData" where
  "set_slot a i d = a\<lparr>drones := (drones a)[nat i := d]\<rparr>"

abbreviation slot_location :: "SHM_AllDronesData \<Rightarrow> int \<Rightarrow> DronData_Location" where
  "slot_location a i \<equiv> dd_location (slot a i)"

section \<open>Operations\<close>

fun DronData_LocationToString :: "DronData_Location \<Rightarrow> string" where
  "DronData_LocationToString LOCATION_UNDEFINE = ''LOCATION_UNDEFINE''"
| "DronData_LocationToString LOCATION_BASE = ''LOCATION_BASE''"
| "DronData_LocationToString LOCATION_MISSION = ''LOCATION_MISSION''"
| "DronData_LocationToString (LOCATION_OTHER n) = ''UNKNOWN_LOCATION''"

definition SHM_AllDronesData_add_dron ::
  "SHM_AllDronesData \<Rightarrow> Stack \<Rightarrow> DronData \<Rightarrow> (int \<times> SHM_AllDronesData \<times> Stack) option" where
  "SHM_AllDronesData_add_dron a free_space_stack d = do {
     (r, free_space_stack', out) \<leftarrow> Stack_pop_int free_space_stack (- 1);
     if r = STACK_ERROR then Some (- 1, a, free_space_stack')
     else do {
       let a = a\<lparr>dron_count := dron_count a + 1\<rparr>;
       let a = (if dd_location d = LOCATION_BASE
                then a\<lparr>dron_in_base_count := dron_in_base_count a + 1\<rparr> else a);
       if slot_valid a out then Some (out, set_slot a out d, free_space_stack') else None
     }
   }"

text \<open>The warning about a negative reserve count is output only; \<open>reserve_negative\<close> is the
  condition under which the code prints it.\<close>

definition reserve_negative :: "SHM_AllDronesData \<Rightarrow> bool" where
  "reserve_negative a \<longleftrightarrow> dron_reserving_space_count a < 0"

definition SHM_AllDronesData_update_dron_location ::
  "SHM_AllDronesData \<Rightarrow> int \<Rightarrow> DronData_Location \<Rightarrow> (int \<times> SHM_AllDronesData) option" where
  "SHM_AllDronesData_update_dron_location a dron_index new_dron_location =
     (if slot_valid a dron_index then do {
        let old_location = slot_location a dron_index;
        let a = (if old_location = LOCATION_BASE
                 then a\<lparr>dron_in_base_count := dron_in_base_count a - 1\<rparr> else a);
        let a = (if old_location = LOCATION_MISSION
                 then a\<lparr>dron_in_base_count := dron_in_base_count a + 1,
                        dron_reserving_space_count := dron_reserving_space_count a - 1\<rparr> else a);
        Some (0, set_slot a dron_index ((slot a dron_index)\<lparr>dd_location := new_dron_location\<rparr>))
      } else None)"

fun count_loss :: "DronData_DESTRUCTION_REASON \<Rightarrow> SHM_AllDronesData \<Rightarrow> SHM_AllDronesData" where
  "count_loss DESTRUCTION_REASON_OUT_OF_POWER a =
     a\<lparr>drone_lost_out_of_power := drone_lost_out_of_power a + 1\<rparr>"
| "count_loss DESTRUCTION_REASON_DECOMMISSIONED a =
     a\<lparr>drone_lost_decommissioned := drone_lost_decommissioned a + 1\<rparr>"
| "count_loss DESTRUCTION_REASON_SUICIDE a =
     a\<lparr>drone_lost_suicide := drone_lost_suicide a + 1\<rparr>"
| "count_loss DESTRUCTION_REASON_OTHER a =
     a\<lparr>drone_lost_other := drone_lost_other a + 1\<rparr>"

definition SHM_AllDronesData_delete_drone ::
  "SHM_AllDronesData \<Rightarrow> Stack \<Rightarrow> int \<Rightarrow> int \<Rightarrow> DronData_DESTRUCTION_REASON \<Rightarrow>
     (int \<times> SHM_AllDronesData \<times> Stack) option" where
  "SHM_AllDronesData_delete_drone a free_space_stack dron_index has_space_reserved
     destruction_reason =
     (if slot_valid a dron_index then do {
        let a = a\<lparr>dron_count := dron_count a - 1\<rparr>;
        let a = count_loss destruction_reason a;
        let a = (if slot_location a dron_index = LOCATION_BASE
                 then a\<lparr>dron_in_base_count := dron_in_base_count a - 1\<rparr> else a);
        let a = (if has_space_reserved \<noteq> 0
                 then a\<lparr>dron_reserving_space_count := dron_reserving_space_count a - 1\<rparr> else a);
        let a = set_slot a dron_index ((slot a dron_index)\<lparr>dd_location := LOCATION_UNDEFINE\<rparr>);
        (r, free_space_stack') \<leftarrow> Stack_push_int free_space_stack dron_index;
        if r = STACK_ERROR then Some (- 1, a, free_space_stack')
        else Some (dron_index, a, free_space_stack')
      } else None)"

text \<open>The loop of \<open>SHM_AllDronesData_get_dron_pid\<close> from index \<open>i\<close> on.\<close>

function get_dron_pid_from :: "SHM_AllDronesData \<Rightarrow> int \<Rightarrow> int option" where
  "get_dron_pid_from a i =
     (if i < capacity a then
        if slot_valid a i then
          if slot_location a i \<noteq> LOCATION_UNDEFINE then Some (dd_pid (slot a i))
          else get_dron_pid_from a (i + 1)
        else None
      else Some (- 1))"
  by pat_completeness auto
termination
  by (relation "measure (\<lambda>(a, i). nat (capacity a - i))") auto

declare get_dron_pid_from.simps [simp del]

definition SHM_AllDronesData_get_dron_pid :: "SHM_AllDronesData \<Rightarrow> int option" where
  "SHM_AllDronesData_get_dron_pid a = get_dron_pid_from a 0"

section \<open>The invariant of the table\<close>

definition lost_total :: "SHM_AllDronesData \<Rightarrow> int" where
  "lost_total a =
     drone_lost_suicide a + drone_lost_decommissioned a + drone_lost_out_of_power a
     + drone_lost_other a"

abbreviation used :: "DronData \<Rightarrow> bool" where
  "used d \<equiv> dd_location d \<noteq> LOCATION_UNDEFINE"

abbreviation in_base :: "DronData \<Rightarrow> bool" where
  "in_base d \<equiv> dd_location d = LOCATION_BASE"

definition free_slots :: "SHM_AllDronesData \<Rightarrow> int set" where
  "free_slots a = {i. slot_valid a i \<and> slot_location a i = LOCATION_UNDEFINE}"

definition table_ok :: "SHM_AllDronesData \<Rightarrow> Stack \<Rightarrow> bool" where
  "table_ok a s \<longleftrightarrow>
     int_stack_ok s \<and> unat (st_capacity s) = length (drones a) \<and>
     capacity a = int (length (drones a)) \<and> capacity a \<le> INT_MAX \<and>
     distinct (stack_ints s) \<and> set (stack_ints s) = free_slots a \<and>
     dron_count a = count_by used (drones a) \<and>
     dron_in_base_count a = count_by in_base (drones a)"

section \<open>Slots\<close>

lemma set_slot_fields [simp]:
  "next_dron_id (set_slot a i d) = next_dron_id a"
  "dron_count (set_slot a i d) = dron_count a"
  "dron_in_base_count (set_slot a i d) = dron_in_base_count a"
  "maximum_dron_in_base_count (set_slot a i d) = maximum_dron_in_base_count a"
  "dron_reserving_space_count (set_slot a i d) = dron_reserving_space_count a"
  "capacity (set_slot a i d) = capacity a"
  "drone_lost_suicide (set_slot a i d) = drone_lost_suicide a"
  "drone_lost_decommissioned (set_slot a i d) = drone_lost_decommissioned a"
  "drone_lost_out_of_power (set_slot a i d) = drone_lost_out_of_power a"
  "drone_lost_other (set_slot a i d) = drone_lost_other a"
  "length (drones (set_slot a i d)) = length (drones a)"
  by (simp_all add: set_slot_def)

lemma slot_frame [simp]:
  "slot (a\<lparr>next_dron_id := x\<rparr>) = slot a"
  "slot (a\<lparr>dron_count := x\<rparr>) = slot a"
  "slot (a\<lparr>dron_in_base_count := x\<rparr>) = slot a"
  "slot (a\<lparr>maximum_dron_in_base_count := x\<rparr>) = slot a"
  "slot (a\<lparr>dron_reserving_space_count := x\<rparr>) = slot a"
  "slot (count_loss r a) = slot a"
  by (cases r; simp add: slot_def fun_eq_iff)+

lemma slot_valid_frame [simp]:
  "slot_valid (a\<lparr>next_dron_id := x\<rparr>) = slot_valid a"
  "slot_valid (a\<lparr>dron_count := x\<rparr>) = slot_valid a"
  "slot_valid (a\<lparr>dron_in_base_count := x\<rparr>) = slot_valid a"
  "slot_valid (a\<lparr>maximum_dron_in_base_count := x\<rparr>) = slot_valid a"
  "slot_valid (a\<lparr>dron_reserving_space_count := x\<rparr>) = slot_valid a"
  "slot_valid (count_loss r a) = slot_valid a"
  by (cases r; simp add: slot_valid_def fun_eq_iff)+

lemma slot_valid_cong: "length (drones a) = length (drones b) \<Longrightarrow> slot_valid a = slot_valid b"
  by (simp add: slot_valid_def fun_eq_iff)

lemma slot_valid_set_slot [simp]: "slot_valid (set_slot a i d) = slot_valid a"
  by (simp add: slot_valid_def fun_eq_iff)

lemma slot_set_slot:
  "slot_valid a i \<Longrightarrow> slot_valid a j \<Longrightarrow> slot (set_slot a i d) j = (if i = j then d else slot a j)"
  by (auto simp: slot_valid_def slot_def set_slot_def nth_list_update nat_eq_iff)

lemma count_by_set_slot:
  "slot_valid a i \<Longrightarrow>
     count_by P (drones (set_slot a i d)) =
       count_by P (drones a) - (if P (slot a i) then 1 else 0) + (if P d then 1 else 0)"
  by (simp add: slot_valid_def slot_def set_slot_def count_by_update nat_less_iff)

lemma free_slots_set_slot:
  "slot_valid a i \<Longrightarrow>
     free_slots (set_slot a i d) =
       (if dd_location d = LOCATION_UNDEFINE then insert i (free_slots a) else free_slots a - {i})"
  by (auto simp: free_slots_def slot_set_slot split: if_splits)

lemma free_slots_cong: "drones a = drones b \<Longrightarrow> free_slots a = free_slots b"
  by (simp add: free_slots_def slot_valid_def slot_def)

lemma count_loss_frame [simp]:
  "drones (count_loss r a) = drones a"
  "next_dron_id (count_loss r a) = next_dron_id a"
  "dron_count (count_loss r a) = dron_count a"
  "dron_in_base_count (count_loss r a) = dron_in_base_count a"
  "maximum_dron_in_base_count (count_loss r a) = maximum_dron_in_base_count a"
  "dron_reserving_space_count (count_loss r a) = dron_reserving_space_count a"
  "capacity (count_loss r a) = capacity a"
  by (cases r; simp)+

lemma lost_total_count_loss [simp]: "lost_total (count_loss r a) = lost_total a + 1"
  by (cases r) (simp_all add: lost_total_def)

lemma lost_total_cong:
  "lost_total (a\<lparr>dron_count := c\<rparr>) = lost_total a"
  "lost_total (a\<lparr>dron_in_base_count := c\<rparr>) = lost_total a"
  "lost_total (a\<lparr>maximum_dron_in_base_count := c\<rparr>) = lost_total a"
  "lost_total (a\<lparr>dron_reserving_space_count := c\<rparr>) = lost_total a"
  "lost_total (a\<lparr>next_dron_id := c\<rparr>) = lost_total a"
  "lost_total (set_slot a i d) = lost_total a"
  by (simp_all add: lost_total_def)

lemmas table_frame = set_slot_fields slot_valid_set_slot count_loss_frame lost_total_count_loss
  lost_total_cong

lemma table_ok_slot: "table_ok a s \<Longrightarrow> i \<in> set (stack_ints s) \<longleftrightarrow> slot_valid a i \<and> slot_location a i = LOCATION_UNDEFINE"
  by (simp add: table_ok_def free_slots_def)

lemma table_ok_in_int: "table_ok a s \<Longrightarrow> slot_valid a i \<Longrightarrow> in_int i"
  by (simp add: table_ok_def slot_valid_def in_int_def INT_MAX_def INT_MIN_def)

text \<open>The free stack and the used slots add up to the capacity.\<close>

lemma table_ok_free_count:
  assumes "table_ok a s"
  shows "int (length (stack_ints s)) = capacity a - dron_count a"
proof -
  have inj: "inj_on nat (free_slots a)"
    by (auto simp: inj_on_def free_slots_def slot_valid_def)
  have "nat ` free_slots a = {i. i < length (drones a) \<and> \<not> used (drones a ! i)}"
  proof (intro equalityI subsetI)
    fix i assume "i \<in> {i. i < length (drones a) \<and> \<not> used (drones a ! i)}"
    then have "int i \<in> free_slots a"
      by (simp add: free_slots_def slot_valid_def slot_def)
    then show "i \<in> nat ` free_slots a"
      by (metis image_eqI nat_int)
  qed (auto simp: free_slots_def slot_valid_def slot_def nat_less_iff)
  then have "int (card (free_slots a)) = count_by (\<lambda>d. \<not> used d) (drones a)"
    using card_image [OF inj] by (simp add: count_by_card)
  moreover have "length (stack_ints s) = card (free_slots a)"
    using assms distinct_card by (metis table_ok_def)
  ultimately show ?thesis
    using assms count_by_compl [of used "drones a"] by (simp add: table_ok_def)
qed

section \<open>The operations under the invariant\<close>

text \<open>The table after a registration, a change of location and a removal.\<close>

definition table_added :: "SHM_AllDronesData \<Rightarrow> int \<Rightarrow> DronData \<Rightarrow> SHM_AllDronesData" where
  "table_added a i d =
     set_slot (a\<lparr>dron_count := dron_count a + 1,
                 dron_in_base_count := dron_in_base_count a + (if in_base d then 1 else 0)\<rparr>) i d"

lemma add_dron_full:
  assumes "table_ok a s" and "stack_ints s = []"
  shows "SHM_AllDronesData_add_dron a s d = Some (- 1, a, s)"
  using assms st.pop_empty [of s "- 1"]
  by (simp add: SHM_AllDronesData_add_dron_def table_ok_def STACK_ERROR_def in_int_def
      INT_MIN_def INT_MAX_def)

lemma add_dron_room:
  assumes ok: "table_ok a s" and free: "stack_ints s = i # is" and d: "used d"
  shows "\<exists>s'. SHM_AllDronesData_add_dron a s d = Some (i, table_added a i d, s') \<and>
    table_ok (table_added a i d) s' \<and> stack_ints s' = is"
proof -
  have valid: "slot_valid a i" and undef: "slot_location a i = LOCATION_UNDEFINE"
    using table_ok_slot [OF ok, of i] free by auto
  obtain s' where s': "Stack_pop_int s (- 1) = Some (0, s', i)" "int_stack_ok s'"
      "stack_ints s' = is" "unat (st_capacity s') = unat (st_capacity s)"
    using st.pop_item [of s i "is"] ok free by (auto simp: table_ok_def)
  let ?a = "a\<lparr>dron_count := dron_count a + 1,
      dron_in_base_count := dron_in_base_count a + (if in_base d then 1 else 0)\<rparr>"
  have "slot_valid ?a i" and slot_a: "slot ?a i = slot a i" and "free_slots ?a = free_slots a"
    using valid by (simp_all add: slot_valid_def slot_def cong: free_slots_cong)
  then have "table_ok (table_added a i d) s'"
    using ok free s' d undef
    by (auto simp: table_ok_def table_added_def free_slots_set_slot count_by_set_slot)
  moreover have "SHM_AllDronesData_add_dron a s d = Some (i, table_added a i d, s')"
    using s' \<open>slot_valid ?a i\<close> valid
    by (auto simp: SHM_AllDronesData_add_dron_def table_added_def STACK_ERROR_def slot_valid_def
        set_slot_def)
  ultimately show ?thesis using s' by blast
qed

definition table_moved ::
  "SHM_AllDronesData \<Rightarrow> int \<Rightarrow> DronData_Location \<Rightarrow> SHM_AllDronesData" where
  "table_moved a i l =
     set_slot (a\<lparr>dron_in_base_count := dron_in_base_count a
                   - (if slot_location a i = LOCATION_BASE then 1 else 0)
                   + (if slot_location a i = LOCATION_MISSION then 1 else 0),
                 dron_reserving_space_count := dron_reserving_space_count a
                   - (if slot_location a i = LOCATION_MISSION then 1 else 0)\<rparr>)
       i ((slot a i)\<lparr>dd_location := l\<rparr>)"

lemma update_dron_location_valid:
  "slot_valid a i \<Longrightarrow>
     SHM_AllDronesData_update_dron_location a i l = Some (0, table_moved a i l)"
  by (auto simp: SHM_AllDronesData_update_dron_location_def table_moved_def set_slot_def slot_def)

text \<open>The in-base count stays right exactly for the two moves the drones make: a drone on
  a mission docks, a drone in the base leaves.\<close>

lemma table_moved_ok:
  assumes ok: "table_ok a s" and valid: "slot_valid a i" and l: "l \<noteq> LOCATION_UNDEFINE"
    and move: "slot_location a i = LOCATION_MISSION \<and> l = LOCATION_BASE \<or>
      slot_location a i = LOCATION_BASE \<and> l \<noteq> LOCATION_BASE"
  shows "table_ok (table_moved a i l) s"
proof -
  have "slot_valid (a\<lparr>dron_in_base_count := x, dron_reserving_space_count := y\<rparr>) i"
    "slot (a\<lparr>dron_in_base_count := x, dron_reserving_space_count := y\<rparr>) i = slot a i" for x y
    using valid by (simp_all add: slot_valid_def slot_def)
  moreover have "free_slots (a\<lparr>dron_in_base_count := x, dron_reserving_space_count := y\<rparr>) =
      free_slots a" for x y
    by (rule free_slots_cong) simp
  moreover have "i \<notin> free_slots a"
    using move by (auto simp: free_slots_def)
  ultimately show ?thesis
    using ok l move
    by (auto simp: table_ok_def table_moved_def free_slots_set_slot count_by_set_slot)
qed

definition table_deleted ::
  "SHM_AllDronesData \<Rightarrow> int \<Rightarrow> int \<Rightarrow> DronData_DESTRUCTION_REASON \<Rightarrow> SHM_AllDronesData" where
  "table_deleted a i reserved r =
     set_slot ((count_loss r a)
       \<lparr>dron_count := dron_count a - 1,
        dron_in_base_count := dron_in_base_count a
          - (if slot_location a i = LOCATION_BASE then 1 else 0),
        dron_reserving_space_count := dron_reserving_space_count a
          - (if reserved \<noteq> 0 then 1 else 0)\<rparr>)
       i ((slot a i)\<lparr>dd_location := LOCATION_UNDEFINE\<rparr>)"

lemma delete_drone_ok:
  assumes ok: "table_ok a s" and valid: "slot_valid a i" and u: "used (slot a i)"
  shows "\<exists>s'. SHM_AllDronesData_delete_drone a s i reserved r =
      Some (i, table_deleted a i reserved r, s') \<and>
    table_ok (table_deleted a i reserved r) s' \<and> stack_ints s' = i # stack_ints s"
proof -
  let ?b = "\<lambda>x y z. (count_loss r a)\<lparr>dron_count := x, dron_in_base_count := y,
    dron_reserving_space_count := z\<rparr>"
  have i: "i \<notin> free_slots a" "slot_valid (?b x y z) i" "slot (?b x y z) i = slot a i"
    "free_slots (?b x y z) = free_slots a" for x y z
    using u valid by (simp_all add: free_slots_def slot_valid_def slot_def)
  have "0 < dron_count a"
    using ok valid u count_by_pos [of "nat i" "drones a" used]
    by (simp add: table_ok_def slot_valid_def slot_def nat_less_iff)
  then have "length (stack_ints s) < unat (st_capacity s)"
    using table_ok_free_count [OF ok] ok by (simp add: table_ok_def)
  then obtain s' where s': "Stack_push_int s i = Some (0, s')" "int_stack_ok s'"
      "stack_ints s' = i # stack_ints s" "unat (st_capacity s') = unat (st_capacity s)"
    using st.push_room [of s i] ok table_ok_in_int [OF ok valid] by (auto simp: table_ok_def)
  have "table_ok (table_deleted a i reserved r) s'"
    using ok s' i u
    by (auto simp: table_ok_def table_deleted_def free_slots_set_slot count_by_set_slot)
  moreover have "SHM_AllDronesData_delete_drone a s i reserved r =
      Some (i, table_deleted a i reserved r, s')"
    using valid s'
    by (cases r) (auto simp: SHM_AllDronesData_delete_drone_def table_deleted_def STACK_ERROR_def
        Let_def set_slot_def slot_def)
  ultimately show ?thesis using s' by blast
qed

section \<open>What the operations change\<close>

lemma table_added_fields [simp]:
  "next_dron_id (table_added a i d) = next_dron_id a"
  "dron_count (table_added a i d) = dron_count a + 1"
  "dron_in_base_count (table_added a i d) = dron_in_base_count a + (if in_base d then 1 else 0)"
  "maximum_dron_in_base_count (table_added a i d) = maximum_dron_in_base_count a"
  "capacity (table_added a i d) = capacity a"
  "dron_reserving_space_count (table_added a i d) = dron_reserving_space_count a"
  "drone_lost_suicide (table_added a i d) = drone_lost_suicide a"
  "drone_lost_decommissioned (table_added a i d) = drone_lost_decommissioned a"
  "drone_lost_out_of_power (table_added a i d) = drone_lost_out_of_power a"
  "drone_lost_other (table_added a i d) = drone_lost_other a"
  "slot_valid (table_added a i d) = slot_valid a"
  "slot_valid a i \<Longrightarrow> slot_valid a j \<Longrightarrow> slot (table_added a i d) j = (if i = j then d else slot a j)"
  by (simp_all add: table_added_def slot_set_slot)

lemma table_moved_fields [simp]:
  "next_dron_id (table_moved a i l) = next_dron_id a"
  "dron_count (table_moved a i l) = dron_count a"
  "dron_in_base_count (table_moved a i l) = dron_in_base_count a
     - (if slot_location a i = LOCATION_BASE then 1 else 0)
     + (if slot_location a i = LOCATION_MISSION then 1 else 0)"
  "maximum_dron_in_base_count (table_moved a i l) = maximum_dron_in_base_count a"
  "capacity (table_moved a i l) = capacity a"
  "dron_reserving_space_count (table_moved a i l) =
     dron_reserving_space_count a - (if slot_location a i = LOCATION_MISSION then 1 else 0)"
  "drone_lost_suicide (table_moved a i l) = drone_lost_suicide a"
  "drone_lost_decommissioned (table_moved a i l) = drone_lost_decommissioned a"
  "drone_lost_out_of_power (table_moved a i l) = drone_lost_out_of_power a"
  "drone_lost_other (table_moved a i l) = drone_lost_other a"
  "slot_valid (table_moved a i l) = slot_valid a"
  "slot_valid a i \<Longrightarrow> slot_valid a j \<Longrightarrow>
     slot (table_moved a i l) j = (if i = j then (slot a i)\<lparr>dd_location := l\<rparr> else slot a j)"
  by (simp_all add: table_moved_def slot_set_slot)

lemma table_deleted_fields [simp]:
  "next_dron_id (table_deleted a i v r) = next_dron_id a"
  "dron_count (table_deleted a i v r) = dron_count a - 1"
  "dron_in_base_count (table_deleted a i v r) = dron_in_base_count a
     - (if slot_location a i = LOCATION_BASE then 1 else 0)"
  "maximum_dron_in_base_count (table_deleted a i v r) = maximum_dron_in_base_count a"
  "capacity (table_deleted a i v r) = capacity a"
  "dron_reserving_space_count (table_deleted a i v r) =
     dron_reserving_space_count a - (if v \<noteq> 0 then 1 else 0)"
  "lost_total (table_deleted a i v r) = lost_total a + 1"
  "slot_valid (table_deleted a i v r) = slot_valid a"
  "slot_valid a i \<Longrightarrow> slot_valid a j \<Longrightarrow>
     slot (table_deleted a i v r) j =
       (if i = j then (slot a i)\<lparr>dd_location := LOCATION_UNDEFINE\<rparr> else slot a j)"
  by (simp_all add: table_deleted_def slot_set_slot lost_total_cong)

lemma table_deleted_losses:
  "drone_lost_suicide (table_deleted a i v r) =
     drone_lost_suicide a + (if r = DESTRUCTION_REASON_SUICIDE then 1 else 0)"
  "drone_lost_decommissioned (table_deleted a i v r) =
     drone_lost_decommissioned a + (if r = DESTRUCTION_REASON_DECOMMISSIONED then 1 else 0)"
  "drone_lost_out_of_power (table_deleted a i v r) =
     drone_lost_out_of_power a + (if r = DESTRUCTION_REASON_OUT_OF_POWER then 1 else 0)"
  "drone_lost_other (table_deleted a i v r) =
     drone_lost_other a + (if r = DESTRUCTION_REASON_OTHER then 1 else 0)"
  by (cases r; simp add: table_deleted_def)+

section \<open>Looking for a drone\<close>

lemma get_dron_pid_from_correct:
  assumes "capacity a = int (length (drones a))" and "0 \<le> i"
  shows "get_dron_pid_from a i =
    Some (case find (\<lambda>d. used d) (drop (nat i) (drones a)) of None \<Rightarrow> - 1 | Some d \<Rightarrow> dd_pid d)"
  using assms
proof (induction a i rule: get_dron_pid_from.induct)
  case (1 a i)
  show ?case
  proof (cases "i < capacity a")
    case True
    then have d: "drop (nat i) (drones a) = slot a i # drop (nat (i + 1)) (drones a)"
      and valid: "slot_valid a i"
      using "1.prems" by (simp_all add: slot_def slot_valid_def Cons_nth_drop_Suc nat_add_distrib)
    show ?thesis
      using 1 True valid by (subst get_dron_pid_from.simps) (simp add: d)
  next
    case False
    with "1.prems" show ?thesis
      by (subst get_dron_pid_from.simps) simp
  qed
qed

lemma get_dron_pid_correct:
  "table_ok a s \<Longrightarrow>
     SHM_AllDronesData_get_dron_pid a =
       Some (case find (\<lambda>d. used d) (drones a) of None \<Rightarrow> - 1 | Some d \<Rightarrow> dd_pid d)"
  using get_dron_pid_from_correct [of a 0]
  by (simp add: SHM_AllDronesData_get_dron_pid_def table_ok_def)

end
