(* ===== verification/Swarm.thy ===== *)
theory Swarm
  imports Drone_Data
begin

text \<open>
  The swarm as all its processes see it: the table of drones and the stack of free slots in
  shared memory, the configuration, and the tokens in the FIFO that serves as the gate.  Two
  ghost fields record what only the drones themselves know: which slots hold a reservation
  (\<open>have_reserved_space\<close> of the drone process) and which drones are inside the gate (the
  token is taken and not yet written back).

  An \<open>action\<close> is what one process does in one critical section, or one token operation of
  the gate.  The drone and operator theories show that the handlers of the program perform
  exactly these actions; here the invariant \<open>swarm_ok\<close> is shown to survive every action, so
  it holds under every interleaving of any number of processes.
\<close>

section \<open>State\<close>

record swarm =
  all_drones :: SHM_AllDronesData
  free_stack :: Stack
  config :: SHM_Configuration
  gate_tokens :: nat
  reservers :: "int list"
  passing :: "int list"

section \<open>Steps on the shared data\<close>

text \<open>The test that guards every admission to the base.\<close>

definition has_room :: "SHM_AllDronesData \<Rightarrow> bool" where
  "has_room a \<longleftrightarrow>
     dron_in_base_count a + dron_reserving_space_count a < maximum_dron_in_base_count a"

text \<open>The operations of \<open>Drone_Data\<close> on the fields of the swarm, with the ghost fields
  following.\<close>

definition swarm_add :: "DronData \<Rightarrow> swarm \<Rightarrow> (int \<times> swarm) option" where
  "swarm_add d s = do {
     (i, a, st) \<leftarrow> SHM_AllDronesData_add_dron (all_drones s) (free_stack s) d;
     Some (i, s\<lparr>all_drones := a, free_stack := st\<rparr>)
   }"

definition swarm_next_id :: "swarm \<Rightarrow> int \<times> swarm" where
  "swarm_next_id s =
     (next_dron_id (all_drones s),
      s\<lparr>all_drones := (all_drones s)\<lparr>next_dron_id := next_dron_id (all_drones s) + 1\<rparr>\<rparr>)"

definition swarm_delete ::
  "int \<Rightarrow> int \<Rightarrow> DronData_DESTRUCTION_REASON \<Rightarrow> swarm \<Rightarrow> (int \<times> swarm) option" where
  "swarm_delete i reserved r s = do {
     (x, a, st) \<leftarrow> SHM_AllDronesData_delete_drone (all_drones s) (free_stack s) i reserved r;
     Some (x, s\<lparr>all_drones := a, free_stack := st, reservers := removeAll i (reservers s)\<rparr>)
   }"

definition swarm_update :: "int \<Rightarrow> DronData_Location \<Rightarrow> swarm \<Rightarrow> (int \<times> swarm) option" where
  "swarm_update i l s = do {
     (x, a) \<leftarrow> SHM_AllDronesData_update_dron_location (all_drones s) i l;
     Some (x, s\<lparr>all_drones := a, reservers := removeAll i (reservers s)\<rparr>)
   }"

definition swarm_reserve :: "int \<Rightarrow> swarm \<Rightarrow> swarm" where
  "swarm_reserve i s =
     s\<lparr>all_drones :=
         (all_drones s)\<lparr>dron_reserving_space_count := dron_reserving_space_count (all_drones s) + 1\<rparr>,
       reservers := i # reservers s\<rparr>"

definition take_token :: "int option \<Rightarrow> swarm \<Rightarrow> swarm" where
  "take_token me s =
     s\<lparr>gate_tokens := gate_tokens s - 1,
       passing := (case me of None \<Rightarrow> passing s | Some i \<Rightarrow> i # passing s)\<rparr>"

definition put_token :: "int option \<Rightarrow> swarm \<Rightarrow> swarm" where
  "put_token me s =
     s\<lparr>gate_tokens := gate_tokens s + 1,
       passing := (case me of None \<Rightarrow> passing s | Some i \<Rightarrow> removeAll i (passing s))\<rparr>"

text \<open>What the operator computes for the two commander signals.\<close>

definition doubled_maximum :: "int \<Rightarrow> int \<Rightarrow> int" where
  "doubled_maximum starting_count maximum =
     (let new_max = maximum * 2
      in if new_max \<ge> starting_count * 2 then starting_count * 2 - 1 else new_max)"

definition halved_maximum :: "int \<Rightarrow> int" where
  "halved_maximum maximum = maximum sdiv 2"

definition set_maximum :: "int \<Rightarrow> swarm \<Rightarrow> swarm" where
  "set_maximum m s = s\<lparr>all_drones := (all_drones s)\<lparr>maximum_dron_in_base_count := m\<rparr>\<rparr>"

section \<open>Actions\<close>

datatype action =
    A_register DronData
  | A_reserve int
  | A_enter_gate int
  | A_leave_gate int
  | A_dock int
  | A_undock int
  | A_delete int DronData_DESTRUCTION_REASON
  | A_add_platforms
  | A_remove_platforms

fun actor :: "action \<Rightarrow> int option" where
  "actor (A_reserve i) = Some i"
| "actor (A_enter_gate i) = Some i"
| "actor (A_leave_gate i) = Some i"
| "actor (A_dock i) = Some i"
| "actor (A_undock i) = Some i"
| "actor (A_delete i r) = Some i"
| "actor _ = None"

text \<open>The gate is not protected by the semaphore of the table, everything else is.\<close>

fun needs_lock :: "action \<Rightarrow> bool" where
  "needs_lock (A_enter_gate i) = False"
| "needs_lock (A_leave_gate i) = False"
| "needs_lock _ = True"

definition the_swarm :: "swarm \<Rightarrow> (int \<times> swarm) option \<Rightarrow> swarm" where
  "the_swarm s x = (case x of None \<Rightarrow> s | Some (_, s') \<Rightarrow> s')"

text \<open>The effect of an action; an action that its process would not take in this state
  leaves the swarm as it is.\<close>

fun exec_act :: "action \<Rightarrow> swarm \<Rightarrow> swarm" where
  "exec_act (A_register d) s =
     (if used d \<and> (has_room (all_drones s) \<or> dd_location d = LOCATION_MISSION)
      then snd (swarm_next_id (the_swarm s (swarm_add d s))) else s)"
| "exec_act (A_reserve i) s =
     (if slot_valid (all_drones s) i \<and> slot_location (all_drones s) i = LOCATION_MISSION \<and>
         i \<notin> set (reservers s) \<and> has_room (all_drones s)
      then swarm_reserve i s else s)"
| "exec_act (A_enter_gate i) s =
     (if slot_valid (all_drones s) i \<and> used (slot (all_drones s) i) \<and> i \<notin> set (passing s) \<and>
         0 < gate_tokens s
      then take_token (Some i) s else s)"
| "exec_act (A_leave_gate i) s = (if i \<in> set (passing s) then put_token (Some i) s else s)"
| "exec_act (A_dock i) s =
     (if i \<in> set (reservers s) \<and> i \<notin> set (passing s)
      then the_swarm s (swarm_update i LOCATION_BASE s) else s)"
| "exec_act (A_undock i) s =
     (if slot_valid (all_drones s) i \<and> slot_location (all_drones s) i = LOCATION_BASE \<and>
         i \<notin> set (passing s)
      then the_swarm s (swarm_update i LOCATION_MISSION s) else s)"
| "exec_act (A_delete i r) s =
     (if slot_valid (all_drones s) i \<and> used (slot (all_drones s) i) \<and> i \<notin> set (passing s)
      then the_swarm s (swarm_delete i (if i \<in> set (reservers s) then 1 else 0) r s) else s)"
| "exec_act A_add_platforms s =
     set_maximum (doubled_maximum (starting_drones_count (config s))
       (maximum_dron_in_base_count (all_drones s))) s"
| "exec_act A_remove_platforms s =
     set_maximum (halved_maximum (maximum_dron_in_base_count (all_drones s))) s"

text \<open>What the environment of the process that owns slot \<open>me\<close> can do: any sequence of
  actions of other processes; the ones that need the semaphore only while it is free.\<close>

definition env_act :: "int option \<Rightarrow> bool \<Rightarrow> action \<Rightarrow> swarm \<Rightarrow> swarm" where
  "env_act me unlocked a s =
     (if actor a \<noteq> None \<and> actor a = me \<or> needs_lock a \<and> \<not> unlocked then s else exec_act a s)"

text \<open>States reachable by actions.\<close>

inductive swarm_reach :: "swarm \<Rightarrow> swarm \<Rightarrow> bool" where
  reach_refl: "swarm_reach s s"
| reach_step: "swarm_reach s t \<Longrightarrow> swarm_reach s (exec_act a t)"

section \<open>The invariant\<close>

definition GATE_CAPACITY :: nat where
  "GATE_CAPACITY = 2"

definition occupancy :: "swarm \<Rightarrow> int" where
  "occupancy s = dron_in_base_count (all_drones s) + dron_reserving_space_count (all_drones s)"

definition reservations_ok :: "swarm \<Rightarrow> bool" where
  "reservations_ok s \<longleftrightarrow>
     dron_reserving_space_count (all_drones s) = int (length (reservers s)) \<and>
     distinct (reservers s) \<and>
     (\<forall>i \<in> set (reservers s). slot_valid (all_drones s) i \<and>
        slot_location (all_drones s) i = LOCATION_MISSION)"

definition gate_ok :: "swarm \<Rightarrow> bool" where
  "gate_ok s \<longleftrightarrow>
     gate_tokens s + length (passing s) = GATE_CAPACITY \<and> distinct (passing s) \<and>
     (\<forall>i \<in> set (passing s). slot_valid (all_drones s) i \<and> used (slot (all_drones s) i))"

definition bounds_ok :: "swarm \<Rightarrow> bool" where
  "bounds_ok s \<longleftrightarrow>
     1 \<le> starting_drones_count (config s) \<and>
     maximum_dron_in_base_count (all_drones s) \<le> 2 * starting_drones_count (config s) - 1 \<and>
     occupancy s \<le> 2 * starting_drones_count (config s) - 1"

definition losses_ok :: "swarm \<Rightarrow> bool" where
  "losses_ok s \<longleftrightarrow>
     0 \<le> drone_lost_suicide (all_drones s) \<and> 0 \<le> drone_lost_decommissioned (all_drones s) \<and>
     0 \<le> drone_lost_out_of_power (all_drones s) \<and> 0 \<le> drone_lost_other (all_drones s) \<and>
     dron_count (all_drones s) + lost_total (all_drones s) < next_dron_id (all_drones s)"

definition swarm_ok :: "swarm \<Rightarrow> bool" where
  "swarm_ok s \<longleftrightarrow>
     table_ok (all_drones s) (free_stack s) \<and> reservations_ok s \<and> gate_ok s \<and> bounds_ok s \<and>
     losses_ok s"

lemmas swarm_ok_defs = swarm_ok_def reservations_ok_def gate_ok_def bounds_ok_def losses_ok_def
  occupancy_def

section \<open>The effect of the shared-memory operations\<close>

lemma swarm_add_cases:
  assumes "swarm_ok s" and "used d"
  obtains (full) "swarm_add d s = Some (- 1, s)" "stack_ints (free_stack s) = []"
  | (slot) i st where
      "swarm_add d s =
         Some (i, s\<lparr>all_drones := table_added (all_drones s) i d, free_stack := st\<rparr>)"
      "table_ok (table_added (all_drones s) i d) st" "slot_valid (all_drones s) i"
      "slot_location (all_drones s) i = LOCATION_UNDEFINE"
proof (cases "stack_ints (free_stack s)")
  case Nil
  with assms add_dron_full show ?thesis
    by (intro full) (auto simp: swarm_add_def swarm_ok_def)
next
  case (Cons i "is")
  have ok: "table_ok (all_drones s) (free_stack s)"
    using assms by (simp add: swarm_ok_def)
  obtain st where "SHM_AllDronesData_add_dron (all_drones s) (free_stack s) d =
      Some (i, table_added (all_drones s) i d, st)" "table_ok (table_added (all_drones s) i d) st"
    using add_dron_room [OF ok Cons assms(2)] by blast
  moreover have "slot_valid (all_drones s) i" "slot_location (all_drones s) i = LOCATION_UNDEFINE"
    using table_ok_slot [OF ok, of i] Cons by auto
  ultimately show ?thesis
    by (intro slot) (auto simp: swarm_add_def)
qed

lemma swarm_delete_eq:
  assumes "swarm_ok s" and "slot_valid (all_drones s) i" and "used (slot (all_drones s) i)"
  obtains st where
    "swarm_delete i v r s =
       Some (i, s\<lparr>all_drones := table_deleted (all_drones s) i v r, free_stack := st,
                  reservers := removeAll i (reservers s)\<rparr>)"
    "table_ok (table_deleted (all_drones s) i v r) st"
  using delete_drone_ok [of "all_drones s" "free_stack s" i v r] assms
  by (fastforce simp: swarm_delete_def swarm_ok_def)

lemma swarm_update_eq:
  "slot_valid (all_drones s) i \<Longrightarrow>
     swarm_update i l s =
       Some (0, s\<lparr>all_drones := table_moved (all_drones s) i l,
                  reservers := removeAll i (reservers s)\<rparr>)"
  by (simp add: swarm_update_def update_dron_location_valid)

declare distinct_removeAll [simp]

lemma length_removeAll_distinct:
  "distinct xs \<Longrightarrow> int (length (removeAll x xs)) = int (length xs) - (if x \<in> set xs then 1 else 0)"
  by (induction xs) auto

lemma swarm_next_id_ok: "swarm_ok s \<Longrightarrow> swarm_ok (snd (swarm_next_id s))"
  by (simp add: swarm_ok_defs swarm_next_id_def table_ok_def lost_total_cong cong: free_slots_cong)

lemma in_base_not_reserver:
  "swarm_ok s \<Longrightarrow> i \<in> set (reservers s) \<Longrightarrow>
     slot_valid (all_drones s) i \<and> slot_location (all_drones s) i = LOCATION_MISSION"
  by (auto simp: swarm_ok_defs)

section \<open>Every action keeps the invariant\<close>

lemma register_ok:
  assumes ok: "swarm_ok s" and d: "used d" "has_room (all_drones s) \<or> dd_location d = LOCATION_MISSION"
  shows "swarm_ok (snd (swarm_next_id (the_swarm s (swarm_add d s))))"
  using ok d(1)
proof (cases rule: swarm_add_cases)
  case full
  then show ?thesis using swarm_next_id_ok [OF ok] by (simp add: the_swarm_def)
next
  case (slot i st)
  let ?a = "table_added (all_drones s) i d"
  have "table_ok (?a\<lparr>next_dron_id := n\<rparr>) st" for n
    using slot(2) by (simp add: table_ok_def cong: free_slots_cong)
  with ok slot d show ?thesis
    by (auto simp: swarm_ok_defs the_swarm_def swarm_next_id_def lost_total_def has_room_def)
qed

lemma reserve_ok:
  assumes ok: "swarm_ok s" and "slot_valid (all_drones s) i"
    "slot_location (all_drones s) i = LOCATION_MISSION" "i \<notin> set (reservers s)"
    "has_room (all_drones s)"
  shows "swarm_ok (swarm_reserve i s)"
proof -
  have "table_ok ((all_drones s)\<lparr>dron_reserving_space_count := n\<rparr>) (free_stack s)" for n
    using ok by (simp add: swarm_ok_def table_ok_def cong: free_slots_cong)
  with assms show ?thesis
    by (auto simp: swarm_ok_defs swarm_reserve_def has_room_def lost_total_cong)
qed

lemma take_token_ok:
  assumes "swarm_ok s" "slot_valid (all_drones s) i" "used (slot (all_drones s) i)"
    "i \<notin> set (passing s)" "0 < gate_tokens s"
  shows "swarm_ok (take_token (Some i) s)"
  using assms by (auto simp: swarm_ok_defs take_token_def)

lemma put_token_ok:
  assumes "swarm_ok s" "i \<in> set (passing s)"
  shows "swarm_ok (put_token (Some i) s)"
  using assms length_removeAll_distinct [of "passing s" i]
  by (auto simp: swarm_ok_defs put_token_def)

lemma dock_ok:
  assumes ok: "swarm_ok s" and i: "i \<in> set (reservers s)"
  shows "swarm_ok (the_swarm s (swarm_update i LOCATION_BASE s))"
proof -
  have i': "slot_valid (all_drones s) i" "slot_location (all_drones s) i = LOCATION_MISSION"
    using in_base_not_reserver [OF ok i] by auto
  then have "table_ok (table_moved (all_drones s) i LOCATION_BASE) (free_stack s)"
    using ok by (intro table_moved_ok) (auto simp: swarm_ok_def)
  then show ?thesis
    using ok i i' length_removeAll_distinct [of "reservers s" i]
    by (auto simp: swarm_ok_defs the_swarm_def swarm_update_eq lost_total_def)
qed

lemma undock_ok:
  assumes ok: "swarm_ok s"
    and i: "slot_valid (all_drones s) i" "slot_location (all_drones s) i = LOCATION_BASE"
  shows "swarm_ok (the_swarm s (swarm_update i LOCATION_MISSION s))"
proof -
  have "table_ok (table_moved (all_drones s) i LOCATION_MISSION) (free_stack s)"
    using ok i by (intro table_moved_ok) (auto simp: swarm_ok_def)
  moreover have "i \<notin> set (reservers s)"
    using in_base_not_reserver [OF ok, of i] i by auto
  ultimately show ?thesis
    using ok i by (auto simp: swarm_ok_defs the_swarm_def swarm_update_eq lost_total_def)
qed

lemma delete_ok:
  assumes ok: "swarm_ok s" and i: "slot_valid (all_drones s) i" "used (slot (all_drones s) i)"
    "i \<notin> set (passing s)" and v: "v \<noteq> 0 \<longleftrightarrow> i \<in> set (reservers s)"
  shows "swarm_ok (the_swarm s (swarm_delete i v r s))"
proof -
  obtain st where del: "swarm_delete i v r s =
       Some (i, s\<lparr>all_drones := table_deleted (all_drones s) i v r, free_stack := st,
                  reservers := removeAll i (reservers s)\<rparr>)"
    "table_ok (table_deleted (all_drones s) i v r) st"
    using swarm_delete_eq [OF ok i(1,2)] by blast
  then show ?thesis
    using ok i v length_removeAll_distinct [of "reservers s" i]
    by (auto simp: swarm_ok_defs the_swarm_def table_deleted_losses)
qed

lemma set_maximum_ok:
  "swarm_ok s \<Longrightarrow> m \<le> 2 * starting_drones_count (config s) - 1 \<Longrightarrow> swarm_ok (set_maximum m s)"
  by (simp add: swarm_ok_defs set_maximum_def table_ok_def lost_total_cong cong: free_slots_cong)

lemma doubled_maximum_le: "doubled_maximum n m \<le> 2 * n - 1"
  by (simp add: doubled_maximum_def Let_def)

lemma halved_maximum_le:
  assumes "1 \<le> n" and "m \<le> 2 * n - 1"
  shows "halved_maximum m \<le> 2 * n - 1"
  using assms by (auto simp: halved_maximum_def signed_divide_int_def sgn_if)

lemma halved_maximum_le_0: "m \<le> 0 \<Longrightarrow> halved_maximum m \<le> 0"
  by (auto simp: halved_maximum_def signed_divide_int_def sgn_if)

lemma swarm_ok_bounds:
  assumes "swarm_ok s"
  shows "1 \<le> starting_drones_count (config s)"
    and "maximum_dron_in_base_count (all_drones s) \<le> 2 * starting_drones_count (config s) - 1"
    and "occupancy s \<le> 2 * starting_drones_count (config s) - 1"
  using assms by (simp_all add: swarm_ok_def bounds_ok_def)

lemma exec_act_ok: "swarm_ok s \<Longrightarrow> swarm_ok (exec_act a s)"
proof (cases a)
  case A_add_platforms
  then show "swarm_ok s \<Longrightarrow> swarm_ok (exec_act a s)"
    by (auto intro!: set_maximum_ok doubled_maximum_le)
next
  case A_remove_platforms
  then show "swarm_ok s \<Longrightarrow> swarm_ok (exec_act a s)"
    by (auto intro!: set_maximum_ok halved_maximum_le dest: swarm_ok_bounds)
qed (auto simp: register_ok reserve_ok take_token_ok put_token_ok dock_ok undock_ok delete_ok)

interpretation swarm_sys: invariant_system exec_act swarm_ok
  by unfold_locales (rule exec_act_ok)

section \<open>Case analysis on the actions that change slots\<close>

lemma register_cases:
  assumes ok: "swarm_ok s"
  obtains (skip) "exec_act (A_register d) s = s"
  | (full) "exec_act (A_register d) s = snd (swarm_next_id s)"
  | (slot) i st where "used d" "has_room (all_drones s) \<or> dd_location d = LOCATION_MISSION"
      "exec_act (A_register d) s =
         s\<lparr>all_drones := (table_added (all_drones s) i d)
              \<lparr>next_dron_id := next_dron_id (all_drones s) + 1\<rparr>, free_stack := st\<rparr>"
      "slot_valid (all_drones s) i" "slot_location (all_drones s) i = LOCATION_UNDEFINE"
proof (cases "used d \<and> (has_room (all_drones s) \<or> dd_location d = LOCATION_MISSION)")
  case True
  then have "used d" by simp
  with ok show ?thesis
  proof (cases rule: swarm_add_cases)
    case full
    with True show ?thesis by (intro that(2)) (simp add: the_swarm_def)
  next
    case (slot i st)
    with True show ?thesis
      by (intro that(3) [of st i]) (auto simp: the_swarm_def swarm_next_id_def)
  qed
next
  case False
  then show ?thesis by (intro skip) auto
qed

lemma delete_cases:
  assumes ok: "swarm_ok s"
  obtains (skip) "exec_act (A_delete i r) s = s"
  | (gone) v st where "slot_valid (all_drones s) i" "used (slot (all_drones s) i)"
      "i \<notin> set (passing s)" "exec_act (A_delete i r) s =
         s\<lparr>all_drones := table_deleted (all_drones s) i v r, free_stack := st,
           reservers := removeAll i (reservers s)\<rparr>"
proof (cases "slot_valid (all_drones s) i \<and> used (slot (all_drones s) i) \<and> i \<notin> set (passing s)")
  case True
  let ?v = "if i \<in> set (reservers s) then 1 else 0 :: int"
  obtain st where "swarm_delete i ?v r s =
       Some (i, s\<lparr>all_drones := table_deleted (all_drones s) i ?v r, free_stack := st,
                  reservers := removeAll i (reservers s)\<rparr>)"
    using swarm_delete_eq [OF ok] True by blast
  with True show ?thesis by (intro gone [of st ?v]) (auto simp: the_swarm_def)
next
  case False
  then show ?thesis by (intro skip) auto
qed

lemma dock_cases:
  assumes ok: "swarm_ok s"
  obtains (skip) "exec_act (A_dock i) s = s"
  | (docked) "slot_valid (all_drones s) i" "slot_location (all_drones s) i = LOCATION_MISSION"
      "i \<in> set (reservers s)" "exec_act (A_dock i) s =
         s\<lparr>all_drones := table_moved (all_drones s) i LOCATION_BASE,
           reservers := removeAll i (reservers s)\<rparr>"
proof (cases "i \<in> set (reservers s) \<and> i \<notin> set (passing s)")
  case True
  with in_base_not_reserver [OF ok, of i] show ?thesis
    by (intro docked) (auto simp: the_swarm_def swarm_update_eq)
next
  case False
  then show ?thesis by (intro skip) auto
qed

lemmas plain_acts = the_swarm_def swarm_next_id_def swarm_update_eq swarm_reserve_def
  take_token_def put_token_def set_maximum_def

section \<open>Admission\<close>

text \<open>An action adds to the occupancy of the base only while there is room.\<close>

lemma occupancy_step:
  assumes ok: "swarm_ok s"
  shows "occupancy (exec_act a s) \<le> max (occupancy s) (maximum_dron_in_base_count (all_drones s))"
proof (cases a)
  case (A_register d)
  show ?thesis unfolding A_register
    using ok by (cases rule: register_cases [where d = d])
      (auto simp: occupancy_def swarm_next_id_def has_room_def simp del: exec_act.simps)
next
  case (A_dock i)
  show ?thesis unfolding A_dock
    using ok by (cases rule: dock_cases [where i = i])
      (auto simp: occupancy_def simp del: exec_act.simps)
next
  case (A_delete i r)
  show ?thesis unfolding A_delete
    using ok by (cases rule: delete_cases [where i = i and r = r])
      (auto simp: occupancy_def simp del: exec_act.simps)
qed (auto simp: occupancy_def has_room_def plain_acts)

section \<open>What the environment leaves alone\<close>

text \<open>The view of the process that owns a slot: its entry in the table, whether it holds a
  reservation, whether it is in the gate, and the configuration.\<close>

definition own_view :: "int \<Rightarrow> swarm \<Rightarrow> DronData \<times> bool \<times> bool \<times> SHM_Configuration" where
  "own_view i s =
     (slot (all_drones s) i, i \<in> set (reservers s), i \<in> set (passing s), config s)"

definition owned :: "int \<Rightarrow> swarm \<Rightarrow> bool" where
  "owned i s \<longleftrightarrow> slot_valid (all_drones s) i \<and> used (slot (all_drones s) i)"

lemma exec_act_other:
  assumes ok: "swarm_ok s" and own: "owned i s" and other: "actor a \<noteq> Some i"
  shows "own_view i (exec_act a s) = own_view i s \<and> owned i (exec_act a s)"
proof (cases a)
  case (A_register d)
  show ?thesis unfolding A_register
    using ok by (cases rule: register_cases [where d = d])
      (use own in \<open>auto simp: own_view_def owned_def swarm_next_id_def simp del: exec_act.simps\<close>)
next
  case (A_dock j)
  with other have "j \<noteq> i" by auto
  show ?thesis unfolding A_dock
    using ok by (cases rule: dock_cases [where i = j])
      (use own \<open>j \<noteq> i\<close> in \<open>auto simp: own_view_def owned_def simp del: exec_act.simps\<close>)
next
  case (A_delete j r)
  with other have "j \<noteq> i" by auto
  show ?thesis unfolding A_delete
    using ok by (cases rule: delete_cases [where i = j and r = r])
      (use own \<open>j \<noteq> i\<close> in \<open>auto simp: own_view_def owned_def simp del: exec_act.simps\<close>)
qed (use own other in \<open>auto simp: own_view_def owned_def plain_acts\<close>)

lemma exec_act_config [simp]: "config (exec_act a s) = config s"
  by (cases a)
    (auto simp: the_swarm_def swarm_next_id_def swarm_add_def swarm_delete_def swarm_update_def
      swarm_reserve_def take_token_def put_token_def set_maximum_def bind_eq_Some_conv
      split: option.splits)

text \<open>The number of slots is fixed, a registration gives out one number, and only the operator changes
  the number of platforms.\<close>

lemma exec_act_frame:
  assumes ok: "swarm_ok s"
  shows "capacity (all_drones (exec_act a s)) = capacity (all_drones s) \<and>
    next_dron_id (all_drones (exec_act a s)) \<in> {next_dron_id (all_drones s), next_dron_id (all_drones s) + 1} \<and>
    maximum_dron_in_base_count (all_drones (exec_act a s)) =
      (if a = A_add_platforms
       then doubled_maximum (starting_drones_count (config s)) (maximum_dron_in_base_count (all_drones s))
       else if a = A_remove_platforms then halved_maximum (maximum_dron_in_base_count (all_drones s))
       else maximum_dron_in_base_count (all_drones s))"
proof (cases a)
  case (A_register d)
  show ?thesis unfolding A_register
    using ok by (cases rule: register_cases [where d = d]) (auto simp: swarm_next_id_def simp del: exec_act.simps)
next
  case (A_dock i)
  show ?thesis unfolding A_dock
    using ok by (cases rule: dock_cases [where i = i]) (auto simp del: exec_act.simps)
next
  case (A_delete i r)
  show ?thesis unfolding A_delete
    using ok by (cases rule: delete_cases [where i = i and r = r]) (auto simp del: exec_act.simps)
qed (auto simp: plain_acts)

lemma run_kept:
  assumes "swarm_ok s"
  shows "config (fold exec_act as s) = config s \<and>
    capacity (all_drones (fold exec_act as s)) = capacity (all_drones s)"
  by (rule swarm_sys.run_rel [where R = "\<lambda>s t. config t = config s \<and>
      capacity (all_drones t) = capacity (all_drones s)"])
    (use assms exec_act_frame in auto)

text \<open>The numbers that are given out, and the number of platforms, in a run.\<close>

lemma run_counters:
  assumes "swarm_ok s" and "0 \<le> maximum_dron_in_base_count (all_drones s)"
  shows "next_dron_id (all_drones (fold exec_act as s)) \<le> next_dron_id (all_drones s) + int (length as) \<and>
    0 \<le> maximum_dron_in_base_count (all_drones (fold exec_act as s))"
proof (induction as rule: rev_induct)
  case (snoc a as)
  let ?t = "fold exec_act as s"
  have ok: "swarm_ok ?t" by (rule swarm_sys.run_inv [OF assms(1)])
  then have "1 \<le> starting_drones_count (config ?t)" by (simp add: swarm_ok_defs)
  with snoc exec_act_frame [OF ok, of a] show ?case
    by (auto simp: doubled_maximum_def halved_maximum_def Let_def signed_divide_int_def sgn_if)
qed (use assms in simp)

text \<open>Without platforms nobody comes into the base, and doubling adds none.\<close>

lemma no_platforms_step:
  assumes ok: "swarm_ok s" and "maximum_dron_in_base_count (all_drones s) \<le> 0" and "occupancy s = 0"
  shows "maximum_dron_in_base_count (all_drones (exec_act a s)) \<le> 0 \<and> occupancy (exec_act a s) = 0"
proof -
  have "0 \<le> dron_in_base_count (all_drones s)" "0 \<le> dron_reserving_space_count (all_drones s)"
    if "swarm_ok s" for s
    using that by (simp_all add: swarm_ok_defs table_ok_def)
  then have "0 \<le> occupancy (exec_act a s)"
    using exec_act_ok [OF ok] by (simp add: occupancy_def)
  moreover have "occupancy (exec_act a s) \<le> 0"
    using occupancy_step [OF ok, of a] assms by simp
  moreover have "1 \<le> starting_drones_count (config s)"
    using ok by (simp add: swarm_ok_defs)
  then have "maximum_dron_in_base_count (all_drones (exec_act a s)) \<le> 0"
    using exec_act_frame [OF ok, of a] assms(2) halved_maximum_le_0
    by (auto simp: doubled_maximum_def Let_def)
  ultimately show ?thesis by simp
qed

lemma env_act_ok: "swarm_ok s \<Longrightarrow> swarm_ok (env_act me unlocked a s)"
  by (simp add: env_act_def exec_act_ok)

interpretation env_sys: invariant_system "env_act me unlocked" swarm_ok for me unlocked
  by unfold_locales (rule env_act_ok)

lemma reach_trans: "swarm_reach t u \<Longrightarrow> swarm_reach s t \<Longrightarrow> swarm_reach s u"
  by (induction rule: swarm_reach.induct) (auto intro: swarm_reach.intros)

lemma reach_act: "swarm_reach s (exec_act a s)"
  by (rule reach_step [OF reach_refl])

lemma reach_ok: "swarm_reach s t \<Longrightarrow> swarm_ok s \<Longrightarrow> swarm_ok t"
  by (induction rule: swarm_reach.induct) (auto intro: exec_act_ok)

lemma reach_iff_run: "swarm_reach s t \<longleftrightarrow> (\<exists>as. t = fold exec_act as s)"
proof
  assume "swarm_reach s t"
  then show "\<exists>as. t = fold exec_act as s"
  proof (induction rule: swarm_reach.induct)
    case (reach_refl s)
    show ?case by (rule exI [of _ "[]"]) simp
  next
    case (reach_step s t a)
    then obtain as where "t = fold exec_act as s" by blast
    then show ?case by (intro exI [of _ "as @ [a]"]) simp
  qed
next
  assume "\<exists>as. t = fold exec_act as s"
  then obtain as where "t = fold exec_act as s" by blast
  then show "swarm_reach s t"
    by (induction as arbitrary: t rule: rev_induct) (auto intro: swarm_reach.intros)
qed

lemma env_run_view:
  assumes "swarm_ok s" and "owned i s"
  shows "own_view i (fold (env_act (Some i) unlocked) as s) = own_view i s \<and>
    owned i (fold (env_act (Some i) unlocked) as s)"
  using assms
proof (induction as arbitrary: s)
  case (Cons a as)
  have "own_view i (env_act (Some i) unlocked a s) = own_view i s \<and>
      owned i (env_act (Some i) unlocked a s)"
    using Cons.prems exec_act_other [of s i a] by (auto simp: env_act_def)
  with Cons show ?case by (simp add: env_act_ok)
qed simp

lemma env_run_reach: "swarm_reach s (fold (env_act me unlocked) as s)"
proof (induction as rule: rev_induct)
  case (snoc a as)
  then show ?case by (auto simp: env_act_def intro: swarm_reach.intros)
qed (simp add: reach_refl)

end
