(* ===== verification/Process.thy ===== *)
theory Process
  imports Swarm
begin

text \<open>
  A process of the swarm and its environment.  The record \<open>os\<close> holds what a process shares
  with the rest of the system and what can change under its feet: the shared swarm, the
  System V semaphores with the \<open>SEM_UNDO\<close> adjustments of the process, the flags its signal
  handlers set, and the battery that the second thread of a drone updates.

  Everything outside the process is the list \<open>inputs\<close>.  Each time the process makes a
  system call (or takes a mutex), the next event of the list says what the others did in
  the meantime, in which order, and how the call ends.  Theorems hold for every such list,
  hence for every schedule.  A blocking call whose condition does not hold stays blocked and
  takes the next event; with no event left it has not returned (\<open>None\<close>).
\<close>

section \<open>State and environment\<close>

datatype env_step =
    Others action
  | Battery_start
  | Battery_tick
  | Signal_usr1
  | Signal_usr2
  | Signal_shutdown

datatype event = Event "env_step list" sysret

text \<open>The tables of the kernel: the identifiers of semaphores and segments by key, the sizes
  of the segments, the segments this process has attached, the FIFO files,
  and the key that \<open>ftok\<close> derives from a file.\<close>

record kernel =
  sem_keys :: "int \<Rightarrow> int option"
  shm_keys :: "int \<Rightarrow> int option"
  shm_segs :: "int \<Rightarrow> nat option"
  attached :: "int list"
  fifos :: "string list"
  ftok_key :: "string \<Rightarrow> int"

record os =
  me :: "int option"
  sw :: swarm
  kern :: kernel
  sems :: "int \<Rightarrow> int option"
  drones_sem :: int
  semadj :: "int \<Rightarrow> int"
  got_sigusr1 :: bool
  got_sigusr2 :: bool
  got_shutdown_requested :: bool
  is_charging :: bool
  battery_percentage :: int
  battery_created :: bool
  battery_working :: bool
  inputs :: "event list"

text \<open>One round of the loop of the battery thread.\<close>

definition battery_round :: "bool \<Rightarrow> int \<Rightarrow> int" where
  "battery_round charging percentage =
     (if charging then (if percentage < 100 then percentage + 1 else percentage)
      else (if percentage > 0 then percentage - 1 else percentage))"

definition sem_free :: "os \<Rightarrow> bool" where
  "sem_free w = (case sems w (drones_sem w) of None \<Rightarrow> False | Some v \<Rightarrow> 0 < v)"

fun apply_step :: "env_step \<Rightarrow> os \<Rightarrow> os" where
  "apply_step (Others a) w = w\<lparr>sw := env_act (me w) (sem_free w) a (sw w)\<rparr>"
| "apply_step Battery_start w = (if battery_created w then w\<lparr>battery_working := True\<rparr> else w)"
| "apply_step Battery_tick w =
     (if battery_working w
      then w\<lparr>battery_percentage := battery_round (is_charging w) (battery_percentage w)\<rparr> else w)"
| "apply_step Signal_usr1 w = w\<lparr>got_sigusr1 := True\<rparr>"
| "apply_step Signal_usr2 w = w\<lparr>got_sigusr2 := True\<rparr>"
| "apply_step Signal_shutdown w = w\<lparr>got_shutdown_requested := True\<rparr>"

definition sync :: "os \<Rightarrow> (sysret \<times> os) option" where
  "sync w =
     (case inputs w of
        [] \<Rightarrow> None
      | Event es r # evs \<Rightarrow> Some (r, fold apply_step es (w\<lparr>inputs := evs\<rparr>)))"

section \<open>What a synchronisation can change\<close>

text \<open>\<open>calm w w'\<close>: between \<open>w\<close> and \<open>w'\<close> only the environment has acted.\<close>

definition view_kept :: "os \<Rightarrow> os \<Rightarrow> bool" where
  "view_kept w w' \<longleftrightarrow>
     (\<forall>i. me w = Some i \<longrightarrow> owned i (sw w) \<longrightarrow>
        own_view i (sw w') = own_view i (sw w) \<and> owned i (sw w'))"

definition battery_ok :: "os \<Rightarrow> bool" where
  "battery_ok w \<longleftrightarrow> 0 \<le> battery_percentage w \<and> battery_percentage w \<le> 100"

definition calm :: "os \<Rightarrow> os \<Rightarrow> bool" where
  "calm w w' \<longleftrightarrow>
     me w' = me w \<and> kern w' = kern w \<and> sems w' = sems w \<and> drones_sem w' = drones_sem w \<and> semadj w' = semadj w \<and>
     is_charging w' = is_charging w \<and> battery_created w' = battery_created w \<and>
     (got_sigusr1 w \<longrightarrow> got_sigusr1 w') \<and> (got_sigusr2 w \<longrightarrow> got_sigusr2 w') \<and>
     (got_shutdown_requested w \<longrightarrow> got_shutdown_requested w') \<and>
     (battery_ok w \<longrightarrow> battery_ok w') \<and>
     swarm_reach (sw w) (sw w') \<and> config (sw w') = config (sw w) \<and>
     (swarm_ok (sw w) \<longrightarrow> swarm_ok (sw w') \<and> view_kept w w')"

lemma calm_refl [simp]: "calm w w"
  by (simp add: calm_def view_kept_def reach_refl)

lemma calm_trans:
  assumes "calm u v" and "calm v w"
  shows "calm u w"
proof -
  have "swarm_reach (sw u) (sw w)"
    by (rule reach_trans [of "sw v"]) (use assms in \<open>simp_all add: calm_def\<close>)
  moreover have "swarm_ok (sw u) \<longrightarrow> swarm_ok (sw w) \<and> view_kept u w"
    using assms by (simp add: calm_def view_kept_def)
  ultimately show ?thesis
    using assms by (simp add: calm_def)
qed

lemma battery_round_bounds:
  "0 \<le> p \<Longrightarrow> p \<le> 100 \<Longrightarrow> 0 \<le> battery_round c p \<and> battery_round c p \<le> 100"
  by (auto simp: battery_round_def)

lemma env_act_config [simp]: "config (env_act i u a s) = config s"
  by (simp add: env_act_def)

lemma apply_step_calm: "calm w (apply_step e w)"
proof (cases e)
  case (Others a)
  have "swarm_reach (sw w) (env_act (me w) (sem_free w) a (sw w))"
    using env_run_reach [of "sw w" "me w" "sem_free w" "[a]"] by simp
  moreover have "own_view i (env_act (me w) (sem_free w) a (sw w)) = own_view i (sw w) \<and>
      owned i (env_act (me w) (sem_free w) a (sw w))"
    if "swarm_ok (sw w)" "me w = Some i" "owned i (sw w)" for i
    using env_run_view [of "sw w" i "sem_free w" "[a]"] that by simp
  ultimately show ?thesis
    by (simp add: Others calm_def view_kept_def battery_ok_def env_act_ok)
qed (auto simp: calm_def view_kept_def battery_ok_def reach_refl battery_round_bounds)

lemma apply_steps_calm: "calm w (fold apply_step es w)"
  by (induction es arbitrary: w) (auto intro: calm_trans apply_step_calm)

lemma calm_inputs: "calm w (w\<lparr>inputs := evs\<rparr>)" "calm (w\<lparr>inputs := evs\<rparr>) w' \<Longrightarrow> calm w w'"
  by (simp_all add: calm_def view_kept_def battery_ok_def reach_refl)

lemma apply_steps_inputs [simp]: "inputs (fold apply_step es w) = inputs w"
proof (induction es arbitrary: w)
  case (Cons e es)
  then show ?case by (cases e) auto
qed simp

lemma sync_calm: "sync w = Some (r, w') \<Longrightarrow> calm w w'"
  by (auto simp: sync_def split: list.splits event.splits intro: calm_inputs(2) apply_steps_calm)

lemma sync_inputs: "sync w = Some (r, w') \<Longrightarrow> length (inputs w') < length (inputs w)"
  by (auto simp: sync_def split: list.splits event.splits)

section \<open>Budgets\<close>

text \<open>A function may fail to return because its calls block or are interrupted again and
  again.  A budget \<open>Some k\<close> says that at least \<open>k\<close> events are left, none of which is an
  interruption or takes a token of the gate; then the function has to return.  The budget
  \<open>None\<close> says nothing about the events, and a function that returns is all one can talk
  about.  The rules for both are proved together, as \<open>outc (f = None)\<close>.\<close>

type_synonym budget = "nat option"

definition has :: "nat \<Rightarrow> budget \<Rightarrow> bool" where
  "has n f \<longleftrightarrow> (case f of None \<Rightarrow> True | Some k \<Rightarrow> n \<le> k)"

definition spend :: "nat \<Rightarrow> budget \<Rightarrow> budget" where
  "spend n f = map_option (\<lambda>k. k - n) f"

lemma has_simps [simp]: "has n None" "has n (Some k) \<longleftrightarrow> n \<le> k" "has 0 f"
  by (simp_all add: has_def split: option.splits)

lemma spend_simps [simp]:
  "spend n None = None" "spend n (Some k) = Some (k - n)" "spend 0 f = f"
  "spend m (spend n f) = spend (n + m) f" "(spend n f = None) = (f = None)"
  by (cases f; simp add: spend_def)+

lemma has_spend [simp]: "0 < m \<Longrightarrow> has m (spend n f) \<longleftrightarrow> has (n + m) f"
  by (cases f) (auto simp: spend_def)

lemma has_mono: "has n f \<Longrightarrow> m \<le> n \<Longrightarrow> has m f"
  by (cases f) auto

fun takes_token :: "env_step \<Rightarrow> bool" where
  "takes_token (Others (A_enter_gate i)) = True"
| "takes_token _ = False"

fun prompt :: "event \<Rightarrow> bool" where
  "prompt (Event es r) \<longleftrightarrow> r \<noteq> SysErr EINTR \<and> \<not> list_ex takes_token es"

definition funded :: "budget \<Rightarrow> os \<Rightarrow> bool" where
  "funded f w \<longleftrightarrow>
     (case f of None \<Rightarrow> True | Some k \<Rightarrow> k \<le> length (inputs w) \<and> list_all prompt (inputs w))"

lemma funded_None [simp]: "funded None w"
  by (simp add: funded_def)

lemma funded_updates [simp]:
  "funded f (w\<lparr>me := i\<rparr>) = funded f w" "funded f (w\<lparr>sw := s\<rparr>) = funded f w"
  "funded f (w\<lparr>kern := k\<rparr>) = funded f w" "funded f (w\<lparr>sems := m\<rparr>) = funded f w"
  "funded f (w\<lparr>semadj := a\<rparr>) = funded f w" "funded f (w\<lparr>is_charging := c\<rparr>) = funded f w"
  "funded f (w\<lparr>got_sigusr1 := g\<rparr>) = funded f w" "funded f (w\<lparr>got_sigusr2 := g\<rparr>) = funded f w"
  "funded f (w\<lparr>battery_working := c\<rparr>) = funded f w" "funded f (w\<lparr>battery_created := c\<rparr>) = funded f w"
  by (auto simp: funded_def split: option.splits)

text \<open>\<open>calms f n w w'\<close>: the environment has acted during \<open>n\<close> calls.\<close>

definition calms :: "budget \<Rightarrow> nat \<Rightarrow> os \<Rightarrow> os \<Rightarrow> bool" where
  "calms f n w w' \<longleftrightarrow>
     calm w w' \<and> funded (spend n f) w' \<and>
     (f \<noteq> None \<longrightarrow> gate_tokens (sw w) \<le> gate_tokens (sw w'))"

lemma calms_calm: "calms f n w w' \<Longrightarrow> calm w w'"
  by (simp add: calms_def)

lemma funded_mono: "funded (spend m f) w \<Longrightarrow> m \<le> n \<Longrightarrow> funded (spend n f) w"
  by (cases f) (auto simp: funded_def)

lemma calms_mono: "calms f m w w' \<Longrightarrow> m \<le> n \<Longrightarrow> calms f n w w'"
  by (auto simp: calms_def intro: funded_mono)

lemma calms_None [simp]: "calms None n w w' \<longleftrightarrow> calm w w'"
  by (simp add: calms_def)

lemma calms_refl: "funded f w \<Longrightarrow> calms f 0 w w"
  by (simp add: calms_def)

lemma calms_trans: "calms f m u v \<Longrightarrow> calms (spend m f) n v w \<Longrightarrow> calms f (m + n) u w"
  by (auto simp: calms_def intro: calm_trans [of u v w])

lemma swarm_add_tokens: "swarm_add d s = Some (i, s') \<Longrightarrow> gate_tokens s' = gate_tokens s"
  by (auto simp: swarm_add_def split: bind_splits)

lemma swarm_update_tokens: "swarm_update i l s = Some (x, s') \<Longrightarrow> gate_tokens s' = gate_tokens s"
  by (auto simp: swarm_update_def split: bind_splits)

lemma swarm_delete_tokens: "swarm_delete i v r s = Some (x, s') \<Longrightarrow> gate_tokens s' = gate_tokens s"
  by (auto simp: swarm_delete_def split: bind_splits)

lemma exec_act_tokens:
  "(\<And>i. a \<noteq> A_enter_gate i) \<Longrightarrow> gate_tokens s \<le> gate_tokens (exec_act a s)"
  by (cases a) (auto simp: the_swarm_def swarm_next_id_def swarm_reserve_def put_token_def
      set_maximum_def split: option.splits
      dest: swarm_add_tokens swarm_update_tokens swarm_delete_tokens)

lemma apply_steps_tokens:
  "\<not> list_ex takes_token es \<Longrightarrow>
     gate_tokens (sw w) \<le> gate_tokens (sw (fold apply_step es w))"
proof (induction es arbitrary: w)
  case (Cons e es)
  have "gate_tokens (sw w) \<le> gate_tokens (sw (apply_step e w))"
  proof (cases e)
    case (Others a)
    with Cons.prems have "gate_tokens (sw w) \<le> gate_tokens (exec_act a (sw w))"
      by (intro exec_act_tokens) auto
    with Others show ?thesis by (simp add: env_act_def)
  qed auto
  also have "\<dots> \<le> gate_tokens (sw (fold apply_step es (apply_step e w)))"
    using Cons by simp
  finally show ?case by simp
qed simp

lemma sync_wp [wp_rules]:
  assumes "funded f w" and "has 1 f"
    and "\<And>r w'. calms f 1 w w' \<Longrightarrow> (f \<noteq> None \<Longrightarrow> r \<noteq> SysErr EINTR) \<Longrightarrow> Q r w'"
  shows "outc (f = None) (sync w) Q"
proof (cases "sync w")
  case None
  with assms show ?thesis
    by (auto simp: sync_def funded_def has_def split: list.splits event.splits option.splits)
next
  case (Some p)
  obtain r w' where p: "p = (r, w')" by (cases p)
  with Some assms(1) have "f \<noteq> None \<Longrightarrow> gate_tokens (sw w) \<le> gate_tokens (sw w') \<and> r \<noteq> SysErr EINTR"
    and "funded (spend 1 f) w'"
    using apply_steps_tokens [of _ "w\<lparr>inputs := tl (inputs w)\<rparr>"]
    by (auto simp: sync_def funded_def spend_def split: list.splits event.splits option.splits)
  with Some p assms(3) show ?thesis by (simp add: calms_def sync_calm)
qed

text \<open>The same in the middle of a function that was entered in \<open>w\<close>.\<close>

lemma sync_next_wp:
  assumes "calms f n w w1" and "has (n + 1) f" and "\<And>r w'. calms f (n + 1) w w' \<Longrightarrow> Q r w'"
  shows "outc (f = None) (sync w1) Q"
proof -
  have "outc (spend n f = None) (sync w1) Q"
  proof (rule sync_wp)
    show "funded (spend n f) w1" "has 1 (spend n f)"
      using assms(1,2) by (simp_all add: calms_def)
    show "Q r w'" if "calms (spend n f) 1 w1 w'" for r w'
      by (rule assms(3) [OF calms_trans [OF assms(1) that]])
  qed
  then show ?thesis by simp
qed

section \<open>System calls that retry\<close>

text \<open>The C loops \<open>for (;;) { r = call(); if (r is good) return 0; if (errno == EINTR)
  continue; return -1; }\<close> of \<open>semaphore.c\<close> and \<open>fifo.c\<close>: \<open>call\<close> consumes input, \<open>loop\<close>
  satisfies the loop equation for the test \<open>good\<close>.\<close>

locale retry_loop =
  fixes call :: "'w \<Rightarrow> (sysret \<times> 'w) option"
    and good :: "int \<Rightarrow> bool"
    and fuel :: "'w \<Rightarrow> nat"
    and loop :: "'w \<Rightarrow> (int \<times> 'w) option"
  assumes call_fuel: "call w = Some (r, w') \<Longrightarrow> fuel w' < fuel w"
    and loop_eq: "loop w =
      (case call w of
         None \<Rightarrow> None
       | Some (SysOk n, w') \<Rightarrow> if good n then Some (0, w') else Some (- 1, w')
       | Some (SysErr e, w') \<Rightarrow> if e = EINTR then loop w' else Some (- 1, w'))"
begin

lemma loop_wp:
  assumes "I w"
    and step: "\<And>w. I w \<Longrightarrow> outc b (call w)
      (\<lambda>r w'. case r of
         SysOk n \<Rightarrow> if good n then Q 0 w' else Q (- 1) w'
       | SysErr e \<Rightarrow> if e = EINTR then I w' else Q (- 1) w')"
  shows "outc b (loop w) Q"
  using \<open>I w\<close>
proof (induction "fuel w" arbitrary: w rule: less_induct)
  case less
  show ?case
  proof (cases "call w")
    case None
    with step [OF \<open>I w\<close>] show ?thesis by (subst loop_eq) simp
  next
    case (Some p)
    obtain r w' where p: "p = (r, w')" by (cases p)
    with Some step [OF \<open>I w\<close>] less.hyps [OF call_fuel [of w r w']] show ?thesis
      by (subst loop_eq) (auto split: sysret.splits if_splits)
  qed
qed

lemma loop_fuel: "loop w = Some (r, w') \<Longrightarrow> fuel w' < fuel w"
proof (induction "fuel w" arbitrary: w rule: less_induct)
  case less
  then show ?case
    using call_fuel [of w] less.hyps
    by (subst (asm) loop_eq) (fastforce split: option.splits sysret.splits if_splits)
qed

text \<open>The loop returns with the first call that is not interrupted.\<close>

inductive interrupted :: "'w \<Rightarrow> 'w \<Rightarrow> bool" where
  none: "interrupted w w"
| again: "call w = Some (SysErr EINTR, w') \<Longrightarrow> interrupted w' w'' \<Longrightarrow> interrupted w w''"

lemma loop_interrupted: "interrupted w w' \<Longrightarrow> loop w = loop w'"
  by (induction rule: interrupted.induct) (auto simp: loop_eq)

lemma loop_returns:
  assumes "interrupted w w'" and "call w' = Some (r, w'')" and "r \<noteq> SysErr EINTR"
  shows "loop w = Some (if \<exists>n. r = SysOk n \<and> good n then 0 else - 1, w'')"
  using assms by (simp add: loop_interrupted loop_eq [of w'] split: sysret.splits)

lemma loop_result: "loop w = Some (r, w') \<Longrightarrow> r = 0 \<or> r = - 1"
  using loop_wp [of "\<lambda>_. True" w True "\<lambda>r _. r = 0 \<or> r = - 1"]
  by (auto simp: outc_def split: option.splits sysret.splits)

end

text \<open>A call of the operating system in such a loop: apart from the environment, a good
  outcome has the effect \<open>eff\<close> in a state where \<open>can\<close> holds; every other outcome has none.
  The call returns at once in a state that is \<open>ready\<close>.\<close>

locale os_call = retry_loop call good "\<lambda>w. length (inputs w)" loop
  for call :: "os \<Rightarrow> (sysret \<times> os) option" and good :: "int \<Rightarrow> bool"
    and loop :: "os \<Rightarrow> (int \<times> os) option" +
  fixes ready :: "os \<Rightarrow> bool" and can :: "os \<Rightarrow> bool" and eff :: "os \<Rightarrow> os"
  assumes call_wp: "funded f w \<Longrightarrow> has 1 f \<Longrightarrow> (f \<noteq> None \<Longrightarrow> ready w) \<Longrightarrow>
      (\<And>w' e. calms f 1 w w' \<Longrightarrow> (f \<noteq> None \<Longrightarrow> e \<noteq> EINTR) \<Longrightarrow> Q (SysErr e) w') \<Longrightarrow>
      (\<And>w' n. calms f 1 w w' \<Longrightarrow> \<not> good n \<Longrightarrow> Q (SysOk n) w') \<Longrightarrow>
      (\<And>w' n. calms f 1 w w' \<Longrightarrow> good n \<Longrightarrow> can w' \<Longrightarrow> Q (SysOk n) (eff w')) \<Longrightarrow>
      outc (f = None) (call w) Q"
begin

lemma retried_wp:
  assumes "funded f w" and "has 1 f" and "f \<noteq> None \<Longrightarrow> ready w"
    and bad: "\<And>w'. calms f 1 w w' \<Longrightarrow> Q (- 1) w'"
    and ok: "\<And>w'. calms f 1 w w' \<Longrightarrow> can w' \<Longrightarrow> Q 0 (eff w')"
  shows "outc (f = None) (loop w) Q"
proof (rule loop_wp [where I = "\<lambda>w1. w1 = w \<or> f = None \<and> calm w w1"], simp, elim disjE conjE)
  fix w1 assume none: "f = None" and "calm w w1"
  note later = calm_trans [OF this(2)]
  show "outc (f = None) (call w1)
      (\<lambda>r w'. case r of SysOk n \<Rightarrow> if good n then Q 0 w' else Q (- 1) w'
        | SysErr e \<Rightarrow> if e = EINTR then w' = w \<or> f = None \<and> calm w w' else Q (- 1) w')"
    using none bad ok later by (intro call_wp) (auto simp: calms_def)
next
  fix w1 assume "w1 = w"
  then show "outc (f = None) (call w1)
      (\<lambda>r w'. case r of SysOk n \<Rightarrow> if good n then Q 0 w' else Q (- 1) w'
        | SysErr e \<Rightarrow> if e = EINTR then w' = w \<or> f = None \<and> calm w w' else Q (- 1) w')"
    using assms(1-3)
    by (intro call_wp, simp_all) (use bad ok in \<open>cases "f = None"; auto dest: calms_calm\<close>)+
qed

end

section \<open>Ending a process\<close>

text \<open>\<open>exit\<close>: the kernel adds the \<open>SEM_UNDO\<close> adjustments of the process to the
  semaphores.\<close>

definition process_exit :: "os \<Rightarrow> os" where
  "process_exit w =
     w\<lparr>sems := (\<lambda>id. map_option (\<lambda>v. v + semadj w id) (sems w id)), semadj := (\<lambda>_. 0)\<rparr>"

end
