(* ===== verification/Semaphore.thy ===== *)
theory Semaphore
  imports Process
begin

text \<open>
  The System V semaphores of \<^verbatim>\<open>src/src/ipc/semaphore.c\<close>: creation, lookup and removal on the
  tables of the kernel, and the locking loops on \<open>semop\<close> with \<open>SEM_UNDO\<close>.  The last
  section is the protocol all processes follow with the semaphore of the table: at most one
  of them is in a critical section, and a process that ends while it holds the semaphore
  does not lose it.
\<close>

section \<open>System calls\<close>

text \<open>\<open>semget (key, 1, IPC_CREAT | IPC_EXCL | 0600)\<close>: a new identifier for a new key.\<close>

definition semget_create :: "int \<Rightarrow> os \<Rightarrow> (sysret \<times> os) option" where
  "semget_create key w = do {
     (r, w) \<leftarrow> sync w;
     case r of
       SysErr e \<Rightarrow> Some (SysErr e, w)
     | SysOk sid \<Rightarrow>
         if 0 \<le> sid \<and> sem_keys (kern w) key = None \<and> sems w sid = None
         then Some (SysOk sid, w\<lparr>kern := (kern w)\<lparr>sem_keys := (sem_keys (kern w))(key \<mapsto> sid)\<rparr>,
                                sems := (sems w)(sid \<mapsto> 0)\<rparr>)
         else Some (SysErr EEXIST, w)
   }"

text \<open>\<open>semget (key, 1, 0)\<close>\<close>

definition semget_existing :: "int \<Rightarrow> os \<Rightarrow> (sysret \<times> os) option" where
  "semget_existing key w = do {
     (r, w) \<leftarrow> sync w;
     case r of
       SysErr e \<Rightarrow> Some (SysErr e, w)
     | SysOk _ \<Rightarrow>
         (case sem_keys (kern w) key of
            None \<Rightarrow> Some (SysErr ENOENT, w)
          | Some sid \<Rightarrow> Some (SysOk sid, w))
   }"

text \<open>\<open>semctl (sid, 0, SETVAL, v)\<close> and \<open>semctl (sid, 0, IPC_RMID)\<close>\<close>

definition semctl_setval :: "int \<Rightarrow> int \<Rightarrow> os \<Rightarrow> (sysret \<times> os) option" where
  "semctl_setval sid v w = do {
     (r, w) \<leftarrow> sync w;
     case r of
       SysErr e \<Rightarrow> Some (SysErr e, w)
     | SysOk _ \<Rightarrow>
         if sems w sid = None then Some (SysErr EINVAL, w)
         else Some (SysOk 0, w\<lparr>sems := (sems w)(sid \<mapsto> v)\<rparr>)
   }"

definition semctl_rmid :: "int \<Rightarrow> os \<Rightarrow> (sysret \<times> os) option" where
  "semctl_rmid sid w = do {
     (r, w) \<leftarrow> sync w;
     case r of
       SysErr e \<Rightarrow> Some (SysErr e, w)
     | SysOk _ \<Rightarrow>
         if sems w sid = None then Some (SysErr EINVAL, w)
         else Some (SysOk 0, w\<lparr>kern := (kern w)\<lparr>sem_keys :=
                  (\<lambda>k. if sem_keys (kern w) k = Some sid then None else sem_keys (kern w) k)\<rparr>,
                sems := (sems w)(sid := None)\<rparr>)
   }"

text \<open>\<open>semop\<close> with one operation \<open>{0, d, SEM_UNDO}\<close>: it blocks while the value would become
  negative.\<close>

definition sem_add :: "int \<Rightarrow> int \<Rightarrow> int \<Rightarrow> os \<Rightarrow> os" where
  "sem_add sid v d w =
     w\<lparr>sems := (sems w)(sid \<mapsto> v + d), semadj := (semadj w)(sid := semadj w sid - d)\<rparr>"

function semop :: "int \<Rightarrow> int \<Rightarrow> os \<Rightarrow> (sysret \<times> os) option" where
  "semop sid d w =
     (case sync w of
        None \<Rightarrow> None
      | Some (SysErr e, w') \<Rightarrow> Some (SysErr e, w')
      | Some (SysOk _, w') \<Rightarrow>
          (case sems w' sid of
             None \<Rightarrow> Some (SysErr EINVAL, w')
           | Some v \<Rightarrow> if 0 \<le> v + d then Some (SysOk 0, sem_add sid v d w') else semop sid d w'))"
  by pat_completeness auto
termination
  by (relation "measure (\<lambda>(sid, d, w). length (inputs w))") (auto dest: sync_inputs)

declare semop.simps [simp del]

section \<open>The functions of semaphore.c\<close>

definition semaphore_delete :: "int \<Rightarrow> os \<Rightarrow> (int \<times> os) option" where
  "semaphore_delete semaphore_id w = do {
     (r, w) \<leftarrow> semctl_rmid semaphore_id w;
     case r of SysErr _ \<Rightarrow> Some (- 1, w) | SysOk _ \<Rightarrow> Some (0, w)
   }"

definition semaphore_create :: "int \<Rightarrow> int \<Rightarrow> os \<Rightarrow> (int \<times> os) option" where
  "semaphore_create key semaphore_starting_value w = do {
     (r, w) \<leftarrow> semget_create key w;
     let semaphore_id = (case r of SysErr _ \<Rightarrow> - 1 | SysOk sid \<Rightarrow> sid);
     (r, w) \<leftarrow> semctl_setval semaphore_id semaphore_starting_value w;
     case r of
       SysErr _ \<Rightarrow> do {
         (_, w) \<leftarrow> semaphore_delete semaphore_id w;
         Some (- 1, w)
       }
     | SysOk _ \<Rightarrow> Some (semaphore_id, w)
   }"

definition semaphore_get :: "int \<Rightarrow> os \<Rightarrow> (int \<times> os) option" where
  "semaphore_get key w = do {
     (r, w) \<leftarrow> semget_existing key w;
     case r of SysErr _ \<Rightarrow> Some (- 1, w) | SysOk sid \<Rightarrow> Some (sid, w)
   }"

lemma semop_inputs: "semop sid d w = Some (r, w') \<Longrightarrow> length (inputs w') < length (inputs w)"
proof (induction "length (inputs w)" arbitrary: w rule: less_induct)
  case less
  show ?case
    using less.prems less.hyps
    by (subst (asm) semop.simps)
      (fastforce split: option.splits sysret.splits if_splits prod.splits simp: sem_add_def
        dest!: sync_inputs intro: less_trans)
qed

function semaphore_lock :: "int \<Rightarrow> os \<Rightarrow> (int \<times> os) option" where
  "semaphore_lock semaphore_id w =
     (case semop semaphore_id (- 1) w of
        None \<Rightarrow> None
      | Some (SysOk n, w') \<Rightarrow> if n = 0 then Some (0, w') else Some (- 1, w')
      | Some (SysErr e, w') \<Rightarrow> if e = EINTR then semaphore_lock semaphore_id w' else Some (- 1, w'))"
  by pat_completeness auto
termination
  by (relation "measure (\<lambda>(sid, w). length (inputs w))") (auto dest: semop_inputs)

function semaphore_unlock :: "int \<Rightarrow> os \<Rightarrow> (int \<times> os) option" where
  "semaphore_unlock semaphore_id w =
     (case semop semaphore_id 1 w of
        None \<Rightarrow> None
      | Some (SysOk n, w') \<Rightarrow> if n = 0 then Some (0, w') else Some (- 1, w')
      | Some (SysErr e, w') \<Rightarrow> if e = EINTR then semaphore_unlock semaphore_id w' else Some (- 1, w'))"
  by pat_completeness auto
termination
  by (relation "measure (\<lambda>(sid, w). length (inputs w))") (auto dest: semop_inputs)

declare semaphore_lock.simps [simp del] semaphore_unlock.simps [simp del]

section \<open>Behaviour of the locking loops\<close>

definition sem_can :: "int \<Rightarrow> int \<Rightarrow> os \<Rightarrow> bool" where
  "sem_can sid d w \<longleftrightarrow> (\<exists>v. sems w sid = Some v \<and> 0 \<le> v + d)"

definition sem_eff :: "int \<Rightarrow> int \<Rightarrow> os \<Rightarrow> os" where
  "sem_eff sid d w = sem_add sid (the (sems w sid)) d w"

lemma semop_wp:
  assumes "funded f w" and "has 1 f" and "f \<noteq> None \<Longrightarrow> sem_can sid d w"
    and "\<And>w' e. calms f 1 w w' \<Longrightarrow> (f \<noteq> None \<Longrightarrow> e \<noteq> EINTR) \<Longrightarrow> Q (SysErr e) w'"
    and "\<And>w'. calms f 1 w w' \<Longrightarrow> sem_can sid d w' \<Longrightarrow> Q (SysOk 0) (sem_eff sid d w')"
  shows "outc (f = None) (semop sid d w) Q"
  using assms
proof (induction "length (inputs w)" arbitrary: w rule: less_induct)
  case less
  show ?case
  proof (cases "sync w")
    case None
    with sync_wp [OF less.prems(1,2), of "\<lambda>_ _. True"] show ?thesis by (subst semop.simps) simp
  next
    case (Some p)
    obtain r w' where p: "p = (r, w')" by (cases p)
    with Some sync_wp [OF less.prems(1,2), of "\<lambda>r w'. calms f 1 w w' \<and> (f \<noteq> None \<longrightarrow> r \<noteq> SysErr EINTR)"]
    have calms: "calms f 1 w w'" "f \<noteq> None \<Longrightarrow> r \<noteq> SysErr EINTR"
      and less': "length (inputs w') < length (inputs w)"
      by (auto dest: sync_inputs)
    have later: "wp (semop sid d w') Q" if "f = None"
      using less.prems calms_trans [OF calms(1)] less' that
      by (intro less.hyps [of w', unfolded that, simplified]) (auto simp: calms_def dest: calm_trans)
    have "sems w' sid = sems w sid"
      using calms by (simp add: calms_def calm_def)
    with less.prems(3) calms later show ?thesis
      using Some p less.prems(4) less.prems(5) [of w']
      by (subst semop.simps) (cases "f = None"; auto split: sysret.splits option.splits simp: sem_can_def sem_eff_def)
  qed
qed

interpretation lock: os_call "semop sid (- 1)" "\<lambda>n. n = 0" "semaphore_lock sid"
  "sem_can sid (- 1)" "sem_can sid (- 1)" "sem_eff sid (- 1)" for sid
proof (unfold_locales, goal_cases)
  case 3
  show ?case by (rule semop_wp [OF 3(1-3)]) (assumption | rule 3(4,6) refl)+
qed (auto dest: semop_inputs intro: semaphore_lock.simps)

interpretation unlock: os_call "semop sid 1" "\<lambda>n. n = 0" "semaphore_unlock sid"
  "sem_can sid 1" "sem_can sid 1" "sem_eff sid 1" for sid
proof (unfold_locales, goal_cases)
  case 3
  show ?case by (rule semop_wp [OF 3(1-3)]) (assumption | rule 3(4,6) refl)+
qed (auto dest: semop_inputs intro: semaphore_unlock.simps)

lemmas semaphore_wp [wp_rules] = lock.retried_wp unlock.retried_wp

text \<open>A call that succeeds at once.\<close>

lemma semaphore_lock_now:
  assumes "inputs w = Event es (SysOk k) # evs" and "sems w sid = Some v" and "1 \<le> v"
  shows "semaphore_lock sid w = Some (0, sem_add sid v (- 1) (fold apply_step es (w\<lparr>inputs := evs\<rparr>)))"
proof -
  have "sems (fold apply_step es (w\<lparr>inputs := evs\<rparr>)) sid = Some v"
    using apply_steps_calm [of "w\<lparr>inputs := evs\<rparr>" es] assms(2) by (simp add: calm_def)
  with assms show ?thesis
    by (simp add: semaphore_lock.simps [of sid w] semop.simps [of sid _ w] sync_def)
qed

lemma semaphore_unlock_now:
  assumes "inputs w = Event es (SysOk k) # evs" and "sems w sid = Some v" and "0 \<le> v"
  shows "semaphore_unlock sid w = Some (0, sem_add sid v 1 (fold apply_step es (w\<lparr>inputs := evs\<rparr>)))"
proof -
  have "sems (fold apply_step es (w\<lparr>inputs := evs\<rparr>)) sid = Some v"
    using apply_steps_calm [of "w\<lparr>inputs := evs\<rparr>" es] assms(2) by (simp add: calm_def)
  with assms show ?thesis
    by (simp add: semaphore_unlock.simps [of sid w] semop.simps [of sid _ w] sync_def)
qed

section \<open>The protocol of all processes\<close>

text \<open>The value of the semaphore and the adjustment the kernel keeps for every process.  A
  process that has locked is in its critical section until it unlocks; it may end at any
  moment, and then the kernel applies its adjustment.\<close>

record sem_state =
  sem_value :: int
  sem_adj :: "nat \<Rightarrow> int"

definition sem_free_state :: sem_state where
  "sem_free_state = \<lparr>sem_value = 1, sem_adj = (\<lambda>_. 0)\<rparr>"

definition in_section :: "nat \<Rightarrow> sem_state \<Rightarrow> bool" where
  "in_section p g \<longleftrightarrow> sem_adj g p = 1"

inductive sem_step :: "sem_state \<Rightarrow> sem_state \<Rightarrow> bool" where
  enter: "\<not> in_section p g \<Longrightarrow> 1 \<le> sem_value g \<Longrightarrow>
    sem_step g (g\<lparr>sem_value := sem_value g - 1, sem_adj := (sem_adj g)(p := sem_adj g p + 1)\<rparr>)"
| leave: "in_section p g \<Longrightarrow>
    sem_step g (g\<lparr>sem_value := sem_value g + 1, sem_adj := (sem_adj g)(p := sem_adj g p - 1)\<rparr>)"
| die: "sem_step g (g\<lparr>sem_value := sem_value g + sem_adj g p, sem_adj := (sem_adj g)(p := 0)\<rparr>)"

inductive sem_reach :: "sem_state \<Rightarrow> bool" where
  free: "sem_reach sem_free_state"
| step: "sem_reach g \<Longrightarrow> sem_step g g' \<Longrightarrow> sem_reach g'"

inductive_cases sem_stepE: "sem_step g g'"

text \<open>Either the semaphore is free and nobody is in a critical section, or exactly one process
  is.\<close>

definition sem_inv :: "sem_state \<Rightarrow> bool" where
  "sem_inv g \<longleftrightarrow>
     sem_value g = 1 \<and> sem_adj g = (\<lambda>_. 0) \<or> sem_value g = 0 \<and> (\<exists>p. sem_adj g = (\<lambda>_. 0)(p := 1))"

lemma sem_inv_cases:
  assumes "sem_inv g"
  obtains (free) "sem_value g = 1" "\<And>p. sem_adj g p = 0"
  | (held) q where "sem_value g = 0" "sem_adj g = (\<lambda>_. 0)(q := 1)"
  using assms by (auto simp: sem_inv_def)

lemma sem_step_inv:
  assumes "sem_step g g'" and "sem_inv g"
  shows "sem_inv g'"
  using assms(2)
proof (cases rule: sem_inv_cases)
  case free
  then have "sem_adj g = (\<lambda>_. 0)" by (simp add: fun_eq_iff)
  with assms(1) free show ?thesis
    by (elim sem_stepE) (auto simp: sem_inv_def in_section_def)
next
  case (held q)
  from assms(1) show ?thesis
  proof cases
    case (leave p)
    with held have "p = q" by (simp add: in_section_def split: if_splits)
    with leave held show ?thesis by (simp add: sem_inv_def fun_eq_iff)
  next
    case (die p)
    with held show ?thesis by (cases "p = q") (auto simp: sem_inv_def fun_upd_twist fun_upd_idem)
  qed (use held in simp)
qed

lemma sem_reach_inv: "sem_reach g \<Longrightarrow> sem_inv g"
proof (induction rule: sem_reach.induct)
  case free
  show ?case by (simp add: sem_inv_def sem_free_state_def)
qed (rule sem_step_inv)

text \<open>What process \<open>p\<close> sees of the protocol in its own state; its calls are steps of it.\<close>

definition sees :: "int \<Rightarrow> nat \<Rightarrow> os \<Rightarrow> sem_state \<Rightarrow> bool" where
  "sees sid p w g \<longleftrightarrow> sems w sid = Some (sem_value g) \<and> semadj w sid = sem_adj g p"

lemma lock_refines:
  assumes "sees sid p w g" and "sem_reach g" and "sem_can sid (- 1) w"
  shows "\<exists>g'. sem_step g g' \<and> in_section p g' \<and> sees sid p (sem_eff sid (- 1) w) g'"
proof -
  let ?g = "g\<lparr>sem_value := sem_value g - 1, sem_adj := (sem_adj g)(p := sem_adj g p + 1)\<rparr>"
  have "1 \<le> sem_value g" using assms by (auto simp: sees_def sem_can_def)
  with sem_reach_inv [OF assms(2)] have free: "sem_adj g p = 0" by (auto simp: sem_inv_def)
  with \<open>1 \<le> sem_value g\<close> have "sem_step g ?g" by (intro enter) (auto simp: in_section_def)
  moreover have "sees sid p (sem_eff sid (- 1) w) ?g"
    using assms by (simp add: sees_def sem_eff_def sem_add_def)
  moreover have "in_section p ?g" using free by (simp add: in_section_def)
  ultimately show ?thesis by blast
qed

lemma unlock_refines:
  assumes "sees sid p w g" and "in_section p g"
  shows "\<exists>g'. sem_step g g' \<and> \<not> in_section p g' \<and> sees sid p (sem_eff sid 1 w) g'"
proof -
  let ?g = "g\<lparr>sem_value := sem_value g + 1, sem_adj := (sem_adj g)(p := sem_adj g p - 1)\<rparr>"
  have "sem_step g ?g" using assms by (intro leave)
  moreover have "sees sid p (sem_eff sid 1 w) ?g" "\<not> in_section p ?g"
    using assms by (simp_all add: sees_def sem_eff_def sem_add_def in_section_def)
  ultimately show ?thesis by blast
qed

lemma exit_refines:
  assumes "sees sid p w g"
  shows "\<exists>g'. sem_step g g' \<and> \<not> in_section p g' \<and> sees sid p (process_exit w) g'"
proof -
  let ?g = "g\<lparr>sem_value := sem_value g + sem_adj g p, sem_adj := (sem_adj g)(p := 0)\<rparr>"
  have "sem_step g ?g" by (rule die)
  moreover have "sees sid p (process_exit w) ?g" "\<not> in_section p ?g"
    using assms by (simp_all add: sees_def process_exit_def in_section_def)
  ultimately show ?thesis by blast
qed

end
