(* ===== verification/Fifo.thy ===== *)
theory Fifo
  imports Process
begin

text \<open>
  The FIFO used as a counting semaphore, \<^verbatim>\<open>src/src/ipc/fifo.c\<close>: one byte in the pipe is one
  free place in the gate.  Taking a place reads a byte, leaving writes it back.  The pipe is
  opened for reading and writing, so a read on an empty pipe blocks and never sees the end
  of the file.
\<close>

section \<open>System calls\<close>

text \<open>The result of \<open>read (fd, &token, 1)\<close>, \<open>write (fd, &token, 1)\<close> and \<open>poll\<close> on the pipe.\<close>

function fifo_read :: "os \<Rightarrow> (sysret \<times> os) option" where
  "fifo_read w =
     (case sync w of
        None \<Rightarrow> None
      | Some (SysErr e, w') \<Rightarrow> Some (SysErr e, w')
      | Some (SysOk n, w') \<Rightarrow>
          if n \<noteq> 1 then Some (SysOk n, w')
          else if 0 < gate_tokens (sw w') then Some (SysOk 1, w'\<lparr>sw := take_token (me w') (sw w')\<rparr>)
          else fifo_read w')"
  by pat_completeness auto
termination
  by (relation "measure (\<lambda>w. length (inputs w))") (auto dest: sync_inputs)

definition fifo_write :: "os \<Rightarrow> (sysret \<times> os) option" where
  "fifo_write w = do {
     (r, w) \<leftarrow> sync w;
     case r of
       SysErr e \<Rightarrow> Some (SysErr e, w)
     | SysOk n \<Rightarrow> if n = 1 then Some (SysOk 1, w\<lparr>sw := put_token (me w) (sw w)\<rparr>)
                  else Some (SysOk n, w)
   }"

function fifo_poll :: "os \<Rightarrow> (sysret \<times> os) option" where
  "fifo_poll w =
     (case sync w of
        None \<Rightarrow> None
      | Some (SysErr e, w') \<Rightarrow> Some (SysErr e, w')
      | Some (SysOk n, w') \<Rightarrow>
          if n = 0 then Some (SysOk 0, w')
          else if 0 < gate_tokens (sw w') then Some (SysOk 1, w')
          else fifo_poll w')"
  by pat_completeness auto
termination
  by (relation "measure (\<lambda>w. length (inputs w))") (auto dest: sync_inputs)

declare fifo_read.simps [simp del] fifo_poll.simps [simp del]

definition mkfifo :: "string \<Rightarrow> os \<Rightarrow> (int \<times> os) option" where
  "mkfifo path w = do {
     (r, w) \<leftarrow> sync w;
     case r of
       SysErr e \<Rightarrow> Some (- 1, w)
     | SysOk _ \<Rightarrow>
         if path \<in> set (fifos (kern w)) then Some (- 1, w)
         else Some (0, w\<lparr>kern := (kern w)\<lparr>fifos := path # fifos (kern w)\<rparr>\<rparr>)
   }"

definition unlink :: "string \<Rightarrow> os \<Rightarrow> (int \<times> os) option" where
  "unlink path w = do {
     (r, w) \<leftarrow> sync w;
     case r of
       SysErr e \<Rightarrow> Some (- 1, w)
     | SysOk _ \<Rightarrow>
         if path \<in> set (fifos (kern w))
         then Some (0, w\<lparr>kern := (kern w)\<lparr>fifos := removeAll path (fifos (kern w))\<rparr>\<rparr>)
         else Some (- 1, w)
   }"

text \<open>A call whose only effect on the model is its result: the value, or \<open>-1\<close>.\<close>

definition plain_call :: "os \<Rightarrow> (int \<times> os) option" where
  "plain_call w = do {
     (r, w) \<leftarrow> sync w;
     case r of SysErr _ \<Rightarrow> Some (- 1, w) | SysOk n \<Rightarrow> Some (n, w)
   }"

section \<open>The semaphore\<close>

definition PATH_SIZE :: nat where
  "PATH_SIZE = 4096"

record FIFO_SEM =
  fs_path :: string
  fs_file_descriptor :: int
  fs_capacity :: int

lemma fifo_read_inputs: "fifo_read w = Some (r, w') \<Longrightarrow> length (inputs w') < length (inputs w)"
proof (induction "length (inputs w)" arbitrary: w rule: less_induct)
  case less
  show ?case
    using less.prems less.hyps
    by (subst (asm) fifo_read.simps)
      (fastforce split: option.splits sysret.splits if_splits prod.splits
        dest!: sync_inputs intro: less_trans)
qed

lemma fifo_poll_inputs: "fifo_poll w = Some (r, w') \<Longrightarrow> length (inputs w') < length (inputs w)"
proof (induction "length (inputs w)" arbitrary: w rule: less_induct)
  case less
  show ?case
    using less.prems less.hyps
    by (subst (asm) fifo_poll.simps)
      (fastforce split: option.splits sysret.splits if_splits prod.splits
        dest!: sync_inputs intro: less_trans)
qed

lemma fifo_write_inputs: "fifo_write w = Some (r, w') \<Longrightarrow> length (inputs w') < length (inputs w)"
  by (cases "sync w")
    (auto simp: fifo_write_def split: sysret.splits if_splits dest!: sync_inputs)

text \<open>The loop \<open>for (;;) { read one token }\<close>.\<close>

function read_token_loop :: "os \<Rightarrow> (int \<times> os) option" where
  "read_token_loop w =
     (case fifo_read w of
        None \<Rightarrow> None
      | Some (SysOk n, w') \<Rightarrow> if n = 1 then Some (0, w') else Some (- 1, w')
      | Some (SysErr e, w') \<Rightarrow> if e = EINTR then read_token_loop w' else Some (- 1, w'))"
  by pat_completeness auto
termination
  by (relation "measure (\<lambda>w. length (inputs w))") (auto dest: fifo_read_inputs)

function write_token_loop :: "os \<Rightarrow> (int \<times> os) option" where
  "write_token_loop w =
     (case fifo_write w of
        None \<Rightarrow> None
      | Some (SysOk n, w') \<Rightarrow> if n = 1 then Some (0, w') else Some (- 1, w')
      | Some (SysErr e, w') \<Rightarrow> if e = EINTR then write_token_loop w' else Some (- 1, w'))"
  by pat_completeness auto
termination
  by (relation "measure (\<lambda>w. length (inputs w))") (auto dest: fifo_write_inputs)

function close_loop :: "os \<Rightarrow> (int \<times> os) option" where
  "close_loop w =
     (case sync w of
        None \<Rightarrow> None
      | Some (SysOk n, w') \<Rightarrow> if n = 0 then Some (0, w') else Some (- 1, w')
      | Some (SysErr e, w') \<Rightarrow> if e = EINTR then close_loop w' else Some (- 1, w'))"
  by pat_completeness auto
termination
  by (relation "measure (\<lambda>w. length (inputs w))") (auto dest: sync_inputs)

declare read_token_loop.simps [simp del] write_token_loop.simps [simp del] close_loop.simps [simp del]

fun write_tokens :: "nat \<Rightarrow> os \<Rightarrow> (int \<times> os) option" where
  "write_tokens 0 w = Some (0, w)"
| "write_tokens (Suc n) w = do {
     (r, w) \<leftarrow> write_token_loop w;
     if r = 0 then write_tokens n w else Some (- 1, w)
   }"

definition fifo_sem_create ::
  "FIFO_SEM option \<Rightarrow> string option \<Rightarrow> int \<Rightarrow> os \<Rightarrow> (int \<times> FIFO_SEM option \<times> os) option" where
  "fifo_sem_create fifo_sem path cap w =
     (case (fifo_sem, path) of
        (Some f, Some p) \<Rightarrow>
          if cap \<le> 0 then Some (- 1, fifo_sem, w)
          else do {
            let f = \<lparr>fs_path = '''', fs_file_descriptor = - 1, fs_capacity = cap\<rparr>;
            if length p \<ge> PATH_SIZE then Some (- 1, Some f, w)
            else do {
              let f = f\<lparr>fs_path := p\<rparr>;
              (r, w) \<leftarrow> mkfifo p w;
              if r = - 1 then Some (- 1, Some f, w)
              else do {
                (file_descriptor, w) \<leftarrow> plain_call w;
                if file_descriptor = - 1 then do {
                  (_, w) \<leftarrow> unlink p w;
                  Some (- 1, Some f, w)
                } else do {
                  (flags, w) \<leftarrow> plain_call w;
                  if flags = - 1 then do {
                    (_, w) \<leftarrow> plain_call w;
                    (_, w) \<leftarrow> unlink p w;
                    Some (- 1, Some f, w)
                  } else do {
                    (r, w) \<leftarrow> plain_call w;
                    if r = - 1 then do {
                      (_, w) \<leftarrow> plain_call w;
                      (_, w) \<leftarrow> unlink p w;
                      Some (- 1, Some f, w)
                    } else do {
                      (r, w) \<leftarrow> write_tokens (nat cap) w;
                      if r = - 1 then do {
                        (_, w) \<leftarrow> plain_call w;
                        (_, w) \<leftarrow> unlink p w;
                        Some (- 1, Some f, w)
                      } else Some (0, Some (f\<lparr>fs_file_descriptor := file_descriptor\<rparr>), w)
                    }
                  }
                }
              }
            }
          }
      | _ \<Rightarrow> Some (- 1, fifo_sem, w))"

text \<open>\<open>stat\<close> succeeds on the paths of FIFO files; the answer says whether another kind of file
  was found.\<close>

definition fifo_sem_get ::
  "FIFO_SEM option \<Rightarrow> string option \<Rightarrow> os \<Rightarrow> (int \<times> FIFO_SEM option \<times> os) option" where
  "fifo_sem_get fifo_sem path w =
     (case (fifo_sem, path) of
        (Some f, Some p) \<Rightarrow> do {
          let f = \<lparr>fs_path = '''', fs_file_descriptor = - 1, fs_capacity = - 1\<rparr>;
          if length p \<ge> PATH_SIZE then Some (- 1, Some f, w)
          else do {
            let f = f\<lparr>fs_path := p\<rparr>;
            (r, w) \<leftarrow> plain_call w;
            if r = - 1 then Some (- 1, Some f, w)
            else if p \<notin> set (fifos (kern w)) then Some (- 1, Some f, w)
            else do {
              (file_descriptor, w) \<leftarrow> plain_call w;
              if file_descriptor = - 1 then Some (- 1, Some f, w)
              else do {
                (flags, w) \<leftarrow> plain_call w;
                if flags = - 1 then do {
                  (_, w) \<leftarrow> plain_call w;
                  Some (- 1, Some f, w)
                } else do {
                  (r, w) \<leftarrow> plain_call w;
                  if r = - 1 then do {
                    (_, w) \<leftarrow> plain_call w;
                    Some (- 1, Some f, w)
                  } else Some (0, Some (f\<lparr>fs_file_descriptor := file_descriptor\<rparr>), w)
                }
              }
            }
          }
        }
      | _ \<Rightarrow> Some (- 1, fifo_sem, w))"

definition fifo_sem_lock :: "FIFO_SEM option \<Rightarrow> os \<Rightarrow> (int \<times> os) option" where
  "fifo_sem_lock fifo_sem w =
     (case fifo_sem of
        None \<Rightarrow> Some (- 1, w)
      | Some f \<Rightarrow> if fs_file_descriptor f < 0 then Some (- 1, w) else read_token_loop w)"

definition fifo_sem_unlock :: "FIFO_SEM option \<Rightarrow> os \<Rightarrow> (int \<times> os) option" where
  "fifo_sem_unlock fifo_sem w =
     (case fifo_sem of
        None \<Rightarrow> Some (- 1, w)
      | Some f \<Rightarrow> if fs_file_descriptor f < 0 then Some (- 1, w) else write_token_loop w)"

definition fifo_sem_close :: "FIFO_SEM option \<Rightarrow> os \<Rightarrow> (int \<times> FIFO_SEM option \<times> os) option" where
  "fifo_sem_close fifo_sem w =
     (case fifo_sem of
        None \<Rightarrow> Some (- 1, None, w)
      | Some f \<Rightarrow>
          if fs_file_descriptor f \<ge> 0 then do {
            (r, w) \<leftarrow> close_loop w;
            if r = 0 then Some (0, Some (f\<lparr>fs_file_descriptor := - 1\<rparr>), w)
            else Some (- 1, Some f, w)
          } else Some (0, Some f, w))"

definition fifo_sem_destroy :: "FIFO_SEM option \<Rightarrow> os \<Rightarrow> (int \<times> FIFO_SEM option \<times> os) option" where
  "fifo_sem_destroy fifo_sem w =
     (case fifo_sem of
        None \<Rightarrow> Some (- 1, None, w)
      | Some _ \<Rightarrow> do {
          (_, fifo_sem, w) \<leftarrow> fifo_sem_close fifo_sem w;
          case fifo_sem of
            None \<Rightarrow> Some (- 1, None, w)
          | Some f \<Rightarrow>
              if fs_path f = '''' then Some (- 1, fifo_sem, w)
              else do {
                (r, w) \<leftarrow> unlink (fs_path f) w;
                if r \<noteq> 0 then Some (- 1, fifo_sem, w) else Some (0, fifo_sem, w)
              }
        })"

function lock_timeout_loop :: "os \<Rightarrow> (int \<times> os) option" where
  "lock_timeout_loop w =
     (case fifo_poll w of
        None \<Rightarrow> None
      | Some (SysErr e, w') \<Rightarrow> if e = EINTR then lock_timeout_loop w' else Some (- 1, w')
      | Some (SysOk n, w') \<Rightarrow> if n = 0 then Some (1, w') else read_token_loop w')"
  by pat_completeness auto
termination
  by (relation "measure (\<lambda>w. length (inputs w))") (auto dest: fifo_poll_inputs)

declare lock_timeout_loop.simps [simp del]

definition fifo_sem_lock_timeout :: "FIFO_SEM option \<Rightarrow> int \<Rightarrow> os \<Rightarrow> (int \<times> os) option" where
  "fifo_sem_lock_timeout fifo_sem timeout_ms w =
     (case fifo_sem of
        None \<Rightarrow> Some (- 1, w)
      | Some f \<Rightarrow> if fs_file_descriptor f < 0 then Some (- 1, w) else lock_timeout_loop w)"

section \<open>Behaviour\<close>

definition token_taken :: "os \<Rightarrow> os" where
  "token_taken w = w\<lparr>sw := take_token (me w) (sw w)\<rparr>"

definition token_put :: "os \<Rightarrow> os" where
  "token_put w = w\<lparr>sw := put_token (me w) (sw w)\<rparr>"

abbreviation token_there :: "os \<Rightarrow> bool" where
  "token_there w \<equiv> 0 < gate_tokens (sw w)"

lemma sync_obtain:
  assumes "funded f w" and "has 1 f" and "sync w = Some (r, w')"
  shows "calms f 1 w w'" "f \<noteq> None \<Longrightarrow> r \<noteq> SysErr EINTR" "length (inputs w') < length (inputs w)"
  using sync_wp [OF assms(1,2), of "\<lambda>r w'. calms f 1 w w' \<and> (f \<noteq> None \<longrightarrow> r \<noteq> SysErr EINTR)"] assms(3)
  by (auto dest: sync_inputs)

lemma sync_blocked: "funded f w \<Longrightarrow> has 1 f \<Longrightarrow> sync w = None \<Longrightarrow> f = None"
  using sync_wp [of f w "\<lambda>_ _. True"] by simp

lemma fifo_read_wp:
  assumes "funded f w" and "has 1 f" and "f \<noteq> None \<Longrightarrow> token_there w"
    and "\<And>w' e. calms f 1 w w' \<Longrightarrow> (f \<noteq> None \<Longrightarrow> e \<noteq> EINTR) \<Longrightarrow> Q (SysErr e) w'"
    and "\<And>w' n. calms f 1 w w' \<Longrightarrow> n \<noteq> 1 \<Longrightarrow> Q (SysOk n) w'"
    and "\<And>w'. calms f 1 w w' \<Longrightarrow> token_there w' \<Longrightarrow> Q (SysOk 1) (token_taken w')"
  shows "outc (f = None) (fifo_read w) Q"
  using assms
proof (induction "length (inputs w)" arbitrary: w rule: less_induct)
  case less
  show ?case
  proof (cases "sync w")
    case None
    with sync_blocked less.prems(1,2) show ?thesis by (subst fifo_read.simps) simp
  next
    case (Some p)
    obtain r w' where p: "p = (r, w')" by (cases p)
    with Some have sync: "sync w = Some (r, w')" by simp
    note calms = sync_obtain [OF less.prems(1,2) sync]
    have later: "wp (fifo_read w') Q" if "f = None"
      using less.prems(4-) calms that
      by (intro less.hyps [of w', unfolded that, simplified]) (auto dest: calm_trans)
    have "f \<noteq> None \<Longrightarrow> token_there w'"
      using calms(1) less.prems(3) by (auto simp: calms_def)
    with calms later sync less.prems(4) less.prems(5,6) [of w'] show ?thesis
      by (subst fifo_read.simps)
        (cases "f = None"; auto split: sysret.splits simp flip: token_taken_def)
  qed
qed

lemma fifo_poll_wp:
  assumes "funded f w" and "has 1 f" and "f \<noteq> None \<Longrightarrow> token_there w"
    and "\<And>w' e. calms f 1 w w' \<Longrightarrow> (f \<noteq> None \<Longrightarrow> e \<noteq> EINTR) \<Longrightarrow> Q (SysErr e) w'"
    and "\<And>w' n. calms f 1 w w' \<Longrightarrow> Q (SysOk n) w'"
  shows "outc (f = None) (fifo_poll w) Q"
  using assms
proof (induction "length (inputs w)" arbitrary: w rule: less_induct)
  case less
  show ?case
  proof (cases "sync w")
    case None
    with sync_blocked less.prems(1,2) show ?thesis by (subst fifo_poll.simps) simp
  next
    case (Some p)
    obtain r w' where p: "p = (r, w')" by (cases p)
    with Some have sync: "sync w = Some (r, w')" by simp
    note calms = sync_obtain [OF less.prems(1,2) sync]
    have later: "wp (fifo_poll w') Q" if "f = None"
      using less.prems(4-) calms that
      by (intro less.hyps [of w', unfolded that, simplified]) (auto dest: calm_trans)
    have "f \<noteq> None \<Longrightarrow> token_there w'"
      using calms(1) less.prems(3) by (auto simp: calms_def)
    with calms later sync less.prems(4) less.prems(5) [of w'] show ?thesis
      by (subst fifo_poll.simps) (cases "f = None"; auto split: sysret.splits)
  qed
qed

interpretation rd: os_call fifo_read "\<lambda>n. n = 1" read_token_loop token_there token_there token_taken
proof (unfold_locales, goal_cases)
  case 3
  show ?case by (rule fifo_read_wp [OF 3(1-3)]) (assumption | rule 3(4-) refl)+
qed (auto dest: fifo_read_inputs intro: read_token_loop.simps)

interpretation wr: os_call fifo_write "\<lambda>n. n = 1" write_token_loop "\<lambda>_. True" "\<lambda>_. True" token_put
proof (unfold_locales, goal_cases)
  case (3 f w Q)
  have "outc (f = None) (sync w) (\<lambda>r w'. case r of SysErr e \<Rightarrow> Q (SysErr e) w'
      | SysOk n \<Rightarrow> if n = 1 then Q (SysOk 1) (token_put w') else Q (SysOk n) w')"
    by (rule sync_wp [OF 3(1,2)]) (use 3(4-) in \<open>auto split: sysret.splits\<close>)
  then show ?case
    by (auto simp: fifo_write_def token_put_def elim!: outc_mono split: sysret.splits if_splits)
qed (auto dest: fifo_write_inputs intro: write_token_loop.simps)

interpretation cl: os_call sync "\<lambda>n. n = 0" close_loop "\<lambda>_. True" "\<lambda>_. True" "\<lambda>w. w"
proof (unfold_locales, goal_cases)
  case (3 f w Q)
  have "calms f 1 w w' \<Longrightarrow> (f \<noteq> None \<Longrightarrow> r \<noteq> SysErr EINTR) \<Longrightarrow> Q r w'" for r w'
    using 3(4) 3(5,6) [of w'] by (cases r; cases "r = SysOk 0") auto
  then show ?case by (rule sync_wp [OF 3(1,2)])
qed (auto dest: sync_inputs intro: close_loop.simps)

lemma lock_timeout_loop_wp:
  assumes "funded f w" and "has 2 f" and "f \<noteq> None \<Longrightarrow> token_there w"
    and "\<And>w'. calms f 2 w w' \<Longrightarrow> Q (- 1) w'" and "\<And>w'. calms f 2 w w' \<Longrightarrow> Q 1 w'"
    and "\<And>w'. calms f 2 w w' \<Longrightarrow> token_there w' \<Longrightarrow> Q 0 (token_taken w')"
  shows "outc (f = None) (lock_timeout_loop w) Q"
  using assms
proof (induction "length (inputs w)" arbitrary: w rule: less_induct)
  case less
  have has1: "has 1 f" using less.prems(2) by (rule has_mono) simp
  have poll: "outc (f = None) (fifo_poll w) (\<lambda>r w'. calms f 1 w w' \<and> (f \<noteq> None \<longrightarrow> r \<noteq> SysErr EINTR))"
    by (rule fifo_poll_wp [OF less.prems(1) has1 less.prems(3)]) auto
  have after: "(f = None \<longrightarrow> wp (lock_timeout_loop w') Q) \<and> outc (f = None) (read_token_loop w') Q \<and>
      Q 1 w' \<and> Q (- 1) w'"
    if res: "fifo_poll w = Some (r, w')" "calms f 1 w w'" for r w'
  proof (intro conjI impI)
    show "wp (lock_timeout_loop w') Q" if "f = None"
      using less.prems(4-) res that fifo_poll_inputs [OF res(1)]
      by (intro less.hyps [of w', unfolded that, simplified]) (auto dest: calm_trans)
    have "funded (spend 1 f) w'" "has 1 (spend 1 f)" "spend 1 f \<noteq> None \<Longrightarrow> token_there w'"
      using res less.prems(2,3) by (auto simp: calms_def numeral_2_eq_2)
    moreover have "calms f 2 w v" if "calms (spend 1 f) 1 w' v" for v
      using calms_trans [OF res(2) that] by (simp add: numeral_2_eq_2)
    ultimately have "outc (spend 1 f = None) (read_token_loop w') Q"
      using less.prems(4,6) by (intro rd.retried_wp) auto
    then show "outc (f = None) (read_token_loop w') Q" by simp
    show "Q 1 w'" "Q (- 1) w'"
      using less.prems(4,5) calms_mono [OF res(2), of 2] by auto
  qed
  show ?case
  proof (cases "fifo_poll w")
    case None
    with poll show ?thesis by (subst lock_timeout_loop.simps) simp
  next
    case (Some p)
    then obtain r w' where r: "fifo_poll w = Some (r, w')" by (cases p) auto
    with poll have "calms f 1 w w'" "f \<noteq> None \<longrightarrow> r \<noteq> SysErr EINTR" by auto
    with after [OF r] r show ?thesis
      by (subst lock_timeout_loop.simps) (cases "f = None"; auto split: sysret.splits)
  qed
qed

lemma fifo_sem_lock_timeout_wp [wp_rules]:
  assumes "funded f w" and "has 2 f" and "f \<noteq> None \<Longrightarrow> token_there w"
    and "\<And>w'. calms f 2 w w' \<Longrightarrow> Q (- 1) w'" and "\<And>w'. calms f 2 w w' \<Longrightarrow> Q 1 w'"
    and "\<And>w'. calms f 2 w w' \<Longrightarrow> token_there w' \<Longrightarrow> Q 0 (token_taken w')"
  shows "outc (f = None) (fifo_sem_lock_timeout s t w) Q"
  unfolding fifo_sem_lock_timeout_def
  using assms(4) [OF calms_mono [OF calms_refl [OF assms(1)]]] lock_timeout_loop_wp [OF assms(1-3), of Q] assms(4-)
  by (auto split: option.splits)

lemma fifo_sem_unlock_wp [wp_rules]:
  assumes "funded f w" and "has 1 f"
    and "\<And>w'. calms f 1 w w' \<Longrightarrow> Q (- 1) w'" and "\<And>w'. calms f 1 w w' \<Longrightarrow> Q 0 (token_put w')"
  shows "outc (f = None) (fifo_sem_unlock s w) Q"
  unfolding fifo_sem_unlock_def
  using assms(3) [OF calms_mono [OF calms_refl [OF assms(1)]]] wr.retried_wp [OF assms(1,2), of Q] assms(3,4)
  by (auto split: option.splits)

lemma fifo_sem_close_wp [wp_rules]:
  assumes "funded f w" and "has 1 f" and "\<And>r s' w'. calms f 1 w w' \<Longrightarrow> Q r (s', w')"
  shows "outc (f = None) (fifo_sem_close s w) Q"
  unfolding fifo_sem_close_def
  using assms(3) [OF calms_mono [OF calms_refl [OF assms(1)]]] assms(3)
  by (auto split: option.splits intro!: cl.retried_wp [OF assms(1,2)])

lemma plain_call_next_wp:
  assumes "calms f n w w1" and "has (n + 1) f" and "\<And>r w'. calms f (n + 1) w w' \<Longrightarrow> Q r w'"
  shows "outc (f = None) (plain_call w1) Q"
  unfolding plain_call_def outc_bind
  by (rule sync_next_wp [OF assms(1,2)]) (simp add: assms(3) split: sysret.splits)

lemma plain_call_wp [wp_rules]:
  assumes "funded f w" and "has 1 f" and "\<And>r w'. calms f 1 w w' \<Longrightarrow> Q r w'"
  shows "outc (f = None) (plain_call w) Q"
  by (rule plain_call_next_wp [OF calms_refl]) (use assms in simp_all)

end
