(* ===== verification/Segments.thy ===== *)
theory Segments
  imports Fifo
begin

text \<open>
  The wrappers around shared-memory segments at the top of \<^verbatim>\<open>src/src/ipc/shm.c\<close> and the key
  files of \<^verbatim>\<open>src/src/ipc/key.c\<close>.  A pointer to an attached segment is the identifier of the
  segment; \<open>NULL\<close> is \<open>None\<close>.
\<close>

section \<open>Keys\<close>

definition grab_key_from_file :: "string option \<Rightarrow> os \<Rightarrow> (int \<times> os) option" where
  "grab_key_from_file file_name w =
     (case file_name of
        None \<Rightarrow> Some (- 1, w)
      | Some f \<Rightarrow> do {
          (fd, w) \<leftarrow> plain_call w;
          if fd = - 1 then Some (- 1, w)
          else do {
            (r, w) \<leftarrow> plain_call w;
            if r = - 1 then Some (- 1, w)
            else do {
              (r, w) \<leftarrow> sync w;
              case r of
                SysErr _ \<Rightarrow> Some (- 1, w)
              | SysOk _ \<Rightarrow>
                  let key = ftok_key (kern w) f
                  in if key = - 1 then Some (- 1, w) else Some (key, w)
            }
          }
        })"

section \<open>Segments\<close>

definition shm_create :: "int \<Rightarrow> nat \<Rightarrow> os \<Rightarrow> (int \<times> os) option" where
  "shm_create key sz w = do {
     (r, w) \<leftarrow> sync w;
     case r of
       SysErr _ \<Rightarrow> Some (- 1, w)
     | SysOk i \<Rightarrow>
         if 0 \<le> i \<and> shm_keys (kern w) key = None \<and> shm_segs (kern w) i = None
         then Some (i, w\<lparr>kern := (kern w)\<lparr>shm_keys := (shm_keys (kern w))(key \<mapsto> i),
                                           shm_segs := (shm_segs (kern w))(i \<mapsto> sz)\<rparr>\<rparr>)
         else Some (- 1, w)
   }"

definition shm_get :: "int \<Rightarrow> os \<Rightarrow> (int \<times> os) option" where
  "shm_get key w = do {
     (r, w) \<leftarrow> sync w;
     case r of
       SysErr _ \<Rightarrow> Some (- 1, w)
     | SysOk _ \<Rightarrow>
         (case shm_keys (kern w) key of None \<Rightarrow> Some (- 1, w) | Some i \<Rightarrow> Some (i, w))
   }"

definition shm_attach :: "int \<Rightarrow> os \<Rightarrow> (int option \<times> os) option" where
  "shm_attach shm_id w = do {
     (r, w) \<leftarrow> sync w;
     case r of
       SysErr _ \<Rightarrow> Some (None, w)
     | SysOk _ \<Rightarrow>
         if shm_segs (kern w) shm_id = None then Some (None, w)
         else Some (Some shm_id, w\<lparr>kern := (kern w)\<lparr>attached := shm_id # attached (kern w)\<rparr>\<rparr>)
   }"

definition shm_detach :: "int \<Rightarrow> os \<Rightarrow> (int \<times> os) option" where
  "shm_detach addr w = do {
     (r, w) \<leftarrow> sync w;
     case r of
       SysErr _ \<Rightarrow> Some (- 1, w)
     | SysOk _ \<Rightarrow>
         if addr \<in> set (attached (kern w))
         then Some (0, w\<lparr>kern := (kern w)\<lparr>attached := remove1 addr (attached (kern w))\<rparr>\<rparr>)
         else Some (- 1, w)
   }"

text \<open>\<open>IPC_RMID\<close>: the identifier is gone for everybody else at once.\<close>

definition shm_destroy :: "int \<Rightarrow> os \<Rightarrow> (int \<times> os) option" where
  "shm_destroy shm_id w = do {
     (r, w) \<leftarrow> sync w;
     case r of
       SysErr _ \<Rightarrow> Some (- 1, w)
     | SysOk _ \<Rightarrow>
         if shm_segs (kern w) shm_id = None then Some (- 1, w)
         else Some (0, w\<lparr>kern := (kern w)\<lparr>shm_keys :=
                  (\<lambda>k. if shm_keys (kern w) k = Some shm_id then None else shm_keys (kern w) k),
                shm_segs := (shm_segs (kern w))(shm_id := None)\<rparr>\<rparr>)
   }"

section \<open>Behaviour\<close>

text \<open>None of these touches the swarm, the semaphores or the private view of a process:
  \<open>calms_kern\<close> is \<open>calms\<close> up to the tables of the kernel.\<close>

definition calms_kern :: "budget \<Rightarrow> nat \<Rightarrow> os \<Rightarrow> os \<Rightarrow> bool" where
  "calms_kern f n w w' \<longleftrightarrow> calms f n w (w'\<lparr>kern := kern w\<rparr>)"

lemma calms_kern_update: "calms f n w w' \<Longrightarrow> calms_kern f n w (w'\<lparr>kern := k\<rparr>)"
  by (simp add: calms_kern_def calms_def calm_def view_kept_def battery_ok_def funded_def
      split: option.splits)

lemma calms_calms_kern: "calms f n w w' \<Longrightarrow> calms_kern f n w w'"
  using calms_kern_update [of f n w w' "kern w'"] by simp

lemma grab_key_wp [wp_rules]:
  assumes "funded f w" and has: "has 3 f" and Q: "\<And>r w'. calms f 3 w w' \<Longrightarrow> Q r w'"
  shows "outc (f = None) (grab_key_from_file name w) Q"
proof (cases name)
  case None
  then show ?thesis
    using Q [OF calms_mono [OF calms_refl [OF assms(1)]]] by (simp add: grab_key_from_file_def)
next
  case (Some n)
  have early: "Q r w'" if "calms f m w w'" "m \<le> 3" for m r w'
    by (rule Q [OF calms_mono [OF that]])
  have budget: "has (0 + 1) f" "has (0 + 1 + 1) f" "has (0 + 1 + 1 + 1) f"
    by (rule has_mono [OF has], simp)+
  have third: "outc (f = None) (sync w2) (\<lambda>r s. outc (f = None)
      (case r of SysErr _ \<Rightarrow> Some (- 1, s)
       | SysOk _ \<Rightarrow> let key = ftok_key (kern s) n in if key = - 1 then Some (- 1, s) else Some (key, s)) Q)"
    if "calms f (0 + 1 + 1) w w2" for w2
    by (rule sync_next_wp [OF that budget(3)]) (auto simp: Let_def early split: sysret.splits)
  show ?thesis
    unfolding grab_key_from_file_def Some option.case outc_bind prod.case outc_if
  proof (rule plain_call_next_wp [OF calms_refl [OF assms(1)] budget(1)], goal_cases)
    case (1 r w1)
    have "outc (f = None) (plain_call w1) (\<lambda>r s. (r = - 1 \<longrightarrow> Q (- 1) s) \<and> (r \<noteq> - 1 \<longrightarrow>
        outc (f = None) (sync s) (\<lambda>r s. outc (f = None)
      (case r of SysErr _ \<Rightarrow> Some (- 1, s)
       | SysOk _ \<Rightarrow> let key = ftok_key (kern s) n in if key = - 1 then Some (- 1, s) else Some (key, s)) Q)))"
      by (rule plain_call_next_wp [OF 1 budget(2)]) (use third early [of "0 + 1 + 1"] in auto)
    with early [OF 1] show ?case by simp
  qed
qed

lemma shm_get_wp [wp_rules]:
  assumes "funded f w" and "has 1 f" and "\<And>r w'. calms f 1 w w' \<Longrightarrow> Q r w'"
  shows "outc (f = None) (shm_get key w) Q"
  unfolding shm_get_def outc_bind
  by (rule sync_wp [OF assms(1,2)]) (use assms(3) in \<open>simp split: option.splits sysret.splits\<close>)

lemma shm_attach_wp [wp_rules]:
  assumes "funded f w" and "has 1 f" and "\<And>r w'. calms_kern f 1 w w' \<Longrightarrow> Q r w'"
  shows "outc (f = None) (shm_attach i w) Q"
  unfolding shm_attach_def outc_bind
  by (rule sync_wp [OF assms(1,2)])
    (use assms(3) in \<open>simp add: calms_calms_kern calms_kern_update split: sysret.splits\<close>)

lemma shm_detach_wp [wp_rules]:
  assumes "funded f w" and "has 1 f" and "\<And>r w'. calms_kern f 1 w w' \<Longrightarrow> Q r w'"
  shows "outc (f = None) (shm_detach i w) Q"
  unfolding shm_detach_def outc_bind
  by (rule sync_wp [OF assms(1,2)])
    (use assms(3) in \<open>simp add: calms_calms_kern calms_kern_update split: sysret.splits\<close>)

text \<open>Processes that ask for the key of the same file get the same key.\<close>

lemma grab_key_result:
  "wp (grab_key_from_file (Some f) w) (\<lambda>k w'. k = - 1 \<or> k = ftok_key (kern w) f)"
  by (auto simp: grab_key_from_file_def Let_def plain_call_def split: sysret.splits
      intro!: sync_wp [where f = None, simplified] simp: calm_def)

end
