(* ===== verification/Client.thy ===== *)
theory Client
  imports Semaphore Segments
begin

text \<open>
  What the three programs that use the table of drones share: how they attach to the shared
  memory (the function \<open>get_shm_all_drones_data\<close> that \<^verbatim>\<open>dron.c\<close>, \<^verbatim>\<open>operator.c\<close> and
  \<^verbatim>\<open>system_commander.c\<close> each contain), and the states of a process with respect to the
  semaphore of the table.
\<close>

section \<open>Attaching to the shared memory\<close>

record attachments =
  at_shm :: "int option"
  at_shm_id :: int
  at_stack :: "int option"
  at_stack_id :: int
  at_sem_id :: int

definition no_attachments :: attachments where
  "no_attachments = \<lparr>at_shm = None, at_shm_id = - 1, at_stack = None, at_stack_id = - 1, at_sem_id = - 1\<rparr>"

text \<open>The copies differ in one place: whether a missing key file of the stack is an error
  (\<open>strict\<close>) or only reported.\<close>

definition get_shm_all_drones_data ::
  "bool \<Rightarrow> attachments \<Rightarrow> os \<Rightarrow> (int \<times> attachments \<times> os) option" where
  "get_shm_all_drones_data strict t w = do {
     (key, w) \<leftarrow> grab_key_from_file (Some ''dron_info_key'') w;
     if key < 0 then Some (- 1, t, w)
     else do {
       (i, w) \<leftarrow> shm_get key w;
       let t = t\<lparr>at_shm_id := i\<rparr>;
       if i < 0 then Some (- 1, t, w)
       else do {
         (addr, w) \<leftarrow> shm_attach i w;
         let t = t\<lparr>at_shm := addr\<rparr>;
         if addr = None then Some (- 1, t, w)
         else do {
           (stack_key, w) \<leftarrow> grab_key_from_file (Some ''stack_key'') w;
           if stack_key < 0 \<and> strict then Some (- 1, t, w)
           else do {
             (j, w) \<leftarrow> shm_get stack_key w;
             let t = t\<lparr>at_stack_id := j\<rparr>;
             if j < 0 then Some (- 1, t, w)
             else do {
               (addr', w) \<leftarrow> shm_attach j w;
               let t = t\<lparr>at_stack := addr'\<rparr>;
               if addr' = None then Some (- 1, t, w)
               else do {
                 (sid, w) \<leftarrow> semaphore_get key w;
                 let t = t\<lparr>at_sem_id := sid\<rparr>;
                 if sid < 0 then Some (- 1, t, w) else Some (0, t, w)
               }
             }
           }
         }
       }
     }
   }"

text \<open>Reading the configuration: the part that \<open>get_initial_configuration\<close> of the drone and
  \<open>get_configuration_from_shm_config\<close> of the operator have in common, up to the test \<open>bad\<close> on
  identifiers.  The result is the copy of the configuration, \<open>None\<close> if the function returns
  \<open>-1\<close>.\<close>

definition read_configuration :: "int \<Rightarrow> int \<Rightarrow> os \<Rightarrow> (SHM_Configuration option \<times> os) option" where
  "read_configuration sid p w = do {
     (r, w) \<leftarrow> semaphore_lock sid w;
     if r = - 1 then do {
       (_, w) \<leftarrow> shm_detach p w;
       Some (None, w)
     } else do {
       let cfg = config (sw w);
       (r, w) \<leftarrow> semaphore_unlock sid w;
       if r = - 1 then do {
         (_, w) \<leftarrow> shm_detach p w;
         Some (None, w)
       } else do {
         (r, w) \<leftarrow> shm_detach p w;
         if r \<noteq> 0 then Some (None, w) else Some (Some cfg, w)
       }
     }
   }"

definition fetch_configuration :: "(int \<Rightarrow> bool) \<Rightarrow> os \<Rightarrow> (SHM_Configuration option \<times> os) option" where
  "fetch_configuration bad w = do {
     (key, w) \<leftarrow> grab_key_from_file (Some ''config_key'') w;
     if key < 0 then Some (None, w)
     else do {
       (i, w) \<leftarrow> shm_get key w;
       if bad i then Some (None, w)
       else do {
         (sid, w) \<leftarrow> semaphore_get key w;
         if bad sid then Some (None, w)
         else do {
           (addr, w) \<leftarrow> shm_attach i w;
           case addr of
             None \<Rightarrow> Some (None, w)
           | Some p \<Rightarrow> read_configuration sid p w
         }
       }
     }
   }"

text \<open>The first part of \<open>close_main\<close> of the drone and of the operator.  The results of
  \<open>shm_detach\<close> are only reported.\<close>

definition detach_table :: "attachments \<Rightarrow> os \<Rightarrow> (attachments \<times> os) option" where
  "detach_table t w =
     (case at_shm t of
        Some addr \<Rightarrow>
          if at_shm_id t > - 1 then do {
            (_, w) \<leftarrow> shm_detach addr w;
            Some (t\<lparr>at_shm := None, at_shm_id := - 1\<rparr>, w)
          } else Some (t, w)
      | None \<Rightarrow> Some (t, w))"

definition detach_stack :: "attachments \<Rightarrow> os \<Rightarrow> (attachments \<times> os) option" where
  "detach_stack t w =
     (case at_stack t of
        Some addr \<Rightarrow>
          if at_stack_id t > - 1 then do {
            (_, w) \<leftarrow> shm_detach addr w;
            Some (t\<lparr>at_stack := None, at_stack_id := - 1\<rparr>, w)
          } else Some (t, w)
      | None \<Rightarrow> Some (t, w))"

definition detach_attached :: "attachments \<Rightarrow> os \<Rightarrow> (attachments \<times> os) option" where
  "detach_attached t w = do {
     (t, w) \<leftarrow> detach_table t w;
     detach_stack t w
   }"

section \<open>States of a process\<close>

text \<open>What is left when a handler fails or the process ends: the swarm is in order, and the
  semaphore is free or will be when the process is gone.\<close>

definition safe_at :: "budget \<Rightarrow> nat \<Rightarrow> swarm \<Rightarrow> int \<Rightarrow> os \<Rightarrow> bool" where
  "safe_at f n si sid w \<longleftrightarrow>
     swarm_reach si (sw w) \<and> swarm_ok (sw w) \<and> drones_sem w = sid \<and> funded (spend n f) w \<and>
     (\<exists>v. sems w sid = Some v \<and> 0 \<le> v \<and> v + semadj w sid = 1)"

lemma calms_step: "calms (spend n f) k w w' \<Longrightarrow> funded (spend (n + k) f) w'"
  by (simp add: calms_def)

lemma safe_at_mono: "safe_at f m si sid w \<Longrightarrow> m \<le> n \<Longrightarrow> safe_at f n si sid w"
  by (auto simp: safe_at_def intro: funded_mono)

lemma safe_at_calms:
  assumes "safe_at f n si sid w" and "calms (spend n f) k w w'"
  shows "safe_at f (n + k) si sid w'"
  using assms reach_trans [of "sw w" "sw w'" si] by (auto simp: safe_at_def calms_def calm_def)

lemma safe_at_calms_kern:
  "safe_at f n si sid w \<Longrightarrow> calms_kern (spend n f) k w w' \<Longrightarrow> safe_at f (n + k) si sid w'"
  using safe_at_calms [of f n si sid w k "w'\<lparr>kern := kern w\<rparr>"]
  by (simp add: calms_kern_def safe_at_def)

text \<open>A call that starts after \<open>n\<close> calls on the budget \<open>f\<close>.\<close>

lemma after_calls: "outc (spend n f = None) x Q \<Longrightarrow> outc (f = None) x Q"
  by simp

text \<open>A process that owns no slot and holds the semaphore of the table or not.\<close>

definition gone_at :: "budget \<Rightarrow> nat \<Rightarrow> swarm \<Rightarrow> int \<Rightarrow> bool \<Rightarrow> os \<Rightarrow> bool" where
  "gone_at f n si sid locked w \<longleftrightarrow>
     swarm_reach si (sw w) \<and> swarm_ok (sw w) \<and> drones_sem w = sid \<and>
     sems w sid = Some (if locked then 0 else 1) \<and> semadj w sid = (if locked then 1 else 0) \<and>
     funded (spend n f) w"

lemma gone_at_calms:
  "gone_at f n si sid lk w \<Longrightarrow> calms (spend n f) k w w' \<Longrightarrow> gone_at f (n + k) si sid lk w'"
  using reach_trans [of "sw w" "sw w'" si] by (auto simp: gone_at_def calms_def calm_def)

lemma gone_at_safe: "gone_at f n si sid lk w \<Longrightarrow> safe_at f n si sid w"
  by (auto simp: gone_at_def safe_at_def)

lemma unlock_gone_wp:
  assumes at: "gone_at f n si sid True w" and "has (n + 1) f"
    and fail: "\<And>w'. gone_at f (n + 1) si sid True w' \<Longrightarrow> Q (- 1) w'"
    and ok: "\<And>w'. gone_at f (n + 1) si sid False w' \<Longrightarrow> Q 0 w'"
  shows "outc (f = None) (semaphore_unlock sid w) Q"
proof (rule after_calls, rule unlock.retried_wp)
  show "funded (spend n f) w" "has 1 (spend n f)" "sem_can sid 1 w"
    using at assms(2) by (simp_all add: gone_at_def sem_can_def)
  fix w' assume "calms (spend n f) 1 w w'"
  with at have at': "gone_at f (n + 1) si sid True w'" by (rule gone_at_calms)
  then show "Q (- 1) w'" by (rule fail)
  assume "sem_can sid 1 w'"
  with at' have "gone_at f (n + 1) si sid False (sem_eff sid 1 w')"
    by (auto simp: gone_at_def sem_eff_def sem_add_def)
  then show "Q 0 (sem_eff sid 1 w')" by (rule ok)
qed

lemma lock_gone_wp:
  assumes at: "gone_at f n si sid False w" and "has (n + 1) f"
    and fail: "\<And>w'. calms (spend n f) 1 w w' \<Longrightarrow> gone_at f (n + 1) si sid False w' \<Longrightarrow> Q (- 1) w'"
    and ok: "\<And>w'. config (sw w') = config (sw w) \<Longrightarrow> gone_at f (n + 1) si sid True w' \<Longrightarrow> Q 0 w'"
  shows "outc (f = None) (semaphore_lock sid w) Q"
proof (rule after_calls, rule lock.retried_wp)
  show "funded (spend n f) w" "has 1 (spend n f)" "sem_can sid (- 1) w"
    using at assms(2) by (simp_all add: gone_at_def sem_can_def)
  fix w' assume step: "calms (spend n f) 1 w w'"
  with at have at': "gone_at f (n + 1) si sid False w'" by (rule gone_at_calms)
  with step show "Q (- 1) w'" by (rule fail)
  assume "sem_can sid (- 1) w'"
  with at' have "gone_at f (n + 1) si sid True (sem_eff sid (- 1) w')"
    by (auto simp: gone_at_def sem_eff_def sem_add_def)
  moreover have "config (sw (sem_eff sid (- 1) w')) = config (sw w)"
    using step by (simp add: calms_def calm_def sem_eff_def sem_add_def)
  ultimately show "Q 0 (sem_eff sid (- 1) w')" by (intro ok)
qed

text \<open>A change of the swarm by such a process is an action.\<close>

lemma gone_action: "gone_at f n si sid lk w \<Longrightarrow> gone_at f n si sid lk (w\<lparr>sw := exec_act a (sw w)\<rparr>)"
  by (auto simp: gone_at_def intro: exec_act_ok swarm_reach.intros)

lemma gone_None [simp]: "gone_at None n si sid lk w \<longleftrightarrow> gone_at None 0 si sid lk w" if "0 < n"
  by (simp add: gone_at_def)

lemma safe_None [simp]: "safe_at None n si sid w \<longleftrightarrow> safe_at None 0 si sid w" if "0 < n"
  by (simp add: safe_at_def)

section \<open>Ending the process\<close>

definition ended_at :: "swarm \<Rightarrow> int \<Rightarrow> os \<Rightarrow> bool" where
  "ended_at si sid w \<longleftrightarrow>
     swarm_reach si (sw w) \<and> swarm_ok (sw w) \<and> sems w sid = Some 1 \<and> semadj w sid = 0"

lemma safe_at_exit: "safe_at f n si sid w \<Longrightarrow> ended_at si sid (process_exit w)"
  by (auto simp: safe_at_def ended_at_def process_exit_def)

lemma safe_funded: "safe_at f n si sid w \<Longrightarrow> funded (spend n f) w"
  by (simp add: safe_at_def)

lemma detach_wp:
  assumes at: "safe_at f n si sid w" and "has (n + 1) f"
    and "\<And>r w'. safe_at f (n + 1) si sid w' \<Longrightarrow> Q r w'"
  shows "outc (f = None) (shm_detach addr w) Q"
  by (rule after_calls, rule shm_detach_wp)
    (use assms safe_at_calms_kern [OF at, of 1] in \<open>auto simp: safe_funded\<close>)

lemma detach_table_wp:
  assumes "safe_at f n si sid w" and "has (n + 1) f"
    and Q: "\<And>t' w'. safe_at f (n + 1) si sid w' \<Longrightarrow> Q t' w'"
  shows "outc (f = None) (detach_table t w) Q"
  using Q [OF safe_at_mono [OF assms(1)]] Q
  by (auto simp: detach_table_def split: option.splits intro!: detach_wp [OF assms(1,2)])

lemma detach_stack_wp:
  assumes "safe_at f n si sid w" and "has (n + 1) f"
    and Q: "\<And>t' w'. safe_at f (n + 1) si sid w' \<Longrightarrow> Q t' w'"
  shows "outc (f = None) (detach_stack t w) Q"
  using Q [OF safe_at_mono [OF assms(1)]] Q
  by (auto simp: detach_stack_def split: option.splits intro!: detach_wp [OF assms(1,2)])

lemma detach_attached_wp:
  assumes "safe_at f n si sid w" and has: "has (n + 2) f"
    and Q: "\<And>t' w'. safe_at f (n + 2) si sid w' \<Longrightarrow> Q t' w'"
  shows "outc (f = None) (detach_attached t w) Q"
proof -
  have "has (n + 1) f" "has (n + 1 + 1) f" by (rule has_mono [OF has], simp)+
  then show ?thesis
    unfolding detach_attached_def outc_bind prod.case
    using Q by (intro detach_table_wp [OF assms(1)] detach_stack_wp [of f "n + 1" si sid])
      (auto simp: numeral_2_eq_2)
qed

end
