(* ===== verification/Parsing.thy ===== *)
theory Parsing
  imports Prelude
begin

text \<open>
  Numbers on command lines: \<open>strtol\<close> in base 10 and the conversion \<open>%d\<close> of the C library,
  as far as the program uses them, and the three copies of \<open>parse_positive_int\<close>.  The round
  trip theorem is what makes a location or a process id survive the way through \<open>execl\<close> into
  the argument vector of the next program.
\<close>

section \<open>The C library\<close>

definition isspace :: "char \<Rightarrow> bool" where
  "isspace c \<longleftrightarrow> (of_char c = (32 :: nat) \<or> 9 \<le> (of_char c :: nat) \<and> (of_char c :: nat) \<le> 13)"

definition isdigit :: "char \<Rightarrow> bool" where
  "isdigit c \<longleftrightarrow> 48 \<le> (of_char c :: nat) \<and> (of_char c :: nat) \<le> 57"

definition digit_value :: "char \<Rightarrow> int" where
  "digit_value c = of_char c - 48"

definition digits_value :: "string \<Rightarrow> int" where
  "digits_value ds = foldl (\<lambda>n c. 10 * n + digit_value c) 0 ds"

definition split_sign :: "string \<Rightarrow> bool \<times> string" where
  "split_sign s =
     (case s of
        [] \<Rightarrow> (False, [])
      | c # cs \<Rightarrow> if c = CHR ''-'' then (True, cs) else if c = CHR ''+'' then (False, cs) else (False, s))"

text \<open>\<open>strtol (s, &end, 10)\<close>: the value, the text from \<open>end\<close> on, and whether \<open>errno\<close> was set.\<close>

definition strtol :: "string \<Rightarrow> int \<times> string \<times> bool" where
  "strtol s =
     (let (neg, t) = split_sign (dropWhile isspace s);
          ds = takeWhile isdigit t;
          rest = dropWhile isdigit t;
          v = (if neg then - digits_value ds else digits_value ds)
      in if ds = [] then (0, s, False)
         else if v > LONG_MAX then (LONG_MAX, rest, True)
         else if v < LONG_MIN then (LONG_MIN, rest, True)
         else (v, rest, False))"

definition digit_char :: "nat \<Rightarrow> char" where
  "digit_char d = char_of (48 + d)"

fun show_nat :: "nat \<Rightarrow> string" where
  "show_nat n = (if n < 10 then [digit_char n] else show_nat (n div 10) @ [digit_char (n mod 10)])"

declare show_nat.simps [simp del]

text \<open>\<open>%d\<close>\<close>

definition show_int :: "int \<Rightarrow> string" where
  "show_int i = (if i < 0 then CHR ''-'' # show_nat (nat (- i)) else show_nat (nat i))"

section \<open>parse\_positive\_int\<close>

text \<open>The result \<open>None\<close> is \<open>exit (EXIT_FAILURE)\<close>.\<close>

definition main_parse_positive_int :: "string \<Rightarrow> int \<Rightarrow> int option" where
  "main_parse_positive_int arg max_value =
     (let (v, rest, err) = strtol arg
      in if err \<or> rest \<noteq> [] \<or> v \<le> 0 then None
         else if v > max_value then None
         else if v > INT_MAX then None
         else Some v)"

definition dron_parse_positive_int :: "string \<Rightarrow> int option" where
  "dron_parse_positive_int arg =
     (let (v, rest, err) = strtol arg
      in if err \<or> rest \<noteq> [] \<or> v \<le> 0 \<or> v > INT_MAX then None else Some v)"

definition commander_parse_positive_int :: "string \<Rightarrow> int option" where
  "commander_parse_positive_int arg =
     (let (v, rest, err) = strtol arg
      in if err \<or> rest \<noteq> [] \<or> v \<le> 0 \<or> v > INT_MAX then None else Some v)"

section \<open>Round trip\<close>

lemma of_digit_char: "d < 10 \<Longrightarrow> of_char (digit_char d) = (48 + d :: nat)"
  by (simp add: digit_char_def)

lemma isdigit_digit_char [simp]: "d < 10 \<Longrightarrow> isdigit (digit_char d)"
  by (simp add: isdigit_def of_digit_char)

lemma digit_value_digit_char [simp]: "d < 10 \<Longrightarrow> digit_value (digit_char d) = int d"
proof -
  assume "d < 10"
  then have "(of_char (digit_char d) :: int) = int (48 + d)"
    by (metis of_char_of of_digit_char of_nat_of_char)
  then show ?thesis by (simp add: digit_value_def)
qed

lemma show_nat_digits: "\<forall>c \<in> set (show_nat n). isdigit c"
proof (induction n rule: show_nat.induct)
  case (1 n)
  then show ?case by (cases "n < 10") (auto simp: show_nat.simps [of n])
qed

lemma show_nat_value: "digits_value (show_nat n) = int n"
proof (induction n rule: show_nat.induct)
  case (1 n)
  then show ?case
    by (cases "n < 10") (auto simp: show_nat.simps [of n] digits_value_def zdiv_int zmod_int)
qed

lemma show_nat_nonempty [simp]: "show_nat n \<noteq> []"
  by (subst show_nat.simps) simp

lemma show_nat_hd: "isdigit (hd (show_nat n))"
  using show_nat_digits [of n] by (simp add: hd_in_set)

lemma show_nat_length_le: "n < 10 ^ k \<Longrightarrow> 0 < k \<Longrightarrow> length (show_nat n) \<le> k"
proof (induction n arbitrary: k rule: show_nat.induct)
  case (1 n)
  show ?case
  proof (cases "n < 10")
    case True
    with 1 show ?thesis by (simp add: show_nat.simps [of n])
  next
    case False
    then obtain j where k: "k = Suc j" "0 < j"
      using 1(2,3) by (cases k; cases "k - 1") auto
    with 1(2) have "n div 10 < 10 ^ j" by simp
    with 1(1) [OF False] k False show ?thesis by (simp add: show_nat.simps [of n])
  qed
qed

lemma strtol_show_nat:
  assumes "int n \<le> LONG_MAX"
  shows "strtol (show_nat n) = (int n, [], False)"
proof -
  obtain c cs where s: "show_nat n = c # cs" by (cases "show_nat n") auto
  with show_nat_hd [of n] have "isdigit c" by simp
  then have "\<not> isspace c" and "c \<noteq> CHR ''-''" and "c \<noteq> CHR ''+''"
    by (auto simp: isdigit_def isspace_def)
  then have "split_sign (dropWhile isspace (show_nat n)) = (False, show_nat n)"
    by (simp add: s split_sign_def)
  moreover have tw: "takeWhile isdigit (show_nat n) = show_nat n"
      "dropWhile isdigit (show_nat n) = []"
    using show_nat_digits by auto
  ultimately show ?thesis
    using assms by (simp add: strtol_def Let_def tw show_nat_value LONG_MIN_def)
qed

lemma strtol_show_int: "0 \<le> i \<Longrightarrow> i \<le> LONG_MAX \<Longrightarrow> strtol (show_int i) = (i, [], False)"
  by (simp add: show_int_def strtol_show_nat)

end
