(* ===== verification/Dron.thy ===== *)
theory Dron
  imports Client Parsing
begin

text \<open>
  The drone process, \<^verbatim>\<open>src/src/dron/dron.c\<close>.  The record \<open>dron\<close> holds the global variables
  of the process; the field \<open>sys\<close> is the part the environment can change (theory
  \<open>Process\<close>).  The handlers follow the code branch by branch; output is left out.  A handler
  that may end the process returns a \<open>status\<close>.

  The theory \<open>Dron_Props\<close> shows what the handlers do under every behaviour of the other
  processes.
\<close>

section \<open>State\<close>

record DronInternalData =
  my_id :: int
  my_index :: int
  maximum_charge_time :: int
  loading_cycles_left :: int
  have_reserved_space :: int
  gate_time_to_pass :: int
  work_interval :: int
  location :: DronData_Location

record BatteryThreadArgs =
  charge_interval :: int
  usage_interval :: int

record dron =
  sys :: os
  internal :: DronInternalData
  local_data :: DronData
  starting_location :: DronData_Location
  att :: attachments
  gate_semaphore_id :: int
  fifo_sem :: FIFO_SEM

definition on_sys :: "(os \<Rightarrow> ('r \<times> os) option) \<Rightarrow> dron \<Rightarrow> ('r \<times> dron) option" where
  "on_sys f w = do { (r, s) \<leftarrow> f (sys w); Some (r, w\<lparr>sys := s\<rparr>) }"

text \<open>\<open>shm_all_drones_data_semaphore_id\<close>\<close>

abbreviation dron_sem_id :: "dron \<Rightarrow> int" where
  "dron_sem_id w \<equiv> at_sem_id (att w)"

text \<open>The shared data, as the critical sections read and write it.\<close>

abbreviation table :: "dron \<Rightarrow> SHM_AllDronesData" where
  "table w \<equiv> all_drones (sw (sys w))"

definition set_sw :: "swarm \<Rightarrow> dron \<Rightarrow> dron" where
  "set_sw s w = w\<lparr>sys := (sys w)\<lparr>sw := s\<rparr>\<rparr>"

definition set_internal :: "(DronInternalData \<Rightarrow> DronInternalData) \<Rightarrow> dron \<Rightarrow> dron" where
  "set_internal f w = w\<lparr>internal := f (internal w)\<rparr>"

section \<open>Ending the process\<close>

definition close_gate_fifo :: "dron \<Rightarrow> (unit \<times> dron) option" where
  "close_gate_fifo w =
     (if fs_file_descriptor (fifo_sem w) > 0 then do {
        (_, _, s) \<leftarrow> fifo_sem_close (Some (fifo_sem w)) (sys w);
        Some ((), w\<lparr>sys := s,
          fifo_sem := \<lparr>fs_path = '''', fs_file_descriptor = - 1, fs_capacity = 0\<rparr>\<rparr>)
      } else Some ((), w))"

definition join_battery :: "dron \<Rightarrow> (unit \<times> dron) option" where
  "join_battery w =
     (if battery_working (sys w) then do {
        (_, w) \<leftarrow> on_sys sync (w\<lparr>sys := (sys w)\<lparr>battery_working := False, battery_created := False\<rparr>\<rparr>);
        Some ((), w)
      } else Some ((), w))"

definition dron_close_main :: "int \<Rightarrow> dron \<Rightarrow> (status \<times> dron) option" where
  "dron_close_main exit_code w = do {
     (t, s) \<leftarrow> detach_attached (att w) (sys w);
     let w = w\<lparr>att := t, sys := s\<rparr>;
     (_, w) \<leftarrow> close_gate_fifo w;
     let w = w\<lparr>att := (att w)\<lparr>at_sem_id := - 1\<rparr>, gate_semaphore_id := - 1\<rparr>;
     (_, w) \<leftarrow> join_battery w;
     Some (Exited exit_code, w\<lparr>sys := process_exit (sys w)\<rparr>)
   }"

section \<open>Start-up\<close>

definition dron_get_shm_all_drones_data :: "dron \<Rightarrow> (int \<times> dron) option" where
  "dron_get_shm_all_drones_data w = do {
     (r, t, s) \<leftarrow> get_shm_all_drones_data True (att w) (sys w);
     Some (r, w\<lparr>att := t, sys := s\<rparr>)
   }"

definition get_gate_semaphore :: "dron \<Rightarrow> (int \<times> dron) option" where
  "get_gate_semaphore w = do {
     (gate_key, w) \<leftarrow> on_sys (grab_key_from_file (Some ''gate_key'')) w;
     if gate_key < 0 then Some (- 1, w)
     else do {
       (sid, w) \<leftarrow> on_sys (semaphore_get gate_key) w;
       let w = w\<lparr>gate_semaphore_id := sid\<rparr>;
       if sid < 0 then Some (- 1, w) else Some (0, w)
     }
   }"

definition initial_internal_data :: "SHM_Configuration \<Rightarrow> DronData_Location \<Rightarrow> DronInternalData" where
  "initial_internal_data cfg loc =
     \<lparr>my_id = 0, my_index = - 1, maximum_charge_time = cfg_maximum_charge_time cfg,
      loading_cycles_left = max_loading_cycles cfg, have_reserved_space = 0,
      gate_time_to_pass = cfg_gate_time_to_pass cfg, work_interval = dron_work_interval cfg,
      location = loc\<rparr>"

definition get_initial_configuration :: "dron \<Rightarrow> (int \<times> dron) option" where
  "get_initial_configuration w = do {
     (cfg, w) \<leftarrow> on_sys (fetch_configuration (\<lambda>i. i < 0)) w;
     case cfg of
       None \<Rightarrow> Some (- 1, w)
     | Some c \<Rightarrow>
         Some (0, w\<lparr>internal := initial_internal_data c (starting_location w),
           sys := (sys w)\<lparr>is_charging := (starting_location w \<noteq> LOCATION_MISSION)\<rparr>\<rparr>)
   }"

definition get_gate_fifo_sem :: "dron \<Rightarrow> (int \<times> dron) option" where
  "get_gate_fifo_sem w = do {
     (r, f, s) \<leftarrow> fifo_sem_get (Some (fifo_sem w)) (Some ''/tmp/gate_fifo'') (sys w);
     let w = w\<lparr>sys := s, fifo_sem := (case f of None \<Rightarrow> fifo_sem w | Some f' \<Rightarrow> f')\<rparr>;
     if r \<noteq> 0 then Some (- 1, w) else Some (0, w)
   }"

text \<open>\<open>argv\<close> without the program name; \<open>None\<close> is \<open>exit (EXIT_FAILURE)\<close>.\<close>

definition process_argv_location :: "string list \<Rightarrow> DronData_Location option" where
  "process_argv_location args =
     (case args of
        [] \<Rightarrow> None
      | a # _ \<Rightarrow> map_option location_of_int (dron_parse_positive_int a))"

definition try_adding_self_to_shm :: "dron \<Rightarrow> (int \<times> dron) option" where
  "try_adding_self_to_shm w = do {
     (r, w) \<leftarrow> on_sys (semaphore_lock (dron_sem_id w)) w;
     if r = - 1 then Some (- 1, w)
     else if has_room (table w) \<or> dd_location (local_data w) = LOCATION_MISSION then do {
       (i, s) \<leftarrow> swarm_add (local_data w) (sw (sys w));
       let w = set_internal (\<lambda>d. d\<lparr>my_index := i\<rparr>) (set_sw s w);
       let (n, s) = swarm_next_id (sw (sys w));
       let w = set_internal (\<lambda>d. d\<lparr>my_id := n\<rparr>) (set_sw s w);
       if i = - 1 then Some (- 1, w)
       else do {
         let w = w\<lparr>sys := (sys w)\<lparr>me := Some i\<rparr>\<rparr> \<comment> \<open>ghost: the slot is ours\<close>;
         (r, w) \<leftarrow> on_sys (semaphore_unlock (dron_sem_id w)) w;
         if r = - 1 then Some (- 1, w) else Some (0, w)
       }
     } else Some (- 1, w)
   }"

section \<open>The life of a drone\<close>

text \<open>\<open>pthread_mutex_lock (&m); x = battery_percentage; pthread_mutex_unlock (&m)\<close>\<close>

definition read_battery :: "dron \<Rightarrow> (int \<times> dron) option" where
  "read_battery w = do {
     (_, w) \<leftarrow> on_sys sync w;
     Some (battery_percentage (sys w), w)
   }"

definition usleep :: "dron \<Rightarrow> (unit \<times> dron) option" where
  "usleep w = do { (_, w) \<leftarrow> on_sys sync w; Some ((), w) }"

definition pass_the_gate :: "dron \<Rightarrow> (int \<times> dron) option" where
  "pass_the_gate w = do {
     (r, w) \<leftarrow> on_sys (semaphore_lock (gate_semaphore_id w)) w;
     if r = - 1 then Some (- 1, w)
     else do {
       (_, w) \<leftarrow> usleep w;
       (r, w) \<leftarrow> on_sys (semaphore_unlock (gate_semaphore_id w)) w;
       if r = - 1 then Some (- 1, w) else Some (0, w)
     }
   }"

definition pass_the_gate_fifo :: "dron \<Rightarrow> (int \<times> dron) option" where
  "pass_the_gate_fifo w = do {
     (rc, w) \<leftarrow> on_sys (fifo_sem_lock_timeout (Some (fifo_sem w)) 100) w;
     if rc = 1 then Some (1, w)
     else if rc = - 1 then Some (- 1, w)
     else do {
       (_, w) \<leftarrow> usleep w;
       (r, w) \<leftarrow> on_sys (fifo_sem_unlock (Some (fifo_sem w))) w;
       if r = - 1 then Some (- 1, w) else Some (0, w)
     }
   }"

text \<open>The call of \<open>SHM_AllDronesData_delete_drone\<close> the handlers share; its result is not
  used.\<close>

definition delete_self :: "DronData_DESTRUCTION_REASON \<Rightarrow> dron \<Rightarrow> (unit \<times> dron) option" where
  "delete_self reason w = do {
     (_, s) \<leftarrow> swarm_delete (my_index (internal w)) (have_reserved_space (internal w)) reason
       (sw (sys w));
     Some ((), set_sw s w)
   }"

text \<open>Lock, delete, unlock, and end the process.\<close>

definition leave_swarm :: "DronData_DESTRUCTION_REASON \<Rightarrow> dron \<Rightarrow> (status \<times> dron) option" where
  "leave_swarm reason w = do {
     (r, w) \<leftarrow> on_sys (semaphore_lock (dron_sem_id w)) w;
     if r = - 1 then Some (Returned (- 1), w)
     else do {
       (_, w) \<leftarrow> delete_self reason w;
       (r, w) \<leftarrow> on_sys (semaphore_unlock (dron_sem_id w)) w;
       if r = - 1 then Some (Returned (- 1), w) else dron_close_main EXIT_SUCCESS w
     }
   }"

definition process_sigusr1 :: "dron \<Rightarrow> (status \<times> dron) option" where
  "process_sigusr1 w = do {
     let w = w\<lparr>sys := (sys w)\<lparr>got_sigusr1 := False\<rparr>\<rparr>;
     (current_battery_percentage, w) \<leftarrow> read_battery w;
     if current_battery_percentage > 20 then leave_swarm DESTRUCTION_REASON_SUICIDE w
     else Some (Returned 0, w)
   }"

definition battery_state_check :: "dron \<Rightarrow> (status \<times> dron) option" where
  "battery_state_check w = do {
     (current_battery_percentage, w) \<leftarrow> read_battery w;
     if current_battery_percentage \<le> 0 then leave_swarm DESTRUCTION_REASON_OUT_OF_POWER w
     else Some (Returned 0, w)
   }"

text \<open>The second half of \<open>force_base_return\<close>: through the gate into the base.\<close>

definition enter_base :: "dron \<Rightarrow> (status \<times> dron) option" where
  "enter_base w = do {
     (result, w) \<leftarrow> pass_the_gate_fifo w;
     if result = 1 then Some (Returned 0, w)
     else if result \<noteq> 0 then Some (Returned (- 1), w)
     else do {
       (r, w) \<leftarrow> on_sys (semaphore_lock (dron_sem_id w)) w;
       if r = - 1 then Some (Returned (- 1), w)
       else do {
         (_, s) \<leftarrow> swarm_update (my_index (internal w)) LOCATION_BASE (sw (sys w));
         let w = set_sw s w;
         (r, w) \<leftarrow> on_sys (semaphore_unlock (dron_sem_id w)) w;
         if r = - 1 then Some (Returned (- 1), w)
         else do {
           let w = set_internal (\<lambda>d. d\<lparr>have_reserved_space := 0,
             loading_cycles_left := loading_cycles_left d - 1, location := LOCATION_BASE\<rparr>) w;
           Some (Returned 0, w\<lparr>sys := (sys w)\<lparr>is_charging := True\<rparr>\<rparr>)
         }
       }
     }
   }"

definition force_base_return :: "dron \<Rightarrow> (status \<times> dron) option" where
  "force_base_return w = do {
     (current_battery_percentage, w) \<leftarrow> read_battery w;
     if current_battery_percentage < 20 then
       if loading_cycles_left (internal w) \<le> 0 then leave_swarm DESTRUCTION_REASON_DECOMMISSIONED w
       else do {
         (r, w) \<leftarrow> on_sys (semaphore_lock (dron_sem_id w)) w;
         if r = - 1 then Some (Returned (- 1), w)
         else if have_reserved_space (internal w) \<noteq> 1 then
           if has_room (table w) then do {
             let w = set_sw (swarm_reserve (my_index (internal w)) (sw (sys w))) w;
             let w = set_internal (\<lambda>d. d\<lparr>have_reserved_space := 1\<rparr>) w;
             (r, w) \<leftarrow> on_sys (semaphore_unlock (dron_sem_id w)) w;
             if r = - 1 then Some (Returned (- 1), w) else enter_base w
           } else do {
             (r, w) \<leftarrow> on_sys (semaphore_unlock (dron_sem_id w)) w;
             if r = - 1 then Some (Returned (- 1), w) else Some (Returned 0, w)
           }
         else do {
           (r, w) \<leftarrow> on_sys (semaphore_unlock (dron_sem_id w)) w;
           if r = - 1 then Some (Returned (- 1), w) else enter_base w
         }
       }
     else Some (Returned 0, w)
   }"

definition force_leave_base :: "dron \<Rightarrow> (status \<times> dron) option" where
  "force_leave_base w = do {
     (current_battery_percentage, w) \<leftarrow> read_battery w;
     if location (internal w) = LOCATION_BASE \<and> current_battery_percentage \<ge> 100 then do {
       (result, w) \<leftarrow> pass_the_gate_fifo w;
       if result = 1 then Some (Returned 0, w)
       else if result \<noteq> 0 then Some (Returned (- 1), w)
       else do {
         (r, w) \<leftarrow> on_sys (semaphore_lock (dron_sem_id w)) w;
         if r = - 1 then Some (Returned (- 1), w)
         else do {
           (_, s) \<leftarrow> swarm_update (my_index (internal w)) LOCATION_MISSION (sw (sys w));
           let w = set_sw s w;
           (r, w) \<leftarrow> on_sys (semaphore_unlock (dron_sem_id w)) w;
           if r = - 1 then Some (Returned (- 1), w)
           else do {
             let w = set_internal (\<lambda>d. d\<lparr>location := LOCATION_MISSION\<rparr>) w;
             Some (Returned 0, w\<lparr>sys := (sys w)\<lparr>is_charging := False\<rparr>\<rparr>)
           }
         }
       }
     } else Some (Returned 0, w)
   }"

definition dron_describe_self :: "dron \<Rightarrow> (unit \<times> dron) option" where
  "dron_describe_self w = do { (_, w) \<leftarrow> read_battery w; Some ((), w) }"

section \<open>main\<close>

text \<open>One round of the loop: each handler may end the process or fail; a failure ends it.\<close>

definition then_do ::
  "(int \<Rightarrow> bool) \<Rightarrow> (status \<times> dron) option \<Rightarrow> (dron \<Rightarrow> (status \<times> dron) option) \<Rightarrow>
     (status \<times> dron) option" where
  "then_do bad x f = do {
     (st, w) \<leftarrow> x;
     case st of
       Exited c \<Rightarrow> Some (Exited c, w)
     | Returned r \<Rightarrow> if bad r then dron_close_main EXIT_FAILURE w else f w
   }"

definition dron_round :: "dron \<Rightarrow> (status \<times> dron) option" where
  "dron_round w =
     then_do (\<lambda>r. r \<noteq> 0) (if got_sigusr1 (sys w) then process_sigusr1 w else Some (Returned 0, w)) (\<lambda>w.
     then_do (\<lambda>r. r \<noteq> 0) (battery_state_check w) (\<lambda>w.
     then_do (\<lambda>r. r < 0)
             (if location (internal w) = LOCATION_MISSION then force_base_return w
              else if location (internal w) = LOCATION_BASE then force_leave_base w
              else Some (Returned 0, w)) (\<lambda>w. do {
       (_, w) \<leftarrow> dron_describe_self w;
       (_, w) \<leftarrow> usleep w;
       Some (Returned 0, w)
     })))"

text \<open>The loop, followed for at most \<open>n\<close> rounds; \<open>None\<close> means that it still runs.\<close>

fun dron_loop :: "nat \<Rightarrow> dron \<Rightarrow> (status \<times> dron) option" where
  "dron_loop 0 w = (if got_shutdown_requested (sys w) then dron_close_main EXIT_SUCCESS w else None)"
| "dron_loop (Suc n) w =
     (if got_shutdown_requested (sys w) then dron_close_main EXIT_SUCCESS w
      else do {
        (st, w) \<leftarrow> dron_round w;
        case st of Exited c \<Rightarrow> Some (Exited c, w) | Returned _ \<Rightarrow> dron_loop n w
      })"

text \<open>The intervals of the battery thread.  The product with \<open>2.5\<close> is exact in a \<open>double\<close> and the
  quotient by \<open>100.\<close> is at least \<open>1/40\<close> away from the next integer above its integer part, so
  the conversion to \<open>int\<close> gives the integer part of \<open>t / 40\<close>.\<close>

definition battery_args :: "int \<Rightarrow> BatteryThreadArgs" where
  "battery_args t = \<lparr>charge_interval = t sdiv 100, usage_interval = t sdiv 40\<rparr>"

text \<open>\<open>main\<close> from the command line on: the calls of \<open>sigaction\<close>, the four look-ups, the battery
  thread, the registration and the loop.\<close>

fun plain_calls :: "nat \<Rightarrow> dron \<Rightarrow> (int \<times> dron) option" where
  "plain_calls 0 w = Some (0, w)"
| "plain_calls (Suc n) w = do {
     (r, w) \<leftarrow> on_sys plain_call w;
     if r = - 1 then Some (- 1, w) else plain_calls n w
   }"

definition or_fail :: "(int \<times> dron) option \<Rightarrow> (dron \<Rightarrow> (status \<times> dron) option) \<Rightarrow> (status \<times> dron) option"
where
  "or_fail x f = do {
     (r, w) \<leftarrow> x;
     if r \<noteq> 0 then dron_close_main EXIT_FAILURE w else f w
   }"

definition dron_start :: "int \<Rightarrow> dron \<Rightarrow> (status \<times> dron) option" where
  "dron_start pid w =
     or_fail (plain_calls 3 w) (\<lambda>w.
     or_fail (get_initial_configuration w) (\<lambda>w.
     or_fail (dron_get_shm_all_drones_data w) (\<lambda>w.
     or_fail (get_gate_semaphore w) (\<lambda>w.
     or_fail (get_gate_fifo_sem w) (\<lambda>w. do {
       let w = w\<lparr>local_data :=
         \<lparr>dd_id = my_id (internal w), dd_pid = pid, dd_location = starting_location w\<rparr>\<rparr>;
       (r, w) \<leftarrow> on_sys plain_call w;
       if r \<noteq> 0 then dron_close_main EXIT_FAILURE w
       else do {
         let w = w\<lparr>sys := (sys w)\<lparr>battery_created := True\<rparr>\<rparr>;
         or_fail (try_adding_self_to_shm w) (\<lambda>w. Some (Returned 0, w))
       }
     })))))"

definition dron_main :: "string list \<Rightarrow> int \<Rightarrow> nat \<Rightarrow> dron \<Rightarrow> (status \<times> dron) option" where
  "dron_main args pid n w = do {
     (log_file_descriptor, w) \<leftarrow> on_sys plain_call w;
     if log_file_descriptor < 0 then dron_close_main EXIT_FAILURE w
     else (case process_argv_location args of
        None \<Rightarrow> Some (Exited EXIT_FAILURE, w\<lparr>sys := process_exit (sys w)\<rparr>)
      | Some loc \<Rightarrow> do {
          (st, w) \<leftarrow> dron_start pid (w\<lparr>starting_location := loc\<rparr>);
          case st of Exited c \<Rightarrow> Some (Exited c, w) | Returned _ \<Rightarrow> dron_loop n w
        })
   }"

end
