(* ===== verification/Dron_Props.thy ===== *)
theory Dron_Props
  imports Dron Client
begin

text \<open>
  What the handlers of a drone do while every other process is free to act: the private
  data of the drone agrees with its slot in the table, its changes to the swarm are actions
  of the theory \<open>Swarm\<close>, and the semaphore of the table is released on every path, at the
  latest by the kernel when the process ends.
\<close>

section \<open>The state between two steps of a drone\<close>

text \<open>
  The process that owns slot \<open>i\<close>, at some point of its program, in a swarm reached from \<open>si\<close>
  by actions: it holds the semaphore \<open>sid\<close> of the table (\<open>locked\<close>) or not, is in the gate
  (\<open>inside\<close>) or not, its slot has the location \<open>loc\<close>, it has a reservation (\<open>res\<close>) or not, and
  its battery is being charged (\<open>ch\<close>) or used.  It has made \<open>n\<close> calls on the budget \<open>f\<close>; with a
  budget there is a free place in the gate.
\<close>

definition own_at ::
  "budget \<Rightarrow> nat \<Rightarrow> swarm \<Rightarrow> int \<Rightarrow> int \<Rightarrow> DronData_Location \<Rightarrow> bool \<Rightarrow> bool \<Rightarrow> bool \<Rightarrow> bool \<Rightarrow> os \<Rightarrow> bool" where
  "own_at f n si sid i loc res ch locked inside w \<longleftrightarrow>
     swarm_reach si (sw w) \<and> swarm_ok (sw w) \<and> me w = Some i \<and> owned i (sw w) \<and>
     slot_location (all_drones (sw w)) i = loc \<and>
     (i \<in> set (reservers (sw w)) \<longleftrightarrow> res) \<and> (i \<in> set (passing (sw w)) \<longleftrightarrow> inside) \<and>
     drones_sem w = sid \<and> sems w sid = Some (if locked then 0 else 1) \<and>
     semadj w sid = (if locked then 1 else 0) \<and> is_charging w = ch \<and> battery_ok w \<and>
     funded (spend n f) w \<and>
     (f \<noteq> None \<longrightarrow> 0 < gate_tokens (sw w) + (if inside then 1 else 0))"

text \<open>Between two rounds of the main loop.\<close>

definition dron_ok :: "budget \<Rightarrow> nat \<Rightarrow> swarm \<Rightarrow> dron \<Rightarrow> bool" where
  "dron_ok f n si w \<longleftrightarrow>
     own_at f n si (dron_sem_id w) (my_index (internal w)) (location (internal w))
       (have_reserved_space (internal w) = 1) (location (internal w) = LOCATION_BASE) False False
       (sys w) \<and>
     location (internal w) \<in> {LOCATION_BASE, LOCATION_MISSION} \<and>
     have_reserved_space (internal w) \<in> {0, 1}"

lemma outc_on_sys [simp]: "outc b (on_sys f w) Q \<longleftrightarrow> outc b (f (sys w)) (\<lambda>r o'. Q r (w\<lparr>sys := o'\<rparr>))"
  by (simp add: on_sys_def)

section \<open>Steps of the environment\<close>

lemma own_at_calms:
  assumes "own_at f n si sid i loc res ch lk g w" and "calms (spend n f) k w w'"
  shows "own_at f (n + k) si sid i loc res ch lk g w'"
proof -
  have calm: "calm w w'" and "funded (spend (n + k) f) w'"
    "f \<noteq> None \<Longrightarrow> gate_tokens (sw w) \<le> gate_tokens (sw w')"
    using assms(2) by (auto simp: calms_def)
  moreover have "own_view i (sw w') = own_view i (sw w)" "owned i (sw w')" "swarm_ok (sw w')"
    using assms(1) calm by (auto simp: own_at_def calm_def view_kept_def)
  moreover have "swarm_reach si (sw w')"
    using assms(1) calm reach_trans [of "sw w" "sw w'" si] by (auto simp: own_at_def calm_def)
  moreover have "battery_ok w'"
    using assms(1) calm by (simp add: own_at_def calm_def)
  moreover have "f \<noteq> None \<longrightarrow> 0 < gate_tokens (sw w') + (if g then 1 else 0)"
    using assms(1) calculation(3) by (auto simp: own_at_def)
  ultimately show ?thesis
    using assms(1) unfolding own_at_def calm_def own_view_def by simp
qed

lemma own_at_safe: "own_at f n si sid i loc res ch lk g w \<Longrightarrow> safe_at f n si sid w"
  by (auto simp: own_at_def safe_at_def)

lemma own_at_mono:
  "own_at f m si sid i loc res ch lk g w \<Longrightarrow> m \<le> n \<Longrightarrow> own_at f n si sid i loc res ch lk g w"
  by (auto simp: own_at_def intro: funded_mono)

lemma own_at_safe_mono: "own_at f m si sid i loc res ch lk g w \<Longrightarrow> m \<le> n \<Longrightarrow> safe_at f n si sid w"
  by (blast intro: own_at_safe safe_at_mono)

section \<open>Steps of the drone\<close>

lemma own_funded: "own_at f n si sid i loc res ch lk g w \<Longrightarrow> funded (spend n f) w"
  by (simp add: own_at_def)

lemma sync_own_wp:
  assumes "own_at f n si sid i loc res ch lk g w" and "has (n + 1) f"
    and "\<And>r w'. own_at f (n + 1) si sid i loc res ch lk g w' \<Longrightarrow> Q r w'"
  shows "outc (f = None) (sync w) Q"
  by (rule after_calls, rule sync_wp [OF own_funded [OF assms(1)]])
    (use assms own_at_calms [OF assms(1), of 1] in auto)

lemma lock_own_wp:
  assumes at: "own_at f n si sid i loc res ch False g w" and "has (n + 1) f"
    and fail: "\<And>w'. own_at f (n + 1) si sid i loc res ch False g w' \<Longrightarrow> Q (- 1) w'"
    and ok: "\<And>w'. own_at f (n + 1) si sid i loc res ch True g w' \<Longrightarrow> Q 0 w'"
  shows "outc (f = None) (semaphore_lock sid w) Q"
proof (rule after_calls, rule lock.retried_wp [OF own_funded [OF at]])
  show "has 1 (spend n f)" "sem_can sid (- 1) w"
    using at assms(2) by (simp_all add: own_at_def sem_can_def)
  fix w' assume "calms (spend n f) 1 w w'"
  with at have at': "own_at f (n + 1) si sid i loc res ch False g w'" by (rule own_at_calms)
  then show "Q (- 1) w'" by (rule fail)
  assume "sem_can sid (- 1) w'"
  with at' have "own_at f (n + 1) si sid i loc res ch True g (sem_eff sid (- 1) w')"
    by (auto simp: own_at_def sem_eff_def sem_add_def battery_ok_def)
  then show "Q 0 (sem_eff sid (- 1) w')" by (rule ok)
qed

lemma unlock_own_wp:
  assumes at: "own_at f n si sid i loc res ch True g w" and "has (n + 1) f"
    and fail: "\<And>w'. own_at f (n + 1) si sid i loc res ch True g w' \<Longrightarrow> Q (- 1) w'"
    and ok: "\<And>w'. own_at f (n + 1) si sid i loc res ch False g w' \<Longrightarrow> Q 0 w'"
  shows "outc (f = None) (semaphore_unlock sid w) Q"
proof (rule after_calls, rule unlock.retried_wp [OF own_funded [OF at]])
  show "has 1 (spend n f)" "sem_can sid 1 w"
    using at assms(2) by (simp_all add: own_at_def sem_can_def)
  fix w' assume "calms (spend n f) 1 w w'"
  with at have at': "own_at f (n + 1) si sid i loc res ch True g w'" by (rule own_at_calms)
  then show "Q (- 1) w'" by (rule fail)
  assume "sem_can sid 1 w'"
  with at' have "own_at f (n + 1) si sid i loc res ch False g (sem_eff sid 1 w')"
    by (auto simp: own_at_def sem_eff_def sem_add_def battery_ok_def)
  then show "Q 0 (sem_eff sid 1 w')" by (rule ok)
qed

text \<open>A change of the swarm by the drone is an action of the swarm.\<close>

lemma own_action:
  assumes "own_at f n si sid i loc res ch lk g w" and "exec_act a (sw w) = s"
  shows "swarm_ok s" "swarm_reach si s"
  using assms by (auto simp: own_at_def intro: exec_act_ok swarm_reach.intros)

lemma gate_in_own_wp:
  assumes at: "own_at f n si sid i loc res ch lk False w" and "has (n + 2) f"
    and fail: "\<And>w' r. own_at f (n + 2) si sid i loc res ch lk False w' \<Longrightarrow> r = - 1 \<or> r = 1 \<Longrightarrow> Q r w'"
    and ok: "\<And>w'. own_at f (n + 2) si sid i loc res ch lk True w' \<Longrightarrow> Q 0 w'"
  shows "outc (f = None) (fifo_sem_lock_timeout fs t w) Q"
proof (rule after_calls, rule fifo_sem_lock_timeout_wp [OF own_funded [OF at]])
  show "has 2 (spend n f)" "spend n f \<noteq> None \<Longrightarrow> token_there w"
    using at assms(2) by (auto simp: own_at_def)
  fix w' assume "calms (spend n f) 2 w w'"
  with at have at': "own_at f (n + 2) si sid i loc res ch lk False w'" by (rule own_at_calms)
  then show "Q (- 1) w'" "Q 1 w'" by (auto intro: fail)
  assume "token_there w'"
  with at' have "exec_act (A_enter_gate i) (sw w') = take_token (Some i) (sw w')"
    by (auto simp: own_at_def owned_def)
  from own_action [OF at' this] at' have "own_at f (n + 2) si sid i loc res ch lk True (token_taken w')"
    by (auto simp: own_at_def token_taken_def take_token_def owned_def battery_ok_def)
  then show "Q 0 (token_taken w')" by (rule ok)
qed

lemma gate_out_own_wp:
  assumes at: "own_at f n si sid i loc res ch lk True w" and "has (n + 1) f"
    and fail: "\<And>w'. own_at f (n + 1) si sid i loc res ch lk True w' \<Longrightarrow> Q (- 1) w'"
    and ok: "\<And>w'. own_at f (n + 1) si sid i loc res ch lk False w' \<Longrightarrow> Q 0 w'"
  shows "outc (f = None) (fifo_sem_unlock fs w) Q"
proof (rule after_calls, rule fifo_sem_unlock_wp [OF own_funded [OF at]])
  show "has 1 (spend n f)" using assms(2) by simp
  fix w' assume "calms (spend n f) 1 w w'"
  with at have at': "own_at f (n + 1) si sid i loc res ch lk True w'" by (rule own_at_calms)
  then show "Q (- 1) w'" by (rule fail)
  have "exec_act (A_leave_gate i) (sw w') = put_token (Some i) (sw w')"
    using at' by (auto simp: own_at_def)
  from own_action [OF at' this] at' have "own_at f (n + 1) si sid i loc res ch lk False (token_put w')"
    by (auto simp: own_at_def token_put_def put_token_def owned_def battery_ok_def)
  then show "Q 0 (token_put w')" by (rule ok)
qed

lemma reserve_own:
  assumes at: "own_at f n si sid i LOCATION_MISSION False ch lk g w" and "has_room (all_drones (sw w))"
  shows "own_at f n si sid i LOCATION_MISSION True ch lk g (w\<lparr>sw := swarm_reserve i (sw w)\<rparr>)"
proof -
  have "exec_act (A_reserve i) (sw w) = swarm_reserve i (sw w)"
    using assms by (auto simp: own_at_def owned_def)
  from own_action [OF at this] at show ?thesis
    by (auto simp: own_at_def swarm_reserve_def owned_def battery_ok_def)
qed

lemma dock_own:
  assumes at: "own_at f n si sid i LOCATION_MISSION True ch lk False w"
  obtains s where "swarm_update i LOCATION_BASE (sw w) = Some (0, s)"
    "own_at f n si sid i LOCATION_BASE False ch lk False (w\<lparr>sw := s\<rparr>)"
proof -
  let ?s = "(sw w)\<lparr>all_drones := table_moved (all_drones (sw w)) i LOCATION_BASE,
    reservers := removeAll i (reservers (sw w))\<rparr>"
  have valid: "slot_valid (all_drones (sw w)) i"
    using at by (simp add: own_at_def owned_def)
  then have upd: "swarm_update i LOCATION_BASE (sw w) = Some (0, ?s)"
    by (rule swarm_update_eq)
  then have "exec_act (A_dock i) (sw w) = ?s"
    using at by (auto simp: own_at_def the_swarm_def)
  from own_action [OF at this] at valid
  have "own_at f n si sid i LOCATION_BASE False ch lk False (w\<lparr>sw := ?s\<rparr>)"
    by (auto simp: own_at_def owned_def battery_ok_def)
  with upd that show ?thesis by blast
qed

lemma undock_own:
  assumes at: "own_at f n si sid i LOCATION_BASE res ch lk False w"
  obtains s where "swarm_update i LOCATION_MISSION (sw w) = Some (0, s)"
    "own_at f n si sid i LOCATION_MISSION False ch lk False (w\<lparr>sw := s\<rparr>)"
proof -
  let ?s = "(sw w)\<lparr>all_drones := table_moved (all_drones (sw w)) i LOCATION_MISSION,
    reservers := removeAll i (reservers (sw w))\<rparr>"
  have valid: "slot_valid (all_drones (sw w)) i"
    using at by (simp add: own_at_def owned_def)
  then have upd: "swarm_update i LOCATION_MISSION (sw w) = Some (0, ?s)"
    by (rule swarm_update_eq)
  then have "exec_act (A_undock i) (sw w) = ?s"
    using at valid by (auto simp: own_at_def the_swarm_def)
  from own_action [OF at this] at valid
  have "own_at f n si sid i LOCATION_MISSION False ch lk False (w\<lparr>sw := ?s\<rparr>)"
    by (auto simp: own_at_def owned_def battery_ok_def)
  with upd that show ?thesis by blast
qed

lemma delete_own:
  assumes at: "own_at f n si sid i loc (v = 1) ch lk False w" and "v \<in> {0, 1}"
  obtains s where "swarm_delete i v r (sw w) = Some (i, s)" "gone_at f n si sid lk (w\<lparr>sw := s\<rparr>)"
    "i \<in> free_slots (all_drones s)" "lost_total (all_drones s) = lost_total (all_drones (sw w)) + 1"
proof -
  have own: "swarm_ok (sw w)" "slot_valid (all_drones (sw w)) i" "used (slot (all_drones (sw w)) i)"
    using at by (auto simp: own_at_def owned_def)
  obtain st where del: "swarm_delete i v r (sw w) = Some (i, (sw w)\<lparr>all_drones :=
      table_deleted (all_drones (sw w)) i v r, free_stack := st,
      reservers := removeAll i (reservers (sw w))\<rparr>)" (is "_ = Some (i, ?s)")
    using swarm_delete_eq [OF own] by blast
  have v: "(if i \<in> set (reservers (sw w)) then 1 else 0) = v"
    using assms by (auto simp: own_at_def)
  have "exec_act (A_delete i r) (sw w) = ?s"
    using at own del by (simp add: own_at_def the_swarm_def v [symmetric])
  from own_action [OF at this] at have "gone_at f n si sid lk (w\<lparr>sw := ?s\<rparr>)"
    by (auto simp: gone_at_def own_at_def)
  moreover have "i \<in> free_slots (all_drones ?s)"
    using own by (simp add: free_slots_def)
  ultimately show ?thesis using del that by simp
qed

section \<open>Ending the process\<close>

lemma close_gate_fifo_wp:
  assumes at: "safe_at f n si sid (sys w)" and "has (n + 1) f"
    and Q: "\<And>w'. safe_at f (n + 1) si sid (sys w') \<Longrightarrow> Q () w'"
  shows "outc (f = None) (close_gate_fifo w) Q"
proof -
  have "outc (spend n f = None) (fifo_sem_close (Some (fifo_sem w)) (sys w))
      (\<lambda>_ (_, s). safe_at f (n + 1) si sid s)"
    by (rule fifo_sem_close_wp) (use assms(2) at safe_at_calms [OF at, of 1] in \<open>auto simp: safe_funded\<close>)
  then show ?thesis
    using Q [OF safe_at_mono [OF at]] Q
    by (auto simp: close_gate_fifo_def elim!: outc_mono)
qed

lemma join_battery_wp:
  assumes at: "safe_at f n si sid (sys w)" and "has (n + 1) f"
    and Q: "\<And>w'. safe_at f (n + 1) si sid (sys w') \<Longrightarrow> Q () w'"
  shows "outc (f = None) (join_battery w) Q"
proof -
  let ?o = "(sys w)\<lparr>battery_working := False, battery_created := False\<rparr>"
  have o: "safe_at f n si sid ?o"
    using at by (simp add: safe_at_def)
  have "outc (spend n f = None) (sync ?o) (\<lambda>_ s. safe_at f (n + 1) si sid s)"
    by (rule sync_wp) (use assms(2) safe_funded [OF at] safe_at_calms [OF o, of 1] in auto)
  then show ?thesis
    using Q [OF safe_at_mono [OF at]] Q
    by (auto simp: join_battery_def elim!: outc_mono)
qed

lemma close_main_wp:
  assumes "safe_at f n si sid (sys w)" and "has (n + 4) f"
    and "\<And>w'. ended_at si sid (sys w') \<Longrightarrow> Q (Exited c) w'"
  shows "outc (f = None) (dron_close_main c w) Q"
proof -
  have "has (n + 2) f" "has (n + 2 + 1) f" "has (n + 2 + 1 + 1) f"
    by (rule has_mono [OF assms(2)], simp)+
  note calls = this
  show ?thesis
    unfolding dron_close_main_def Let_def outc_bind prod.case
    by (rule detach_attached_wp [OF assms(1) calls(1)],
        rule close_gate_fifo_wp [OF _ calls(2)], simp, rule join_battery_wp [OF _ calls(3)], simp)
      (auto intro!: assms(3) safe_at_exit)
qed

section \<open>The handlers\<close>

definition dron_post :: "budget \<Rightarrow> nat \<Rightarrow> swarm \<Rightarrow> int \<Rightarrow> status \<Rightarrow> dron \<Rightarrow> bool" where
  "dron_post f n si sid st w \<longleftrightarrow>
     (case st of
        Returned r \<Rightarrow>
          if r = 0 then dron_ok f n si w \<and> dron_sem_id w = sid else r = - 1 \<and> safe_at f n si sid (sys w)
      | Exited c \<Rightarrow> ended_at si sid (sys w))"

lemma dron_post_fail: "safe_at f m si sid (sys w) \<Longrightarrow> m \<le> n \<Longrightarrow> dron_post f n si sid (Returned (- 1)) w"
  by (simp add: dron_post_def safe_at_mono)

lemma dron_post_ok: "dron_ok f m si w \<Longrightarrow> dron_sem_id w = sid \<Longrightarrow> m \<le> n \<Longrightarrow> dron_post f n si sid (Returned 0) w"
  by (auto simp: dron_post_def dron_ok_def intro: own_at_mono)

lemma dron_post_end: "ended_at si sid (sys w) \<Longrightarrow> dron_post f n si sid (Exited c) w"
  by (simp add: dron_post_def)

lemmas dron_post_intros = dron_post_fail [OF own_at_safe] dron_post_fail [OF gone_at_safe]
  dron_post_end

lemma read_battery_wp:
  assumes at: "own_at f n si sid i loc res ch lk g (sys w)" and "has (n + 1) f"
    and "\<And>b o'. own_at f (n + 1) si sid i loc res ch lk g o' \<Longrightarrow> b = battery_percentage o' \<Longrightarrow>
      Q b (w\<lparr>sys := o'\<rparr>)"
  shows "outc (f = None) (read_battery w) Q"
  using assms(3) by (auto simp: read_battery_def intro!: sync_own_wp [OF at assms(2)])

lemma usleep_wp:
  assumes at: "own_at f n si sid i loc res ch lk g (sys w)" and "has (n + 1) f"
    and "\<And>o'. own_at f (n + 1) si sid i loc res ch lk g o' \<Longrightarrow> Q () (w\<lparr>sys := o'\<rparr>)"
  shows "outc (f = None) (usleep w) Q"
  using assms(3) by (auto simp: usleep_def intro!: sync_own_wp [OF at assms(2)])

lemma delete_own_wp:
  assumes at: "own_at f n si sid (my_index (internal w)) loc (have_reserved_space (internal w) = 1) ch lk False (sys w)"
    and v: "have_reserved_space (internal w) \<in> {0, 1}"
    and Q: "\<And>s. gone_at f n si sid lk ((sys w)\<lparr>sw := s\<rparr>) \<Longrightarrow> Q () (set_sw s w)"
  shows "outc b (delete_self r w) Q"
  by (rule delete_own [OF at v, of r]) (simp add: delete_self_def Q)

text \<open>In the rules for the handlers, \<open>m\<close> bounds the calls made when the handler is done.\<close>

lemma leave_swarm_wp:
  assumes at: "own_at f n si (dron_sem_id w) (my_index (internal w)) loc
      (have_reserved_space (internal w) = 1) ch False False (sys w)"
    and v: "have_reserved_space (internal w) \<in> {0, 1}" and "has m f" and "n + 6 \<le> m"
  shows "outc (f = None) (leave_swarm r w) (dron_post f m si (dron_sem_id w))"
proof -
  have calls: "has (n + 1) f" "has (n + 1 + 1) f" "has (n + 1 + 1 + 4) f"
    by (rule has_mono [OF assms(3)], use assms(4) in simp)+
  show ?thesis
    unfolding leave_swarm_def outc_bind prod.case outc_on_sys outc_if
  proof (rule lock_own_wp [OF at calls(1)], goal_cases)
    case (2 o')
    show ?case
    proof (simp, rule delete_own_wp, use 2 v in simp, use v in simp, goal_cases)
      case (1 s)
      then have "gone_at f (n + 1) si (dron_sem_id w) True (o'\<lparr>sw := s\<rparr>)" by simp
      then show ?case
        using assms(4) unfolding set_sw_def
        by (simp del: One_nat_def, intro unlock_gone_wp [OF _ calls(2)])
          (auto intro!: close_main_wp [OF gone_at_safe calls(3)] dron_post_intros)
    qed
  qed (use assms(4) in \<open>auto simp: dron_post_def dest!: own_at_safe_mono [where n = m]\<close>)
qed

lemma pass_the_gate_fifo_wp:
  assumes at: "own_at f n si sid i loc res ch lk False (sys w)" and "has m f" and "n + 4 \<le> m"
    and fail: "\<And>r o'. r \<noteq> 0 \<Longrightarrow> r \<noteq> 1 \<Longrightarrow> safe_at f m si sid o' \<Longrightarrow> Q r (w\<lparr>sys := o'\<rparr>)"
    and late: "\<And>o'. own_at f m si sid i loc res ch lk False o' \<Longrightarrow> Q 1 (w\<lparr>sys := o'\<rparr>)"
    and ok: "\<And>o'. own_at f (n + 4) si sid i loc res ch lk False o' \<Longrightarrow> Q 0 (w\<lparr>sys := o'\<rparr>)"
  shows "outc (f = None) (pass_the_gate_fifo w) Q"
proof -
  have calls: "has (n + 2) f" "has (n + 2 + 1) f" "has (n + 2 + 1 + 1) f"
    by (rule has_mono [OF assms(2)], use assms(3) in simp)+
  show ?thesis
    unfolding pass_the_gate_fifo_def outc_bind prod.case outc_on_sys outc_if
  proof (rule gate_in_own_wp [OF at calls(1)], goal_cases)
    case (2 o')
    then have o': "own_at f (n + 2) si sid i loc res ch lk True (sys (w\<lparr>sys := o'\<rparr>))" by simp
    have "Q (- 1) (w\<lparr>sys := p\<rparr>)" if "own_at f (n + 2 + 1 + 1) si sid i loc res ch lk True p" for p
      using that fail own_at_safe_mono [OF that, of m] assms(3) by simp
    moreover have "Q 0 (w\<lparr>sys := p\<rparr>)" if "own_at f (n + 2 + 1 + 1) si sid i loc res ch lk False p" for p
      using that ok by (simp add: eval_nat_numeral)
    ultimately show ?case
      by (simp, intro usleep_wp [OF o' calls(2)] gate_out_own_wp [OF _ calls(3)]) simp_all
  next
    case (1 o' r)
    with own_at_mono [OF 1(1), of m] own_at_safe_mono [OF 1(1), of m] fail late assms(3) show ?case
      by auto
  qed
qed

lemma process_sigusr1_wp:
  assumes ok: "dron_ok f n si w" and "has m f" and "n + 7 \<le> m"
  shows "outc (f = None) (process_sigusr1 w) (dron_post f m si (dron_sem_id w))"
proof -
  have calls: "has (n + 1) f"
    by (rule has_mono [OF assms(2)], use assms(3) in simp)
  let ?w = "w\<lparr>sys := (sys w)\<lparr>got_sigusr1 := False\<rparr>\<rparr>"
  have at: "own_at f n si (dron_sem_id w) (my_index (internal w)) (location (internal w))
      (have_reserved_space (internal w) = 1) (location (internal w) = LOCATION_BASE) False False (sys ?w)"
    using ok by (simp add: dron_ok_def own_at_def battery_ok_def)
  show ?thesis
    unfolding process_sigusr1_def Let_def outc_bind prod.case
  proof (rule read_battery_wp [OF at calls], goal_cases)
    case (1 b o')
    with ok leave_swarm_wp [of f "n + 1" si "?w\<lparr>sys := o'\<rparr>" _ _ m] assms(2,3) show ?case
      by (auto simp: dron_ok_def intro!: dron_post_ok [of f "n + 1"])
  qed
qed

lemma battery_state_check_wp:
  assumes ok: "dron_ok f n si w" and "has m f" and "n + 7 \<le> m"
  shows "outc (f = None) (battery_state_check w) (dron_post f m si (dron_sem_id w))"
proof -
  have calls: "has (n + 1) f"
    by (rule has_mono [OF assms(2)], use assms(3) in simp)
  show ?thesis
    unfolding battery_state_check_def outc_bind prod.case
  proof (rule read_battery_wp [OF conjunct1 [OF ok [unfolded dron_ok_def]] calls], goal_cases)
    case (1 b o')
    with ok leave_swarm_wp [of f "n + 1" si "w\<lparr>sys := o'\<rparr>" _ _ m] assms(2,3) show ?case
      by (auto simp: dron_ok_def intro!: dron_post_ok [of f "n + 1"])
  qed
qed


lemma dock_own_wp:
  assumes "own_at f n si sid i LOCATION_MISSION True ch lk False w"
    and "\<And>s. own_at f n si sid i LOCATION_BASE False ch lk False (w\<lparr>sw := s\<rparr>) \<Longrightarrow> Q 0 s"
  shows "outc b (swarm_update i LOCATION_BASE (sw w)) Q"
  by (rule dock_own [OF assms(1)]) (simp add: assms(2))

lemma undock_own_wp:
  assumes "own_at f n si sid i LOCATION_BASE res ch lk False w"
    and "\<And>s. own_at f n si sid i LOCATION_MISSION False ch lk False (w\<lparr>sw := s\<rparr>) \<Longrightarrow> Q 0 s"
  shows "outc b (swarm_update i LOCATION_MISSION (sw w)) Q"
  by (rule undock_own [OF assms(1)]) (simp add: assms(2))

text \<open>After the change of the location, the private data follow.\<close>

lemma own_charging:
  "own_at f n si sid i loc res ch lk g w \<Longrightarrow> own_at f n si sid i loc res c lk g (w\<lparr>is_charging := c\<rparr>)"
  by (simp add: own_at_def battery_ok_def)

lemma dron_post_moved:
  assumes "own_at f k si (dron_sem_id w) (my_index (internal w)) loc (v = 1) ch False False o'"
    and "loc = LOCATION_BASE \<or> loc = LOCATION_MISSION" and "v \<in> {0, 1}" and "k \<le> m"
    and "have_reserved_space d = v" "location d = loc" "my_index d = my_index (internal w)"
  shows "dron_post f m si (dron_sem_id w) (Returned 0)
    (w\<lparr>internal := d, sys := o'\<lparr>is_charging := (loc = LOCATION_BASE)\<rparr>\<rparr>)"
  using assms by (auto intro!: dron_post_ok [of f k] own_charging simp: dron_ok_def)

lemma dron_post_lost:
  "own_at f k si sid i loc res ch lk g (sys w) \<Longrightarrow> k \<le> m \<Longrightarrow> dron_post f m si sid (Returned (- 1)) w"
  by (rule dron_post_fail [OF own_at_safe])

lemma enter_base_wp:
  assumes at: "own_at f n si (dron_sem_id w) (my_index (internal w)) LOCATION_MISSION True False False False (sys w)"
    and int: "location (internal w) = LOCATION_MISSION" "have_reserved_space (internal w) = 1"
    and "has m f" and m: "n + 6 \<le> m"
  shows "outc (f = None) (enter_base w) (dron_post f m si (dron_sem_id w))"
proof -
  have calls: "has (n + 4) f" "has (n + 4 + 1) f" "has (n + 4 + 1 + 1) f"
    by (rule has_mono [OF \<open>has m f\<close>], use m in simp)+
  show ?thesis
    unfolding enter_base_def outc_bind prod.case outc_on_sys outc_if Let_def set_sw_def set_internal_def
  proof (rule pass_the_gate_fifo_wp [OF at \<open>has m f\<close>], use m in simp, goal_cases)
    case (3 o')
    show ?case
    proof (simp, rule lock_own_wp [OF 3 calls(2)], goal_cases)
      case (2 o')
      show ?case
      proof (simp, rule dock_own_wp [OF 2], rule unlock_own_wp [OF _ calls(3)], assumption, goal_cases)
        case (2 s p)
        with m dron_post_moved [of f "n + 4 + 1 + 1" si w LOCATION_BASE 0 False p m] show ?case by simp
      qed (use m in \<open>auto intro: dron_post_lost\<close>)
    qed (use m in \<open>auto intro: dron_post_lost\<close>)
  qed (use int in \<open>auto simp: dron_post_def dron_ok_def own_at_safe\<close>)
qed


lemma force_base_return_wp:
  assumes ok: "dron_ok f n si w" and mission: "location (internal w) = LOCATION_MISSION"
    and "has m f" and m: "n + 9 \<le> m"
  shows "outc (f = None) (force_base_return w) (dron_post f m si (dron_sem_id w))"
proof -
  let ?post = "dron_post f m si (dron_sem_id w)"
  let ?at = "\<lambda>k. own_at f (n + k) si (dron_sem_id w) (my_index (internal w)) LOCATION_MISSION"
  have calls: "has (n + 1) f" "has (n + 1 + 1) f" "has (n + 1 + 1 + 1) f"
    by (rule has_mono [OF \<open>has m f\<close>], use m in simp)+
  have at: "own_at f n si (dron_sem_id w) (my_index (internal w)) LOCATION_MISSION
      (have_reserved_space (internal w) = 1) False False False (sys w)"
    and v: "have_reserved_space (internal w) \<in> {0, 1}"
    using ok mission by (auto simp: dron_ok_def)
  have keep: "?post (Returned 0) (w\<lparr>sys := p\<rparr>)"
    if "?at k (have_reserved_space (internal w) = 1) False False False p" "k \<le> 3" for p k
    by (rule dron_post_ok [of f "n + k"]) (use that v mission m in \<open>simp_all add: dron_ok_def\<close>)
  have on: "outc (f = None) (enter_base (w\<lparr>internal := d, sys := p\<rparr>)) ?post"
    if "?at 3 True False False False p" "location d = LOCATION_MISSION" "have_reserved_space d = 1"
      "my_index d = my_index (internal w)" for p d
    using enter_base_wp [of f "n + 3" si "w\<lparr>internal := d, sys := p\<rparr>" m] that \<open>has m f\<close> m by simp
  show ?thesis
    unfolding force_base_return_def outc_bind prod.case outc_on_sys outc_if Let_def set_sw_def set_internal_def
  proof (rule read_battery_wp [OF at calls(1)], goal_cases)
    case (1 b o')
    have gone: "outc (f = None) (leave_swarm r (w\<lparr>sys := o'\<rparr>)) ?post" for r
      using leave_swarm_wp [of f "n + 1" si "w\<lparr>sys := o'\<rparr>"] 1(1) v \<open>has m f\<close> m by simp
    show ?case
    proof (simp add: gone keep [OF 1(1)] del: One_nat_def, intro impI, rule lock_own_wp [OF 1(1) calls(2)], goal_cases)
      case (2 o')
      show ?case
      proof (cases "have_reserved_space (internal w) = 1")
        case True
        have "outc (f = None) (enter_base (w\<lparr>sys := p\<rparr>)) ?post" if "?at 3 True False False False p" for p
          using enter_base_wp [of f "n + 3" si "w\<lparr>sys := p\<rparr>" m] that True mission \<open>has m f\<close> m by simp
        with 2 True m show ?thesis
          by (auto intro!: unlock_own_wp [OF _ calls(3)] dron_post_lost simp: eval_nat_numeral)
      next
        case False
        with 2 have at: "own_at f (n + 1 + 1) si (dron_sem_id w) (my_index (internal w)) LOCATION_MISSION
            False False True False o'" by simp
        show ?thesis
        proof (simp add: False, intro conjI impI, goal_cases)
          case 1
          then show ?case
            using on [unfolded eval_nat_numeral] mission m
            by (intro unlock_own_wp [OF reserve_own [OF at] calls(3)]) (auto intro: dron_post_lost)
        next
          case 2
          show ?case
            using keep [of 3, unfolded eval_nat_numeral] False m
            by (intro unlock_own_wp [OF at calls(3)]) (auto intro: dron_post_lost)
        qed
      qed
    qed (use m in \<open>auto intro: dron_post_lost\<close>)
  qed
qed


lemma own_at_base_unreserved: "own_at f n si sid i LOCATION_BASE res ch lk g w \<Longrightarrow> \<not> res"
  by (auto simp: own_at_def swarm_ok_def reservations_ok_def)

lemma force_leave_base_wp:
  assumes ok: "dron_ok f n si w" and base: "location (internal w) = LOCATION_BASE"
    and "has m f" and m: "n + 7 \<le> m"
  shows "outc (f = None) (force_leave_base w) (dron_post f m si (dron_sem_id w))"
proof -
  have calls: "has (n + 1) f" "has (n + 1 + 4 + 1) f" "has (n + 1 + 4 + 1 + 1) f"
    by (rule has_mono [OF \<open>has m f\<close>], use m in simp)+
  let ?at = "\<lambda>k. own_at f k si (dron_sem_id w) (my_index (internal w)) LOCATION_BASE
      (have_reserved_space (internal w) = 1) True"
  have at: "?at n False False (sys w)" and v: "have_reserved_space (internal w) \<in> {0, 1}"
    using ok base by (auto simp: dron_ok_def)
  then have free: "have_reserved_space (internal w) = 0"
    by (auto dest: own_at_base_unreserved)
  have keep: "dron_post f m si (dron_sem_id w) (Returned 0) (w\<lparr>sys := p\<rparr>)"
    if "?at k False False p" "k \<le> m" for p k
    by (rule dron_post_ok [of f k]) (use that v base in \<open>simp_all add: dron_ok_def\<close>)
  show ?thesis
    unfolding force_leave_base_def outc_bind prod.case outc_on_sys outc_if Let_def set_sw_def set_internal_def
  proof (rule read_battery_wp [OF at calls(1)], goal_cases)
    case (1 b o')
    then have o': "?at (n + 1) False False (sys (w\<lparr>sys := o'\<rparr>))" by simp
    have "n + 1 \<le> m" using m by simp
    show ?case
    proof (simp add: keep [OF 1(1) \<open>n + 1 \<le> m\<close>], intro impI,
        rule pass_the_gate_fifo_wp [OF o' \<open>has m f\<close>], use m in simp, goal_cases)
      case (3 p)
      show ?case
      proof (simp, rule lock_own_wp [OF _ calls(2)], rule 3, goal_cases)
        case (2 p)
        show ?case
        proof (simp, rule undock_own_wp [OF 2], rule unlock_own_wp [OF _ calls(3)], assumption, goal_cases)
          case (2 s p)
          with m free dron_post_moved [of f "n + 1 + 4 + 1 + 1" si w LOCATION_MISSION 0 True p m] show ?case
            by simp
        qed (use m in \<open>auto intro: dron_post_lost\<close>)
      qed (use m in \<open>auto intro: dron_post_lost\<close>)
    qed (use keep m in \<open>auto intro: dron_post_fail\<close>)
  qed
qed

section \<open>The main loop\<close>

definition round_post :: "budget \<Rightarrow> nat \<Rightarrow> swarm \<Rightarrow> int \<Rightarrow> status \<Rightarrow> dron \<Rightarrow> bool" where
  "round_post f n si sid st w \<longleftrightarrow>
     (case st of
        Returned r \<Rightarrow> r = 0 \<and> dron_ok f n si w \<and> dron_sem_id w = sid
      | Exited c \<Rightarrow> ended_at si sid (sys w))"

lemma then_do_wp:
  assumes x: "outc (f = None) x (dron_post f k si sid)" and bad: "bad (- 1)" "\<not> bad 0"
    and close: "has (k + 4) f"
    and rest: "\<And>w. dron_ok f k si w \<Longrightarrow> outc (f = None) (g w) (round_post f m si (dron_sem_id w))"
  shows "outc (f = None) (then_do bad x g) (round_post f m si sid)"
  unfolding then_do_def outc_bind
proof (rule outc_mono [OF x], goal_cases)
  case (1 st w)
  have "outc (f = None) (dron_close_main 1 w) (round_post f m si sid)" if "safe_at f k si sid (sys w)"
    by (rule close_main_wp [OF that close]) (simp add: round_post_def)
  with 1 bad rest show ?case
    by (auto simp: dron_post_def round_post_def split: status.splits if_splits)
qed

text \<open>A round makes at most 25 calls, and four more when it ends the process.\<close>

lemma dron_round_wp:
  assumes ok: "dron_ok f n si w" and "has (n + 29) f"
  shows "outc (f = None) (dron_round w) (round_post f (n + 25) si (dron_sem_id w))"
proof -
  have calls: "has (n + k) f" if "k \<le> 29" for k
    by (rule has_mono [OF assms(2)]) (use that in simp)
  have rest: "outc (f = None) (do { (_, w) \<leftarrow> dron_describe_self w; (_, w) \<leftarrow> usleep w; Some (Returned 0, w) })
      (round_post f (n + 25) si (dron_sem_id w))" if at: "dron_ok f (n + 23) si w" for w
    unfolding dron_describe_self_def outc_bind prod.case
  proof (rule read_battery_wp [OF conjunct1 [OF at [unfolded dron_ok_def]]], goal_cases)
    case (2 b o')
    show ?case
      by (simp, rule usleep_wp [of f "n + 23 + 1"])
        (use 2 at calls [of 25] in \<open>auto simp: round_post_def dron_ok_def eval_nat_numeral\<close>)
  qed (use calls [of 24] in \<open>simp add: eval_nat_numeral\<close>)
  have third: "outc (f = None) (if location (internal w) = LOCATION_MISSION then force_base_return w
      else if location (internal w) = LOCATION_BASE then force_leave_base w else Some (Returned 0, w))
      (dron_post f (n + 23) si (dron_sem_id w))" if "dron_ok f (n + 14) si w" for w
    using that calls [of 23] force_base_return_wp [OF that, of "n + 23"] force_leave_base_wp [OF that, of "n + 23"]
    by (auto intro: dron_post_ok [of f "n + 14"])
  have first: "outc (f = None) (if got_sigusr1 (sys w) then process_sigusr1 w else Some (Returned 0, w))
      (dron_post f (n + 7) si (dron_sem_id w))"
    using ok calls [of 7] process_sigusr1_wp [OF ok, of "n + 7"] by (auto intro: dron_post_ok [of f n])
  show ?thesis
    unfolding dron_round_def
  proof (rule then_do_wp [OF first], goal_cases)
    case (4 w)
    show ?case
    proof (rule then_do_wp [OF battery_state_check_wp [OF 4, of "n + 14"]], goal_cases)
      case (6 w)
      show ?case by (rule then_do_wp [OF third [OF 6]]) (use calls [of 27] rest in \<open>simp_all add: add.commute\<close>)
    qed (use calls [of 18] calls [of 14] in \<open>simp_all add: add.commute\<close>)
  qed (use calls [of 11] in \<open>simp_all add: add.commute\<close>)
qed

text \<open>Whatever the others do, the process ends with the swarm in order and the semaphore of the
  table free.\<close>

lemma dron_loop_wp:
  "dron_ok None 0 si w \<Longrightarrow> wp (dron_loop n w) (\<lambda>st w'. (\<exists>c. st = Exited c) \<and> ended_at si (dron_sem_id w) (sys w'))"
proof (induction n arbitrary: w)
  case 0
  then have "safe_at None 0 si (dron_sem_id w) (sys w)"
    by (auto simp: dron_ok_def intro: own_at_safe)
  then show ?case using close_main_wp [of None 0 si] by auto
next
  case (Suc n)
  have "dron_ok None 25 si w \<Longrightarrow> dron_ok None 0 si w" for w
    by (simp add: dron_ok_def own_at_def)
  then have "wp (dron_round w) (\<lambda>st w'. wp (case st of Exited c \<Rightarrow> Some (Exited c, w')
      | Returned _ \<Rightarrow> dron_loop n w') (\<lambda>st w'. (\<exists>c. st = Exited c) \<and> ended_at si (dron_sem_id w) (sys w')))"
    using dron_round_wp [OF Suc.prems]
    by simp (erule outc_mono, use Suc.IH in \<open>fastforce simp: round_post_def split: status.splits\<close>)
  moreover have "safe_at None 0 si (dron_sem_id w) (sys w)"
    using Suc.prems by (auto simp: dron_ok_def intro: own_at_safe)
  ultimately show ?case using close_main_wp [of None 0 si] by auto
qed


section \<open>Registration\<close>

text \<open>Before it has a slot, a process has nothing but its battery.\<close>

definition fresh_at :: "budget \<Rightarrow> nat \<Rightarrow> swarm \<Rightarrow> int \<Rightarrow> bool \<Rightarrow> bool \<Rightarrow> os \<Rightarrow> bool" where
  "fresh_at f n si sid ch locked w \<longleftrightarrow>
     gone_at f n si sid locked w \<and> is_charging w = ch \<and> battery_ok w \<and>
     (f \<noteq> None \<longrightarrow> token_there w)"

lemma fresh_at_calms:
  assumes "fresh_at f n si sid ch lk w" and "calms (spend n f) k w w'"
  shows "fresh_at f (n + k) si sid ch lk w'"
proof -
  have "gone_at f (n + k) si sid lk w'"
    using assms gone_at_calms by (auto simp: fresh_at_def)
  with assms show ?thesis by (auto simp: fresh_at_def calms_def calm_def)
qed

lemma lock_fresh_wp:
  assumes at: "fresh_at f n si sid ch False w" and "has (n + 1) f"
    and fail: "\<And>w'. fresh_at f (n + 1) si sid ch False w' \<Longrightarrow> Q (- 1) w'"
    and ok: "\<And>w'. fresh_at f (n + 1) si sid ch True w' \<Longrightarrow> Q 0 w'"
  shows "outc (f = None) (semaphore_lock sid w) Q"
proof (rule after_calls, rule lock.retried_wp)
  show "funded (spend n f) w" "has 1 (spend n f)" "sem_can sid (- 1) w"
    using at assms(2) by (simp_all add: fresh_at_def gone_at_def sem_can_def)
  fix w' assume "calms (spend n f) 1 w w'"
  with at have at': "fresh_at f (n + 1) si sid ch False w'" by (rule fresh_at_calms)
  then show "Q (- 1) w'" by (rule fail)
  assume "sem_can sid (- 1) w'"
  with at' have "fresh_at f (n + 1) si sid ch True (sem_eff sid (- 1) w')"
    by (auto simp: fresh_at_def gone_at_def sem_eff_def sem_add_def battery_ok_def)
  then show "Q 0 (sem_eff sid (- 1) w')" by (rule ok)
qed

text \<open>The critical section: the new slot is ours, or the table is full.\<close>

lemma register_own:
  assumes at: "fresh_at f n si sid ch True w" and d: "used d"
    and room: "has_room (all_drones (sw w)) \<or> dd_location d = LOCATION_MISSION"
  obtains (full) "swarm_add d (sw w) = Some (- 1, sw w)"
      "gone_at f n si sid True (w\<lparr>sw := snd (swarm_next_id (sw w))\<rparr>)"
  | (slot) i s where "swarm_add d (sw w) = Some (i, s)" "i \<noteq> - 1"
      "own_at f n si sid i (dd_location d) False ch True False
         (w\<lparr>sw := snd (swarm_next_id s), me := Some i\<rparr>)"
      "fst (swarm_next_id s) = next_dron_id (all_drones (sw w))"
      "slot (all_drones (snd (swarm_next_id s))) i = d"
proof -
  have ok: "swarm_ok (sw w)" and reach: "swarm_reach si (sw w)"
    using at by (auto simp: fresh_at_def gone_at_def)
  have act: "exec_act (A_register d) (sw w) = snd (swarm_next_id (the_swarm (sw w) (swarm_add d (sw w))))"
    using d room by simp
  note after = exec_act_ok [OF ok, of "A_register d", unfolded act]
    reach_step [OF reach, of "A_register d", unfolded act]
  from ok d show thesis
  proof (cases rule: swarm_add_cases)
    case full
    with after have "swarm_ok (snd (swarm_next_id (sw w)))" "swarm_reach si (snd (swarm_next_id (sw w)))"
      by (simp_all add: the_swarm_def)
    then have "gone_at f n si sid True (w\<lparr>sw := snd (swarm_next_id (sw w))\<rparr>)"
      using at by (simp add: fresh_at_def gone_at_def)
    with full show thesis by (intro that(1))
  next
    case (slot i st)
    let ?s = "(sw w)\<lparr>all_drones := table_added (all_drones (sw w)) i d, free_stack := st\<rparr>"
    have "i \<notin> set (reservers (sw w))" "i \<notin> set (passing (sw w))"
      using ok slot(4) by (auto simp: swarm_ok_def reservations_ok_def gate_ok_def)
    moreover have "swarm_ok (snd (swarm_next_id ?s))" "swarm_reach si (snd (swarm_next_id ?s))"
      using after slot(1) by (simp_all add: the_swarm_def)
    ultimately have "own_at f n si sid i (dd_location d) False ch True False
         (w\<lparr>sw := snd (swarm_next_id ?s), me := Some i\<rparr>)"
      using at slot(3) d
      by (simp add: fresh_at_def gone_at_def own_at_def swarm_next_id_def owned_def battery_ok_def)
    with slot show thesis
      by (intro that(2) [of i ?s]) (auto simp: swarm_next_id_def slot_valid_def)
  qed
qed

lemma try_adding_self_to_shm_wp:
  assumes at: "fresh_at f n si (dron_sem_id w) (dd_location (local_data w) = LOCATION_BASE) False (sys w)"
    and loc: "dd_location (local_data w) = location (internal w)"
      "location (internal w) \<in> {LOCATION_BASE, LOCATION_MISSION}" "have_reserved_space (internal w) = 0"
    and "has m f" and m: "n + 2 \<le> m"
  shows "outc (f = None) (try_adding_self_to_shm w) (\<lambda>r w'. dron_post f m si (dron_sem_id w) (Returned r) w')"
proof -
  have calls: "has (n + 1) f" "has (n + 1 + 1) f"
    by (rule has_mono [OF \<open>has m f\<close>], use m in simp)+
  have used: "used (local_data w)" using loc by auto
  have lost: "dron_post f m si (dron_sem_id w) (Returned (- 1)) (w\<lparr>sys := p, internal := x\<rparr>)"
    "dron_post f m si (dron_sem_id w) (Returned (- 1)) (w\<lparr>sys := p\<rparr>)"
    if "gone_at f (n + 1) si (dron_sem_id w) lk p" for x p lk
    using that m by (auto intro!: dron_post_fail [OF gone_at_safe])
  show ?thesis
    unfolding try_adding_self_to_shm_def outc_bind prod.case outc_on_sys outc_if Let_def
  proof (rule lock_fresh_wp [OF at calls(1)], goal_cases)
    case (2 p)
    show ?case
    proof (cases "has_room (all_drones (sw p)) \<or> dd_location (local_data w) = LOCATION_MISSION")
      case True
      from 2 used True show ?thesis
      proof (cases rule: register_own)
        case full
        with True lost(1) [OF full(2)] show ?thesis
          by (simp add: set_sw_def set_internal_def case_prod_beta)
      next
        case (slot i s)
        have "dron_post f m si (dron_sem_id w) (Returned 0)
            (w\<lparr>internal := (internal w)\<lparr>my_index := i, my_id := x\<rparr>, sys := q\<rparr>)"
          if "own_at f (n + 1 + 1) si (dron_sem_id w) i (dd_location (local_data w)) False
            (dd_location (local_data w) = LOCATION_BASE) False False q" for q x
          by (rule dron_post_ok [of f "n + 1 + 1"]) (use that loc m in \<open>simp_all add: dron_ok_def\<close>)
        with slot True m show ?thesis
          by (auto simp: set_sw_def set_internal_def case_prod_beta
              intro!: unlock_own_wp [OF slot(3) calls(2)] dron_post_lost)
      qed
    next
      case False
      with 2 lost show ?thesis by (auto simp: fresh_at_def)
    qed
  qed (auto simp: fresh_at_def lost)
qed

end
