(* ===== verification/Dron_Effects.thy ===== *)
theory Dron_Effects
  imports Dron_Props
begin

text \<open>
  What the handlers of a drone do when their system calls succeed at once and nobody else acts:
  each performs exactly the actions of theory \<open>Swarm\<close> that it stands for, on every branch.
\<close>

section \<open>Undisturbed calls\<close>

text \<open>The next \<open>k\<close> calls succeed at once; the swarm, the value of the semaphore and the battery are
  as given.\<close>

definition smooth_at :: "nat \<Rightarrow> swarm \<Rightarrow> int \<Rightarrow> int \<Rightarrow> int \<Rightarrow> int \<Rightarrow> os \<Rightarrow> bool" where
  "smooth_at k s i sid v b w \<longleftrightarrow>
     (\<exists>evs. inputs w = replicate k (Event [] (SysOk 1)) @ evs) \<and>
     sw w = s \<and> me w = Some i \<and> sems w sid = Some v \<and> battery_percentage w = b"

lemma smooth_at_less:
  assumes "smooth_at k s i sid v b w" and "j \<le> k"
  shows "smooth_at j s i sid v b w"
proof -
  have "replicate k x = replicate j x @ replicate (k - j) x" for x :: event
    using assms(2) by (simp flip: replicate_add)
  with assms(1) show ?thesis by (auto simp: smooth_at_def)
qed

lemma smooth_at_sw [simp]:
  "smooth_at k s i sid v b w \<Longrightarrow> smooth_at k t i sid v b (w\<lparr>sw := t\<rparr>)"
  "smooth_at k s i sid v b (w\<lparr>is_charging := c\<rparr>) = smooth_at k s i sid v b w"
  "smooth_at k s i sid v b (w\<lparr>got_sigusr1 := c\<rparr>) = smooth_at k s i sid v b w"
  "smooth_at k s i sid v b (w\<lparr>kern := q\<rparr>) = smooth_at k s i sid v b w"
  "smooth_at k s i sid v b (w\<lparr>battery_working := c, battery_created := d\<rparr>) = smooth_at k s i sid v b w"
  by (auto simp: smooth_at_def)

lemma smooth_atD: "smooth_at k s i sid v b w \<Longrightarrow> sw w = s \<and> battery_percentage w = b"
  by (simp add: smooth_at_def)

lemma sync_smooth:
  assumes "smooth_at (Suc k) s i sid v b w" and "\<And>w'. smooth_at k s i sid v b w' \<Longrightarrow> Q (SysOk 1) w'"
  shows "outc False (sync w) Q"
  using assms by (auto simp: smooth_at_def sync_def)

lemma lock_smooth:
  assumes "smooth_at (Suc k) s i sid 1 b w" and "\<And>w'. smooth_at k s i sid 0 b w' \<Longrightarrow> Q 0 w'"
  shows "outc False (semaphore_lock sid w) Q"
  using assms by (auto simp: smooth_at_def semaphore_lock_now [of w "[]" 1] sem_add_def)

lemma unlock_smooth:
  assumes "smooth_at (Suc k) s i sid 0 b w" and "\<And>w'. smooth_at k s i sid 1 b w' \<Longrightarrow> Q 0 w'"
  shows "outc False (semaphore_unlock sid w) Q"
  using assms by (auto simp: smooth_at_def semaphore_unlock_now [of w "[]" 1] sem_add_def)

text \<open>The two ends of a critical section, with the number of calls that are left.\<close>

lemma section_smooth:
  assumes "0 < n"
  shows "smooth_at n s i sid 1 b w \<Longrightarrow>
      outc False (semaphore_lock sid w) (\<lambda>r w'. r = 0 \<and> smooth_at (n - 1) s i sid 0 b w')"
    and "smooth_at n s i sid 0 b w \<Longrightarrow>
      outc False (semaphore_unlock sid w) (\<lambda>r w'. r = 0 \<and> smooth_at (n - 1) s i sid 1 b w')"
    and "smooth_at n s i sid 0 b w \<Longrightarrow>
      outc False (semaphore_unlock sid (w\<lparr>sw := t\<rparr>)) (\<lambda>r w'. r = 0 \<and> smooth_at (n - 1) t i sid 1 b w')"
  using assms lock_smooth [of "n - 1" s i sid b w] unlock_smooth [of "n - 1" s i sid b w]
    unlock_smooth [of "n - 1" t i sid b "w\<lparr>sw := t\<rparr>"]
  by simp_all

lemma gate_in_smooth:
  assumes "smooth_at (Suc (Suc k)) s i sid v b w" and "0 < gate_tokens s" and "0 \<le> fs_file_descriptor f"
    and "\<And>w'. smooth_at k (take_token (Some i) s) i sid v b w' \<Longrightarrow> Q 0 w'"
  shows "outc False (fifo_sem_lock_timeout (Some f) t w) Q"
  using assms
  by (auto simp: smooth_at_def fifo_sem_lock_timeout_def lock_timeout_loop.simps [of w] fifo_poll.simps [of w]
      read_token_loop.simps fifo_read.simps sync_def)

lemma gate_out_smooth:
  assumes "smooth_at (Suc k) s i sid v b w" and "0 \<le> fs_file_descriptor f"
    and "\<And>w'. smooth_at k (put_token (Some i) s) i sid v b w' \<Longrightarrow> Q 0 w'"
  shows "outc False (fifo_sem_unlock (Some f) w) Q"
  using assms
  by (auto simp: smooth_at_def fifo_sem_unlock_def write_token_loop.simps [of w] fifo_write_def sync_def)

lemma detach_smooth:
  assumes "smooth_at (Suc k) s i sid v b w" and "\<And>r w'. smooth_at k s i sid v b w' \<Longrightarrow> Q r w'"
  shows "outc False (shm_detach a w) Q"
  unfolding shm_detach_def outc_bind
  by (rule sync_smooth [OF assms(1)]) (simp add: assms(2))

lemma detach_table_smooth:
  assumes "smooth_at (Suc k) s i sid v b w" and "\<And>t' w'. smooth_at k s i sid v b w' \<Longrightarrow> Q t' w'"
  shows "outc False (detach_table t w) Q" "outc False (detach_stack t w) Q"
  using assms smooth_at_less [OF assms(1), of k]
  by (auto simp: detach_table_def detach_stack_def intro!: detach_smooth split: option.splits)

lemma close_gate_smooth:
  assumes "smooth_at (Suc k) s i sid v b (sys w)" and "\<And>w'. smooth_at k s i sid v b (sys w') \<Longrightarrow> Q () w'"
  shows "outc False (close_gate_fifo w) Q"
proof -
  have "outc False (close_loop (sys w)) (\<lambda>r w'. r = - 1 \<and> smooth_at k s i sid v b w')"
    using assms(1) by (auto simp: smooth_at_def close_loop.simps [of "sys w"] sync_def)
  then have "outc False (fifo_sem_close (Some (fifo_sem w)) (sys w)) (\<lambda>_ (_, w'). smooth_at k s i sid v b w')"
    if "0 < fs_file_descriptor (fifo_sem w)"
    using that by (auto simp: fifo_sem_close_def elim!: outc_mono)
  then show ?thesis
    using assms(2) smooth_at_less [OF assms(1), of k]
    by (auto simp: close_gate_fifo_def split: prod.splits elim!: outc_mono)
qed

lemma join_battery_smooth:
  assumes "smooth_at (Suc k) s i sid v b (sys w)" and "\<And>w'. smooth_at k s i sid v b (sys w') \<Longrightarrow> Q () w'"
  shows "outc False (join_battery w) Q"
  using assms smooth_at_less [OF assms(1), of k]
  by (auto simp: join_battery_def intro!: sync_smooth)

lemma close_main_smooth:
  assumes "smooth_at 4 s i sid v b (sys w)" and "\<And>w'. sw (sys w') = s \<Longrightarrow> Q (Exited c) w'"
  shows "outc False (dron_close_main c w) Q"
proof -
  have "smooth_at (Suc (Suc (Suc (Suc 0)))) s i sid v b (sys w)"
    using assms(1) by (simp add: numeral_eq_Suc)
  then have "outc False (detach_attached (att w) (sys w)) (\<lambda>_ w'. smooth_at (Suc (Suc 0)) s i sid v b w')"
    by (auto simp: detach_attached_def intro!: detach_table_smooth)
  then show ?thesis
    unfolding dron_close_main_def outc_bind Let_def
    by (rule outc_mono) (auto simp: smooth_at_def process_exit_def
        intro!: assms(2) close_gate_smooth [where k = "Suc 0"] join_battery_smooth [where k = 0])
qed

section \<open>The actions of a drone\<close>

lemma dron_delete_action:
  assumes "dron_ok f n si w"
  shows "swarm_delete (my_index (internal w)) (have_reserved_space (internal w)) r (sw (sys w)) =
    Some (my_index (internal w), exec_act (A_delete (my_index (internal w)) r) (sw (sys w)))"
proof -
  let ?i = "my_index (internal w)" and ?v = "have_reserved_space (internal w)" and ?s = "sw (sys w)"
  have own: "swarm_ok ?s" "slot_valid (all_drones ?s) ?i" "used (slot (all_drones ?s) ?i)" "?i \<notin> set (passing ?s)"
    and v: "(if ?i \<in> set (reservers ?s) then 1 else 0) = ?v"
    using assms by (auto simp: dron_ok_def own_at_def owned_def)
  obtain st where "swarm_delete ?i ?v r ?s = Some (?i, ?s\<lparr>all_drones := table_deleted (all_drones ?s) ?i ?v r,
      free_stack := st, reservers := removeAll ?i (reservers ?s)\<rparr>)"
    using swarm_delete_eq [OF own(1-3)] by blast
  with own v show ?thesis by (simp add: the_swarm_def)
qed

text \<open>The state of the drone after the handlers have read the battery.\<close>

lemma leave_swarm_smooth:
  assumes ok: "dron_ok f n si w0" and "internal w = internal w0" "att w = att w0"
    and at: "smooth_at 6 (sw (sys w0)) i (dron_sem_id w) 1 b (sys w)"
    and Q: "\<And>w'. sw (sys w') = exec_act (A_delete (my_index (internal w)) r) (sw (sys w0)) \<Longrightarrow> Q (Exited 0) w'"
  shows "outc False (leave_swarm r w) Q"
proof -
  let ?i = "my_index (internal w)" and ?s = "exec_act (A_delete (my_index (internal w)) r) (sw (sys w0))"
  have at': "smooth_at (Suc 5) (sw (sys w0)) i (dron_sem_id w) 1 b (sys w)"
    using at by (simp add: numeral_eq_Suc)
  have del: "swarm_delete ?i (have_reserved_space (internal w)) r (sw (sys w0)) = Some (?i, ?s)"
    using dron_delete_action [OF ok] assms(2) by simp
  note unlocked = section_smooth(3) [of 5 "sw (sys w0)" i "dron_sem_id w" b, simplified]
  show ?thesis
    unfolding leave_swarm_def outc_bind outc_on_sys prod.case
    by (rule lock_smooth [OF at'])
      (auto simp: delete_self_def set_sw_def del smooth_atD
        intro!: outc_mono [OF unlocked] close_main_smooth Q simp del: exec_act.simps)
qed

section \<open>The handlers\<close>

lemma dron_smooth:
  assumes "dron_ok f n si w" and "inputs (sys w) = replicate k (Event [] (SysOk 1)) @ evs"
  shows "smooth_at k (sw (sys w)) (my_index (internal w)) (dron_sem_id w) 1 (battery_percentage (sys w)) (sys w)"
  using assms by (simp add: smooth_at_def dron_ok_def own_at_def)

lemma read_battery_smooth:
  assumes "smooth_at (Suc k) s i sid v b (sys w)"
    and "\<And>o'. smooth_at k s i sid v b o' \<Longrightarrow> Q b (w\<lparr>sys := o'\<rparr>)"
  shows "outc False (read_battery w) Q"
  unfolding read_battery_def outc_bind outc_on_sys
  by (rule sync_smooth [OF assms(1)]) (use assms(2) in \<open>auto simp: smooth_atD\<close>)

lemma process_sigusr1_exact:
  assumes ok: "dron_ok f n si w" and "inputs (sys w) = replicate 7 (Event [] (SysOk 1)) @ evs"
  shows "outc False (process_sigusr1 w) (\<lambda>st w'.
    if 20 < battery_percentage (sys w)
    then st = Exited 0 \<and>
      sw (sys w') = exec_act (A_delete (my_index (internal w)) DESTRUCTION_REASON_SUICIDE) (sw (sys w))
    else st = Returned 0 \<and> sw (sys w') = sw (sys w) \<and> internal w' = internal w)"
proof -
  let ?w = "w\<lparr>sys := (sys w)\<lparr>got_sigusr1 := False\<rparr>\<rparr>"
  have at: "smooth_at (Suc 6) (sw (sys w)) (my_index (internal w)) (dron_sem_id w) 1 (battery_percentage (sys w)) (sys ?w)"
    using dron_smooth [OF assms] by (simp add: numeral_eq_Suc)
  show ?thesis
    unfolding process_sigusr1_def Let_def outc_bind prod.case
    by (rule read_battery_smooth [OF at]) (auto intro!: leave_swarm_smooth [OF ok] simp: smooth_atD simp del: exec_act.simps)
qed

lemma battery_state_check_exact:
  assumes ok: "dron_ok f n si w" and "inputs (sys w) = replicate 7 (Event [] (SysOk 1)) @ evs"
  shows "outc False (battery_state_check w) (\<lambda>st w'.
    if battery_percentage (sys w) \<le> 0
    then st = Exited 0 \<and>
      sw (sys w') = exec_act (A_delete (my_index (internal w)) DESTRUCTION_REASON_OUT_OF_POWER) (sw (sys w))
    else st = Returned 0 \<and> sw (sys w') = sw (sys w) \<and> internal w' = internal w)"
proof -
  have at: "smooth_at (Suc 6) (sw (sys w)) (my_index (internal w)) (dron_sem_id w) 1 (battery_percentage (sys w)) (sys w)"
    using dron_smooth [OF assms] by (simp add: numeral_eq_Suc)
  show ?thesis
    unfolding battery_state_check_def Let_def outc_bind prod.case
    by (rule read_battery_smooth [OF at]) (auto intro!: leave_swarm_smooth [OF ok] simp: smooth_atD simp del: exec_act.simps)
qed

text \<open>The gate is free again afterwards.\<close>

definition gate_passed :: "int \<Rightarrow> swarm \<Rightarrow> swarm" where
  "gate_passed i s = exec_act (A_leave_gate i) (exec_act (A_enter_gate i) s)"

lemma pass_gate_smooth:
  assumes "smooth_at (Suc (Suc (Suc (Suc k)))) s i sid v b (sys w)" and "0 \<le> fs_file_descriptor (fifo_sem w)"
    and own: "owned i s" "i \<notin> set (passing s)" "0 < gate_tokens s"
    and Q: "\<And>o'. smooth_at k (gate_passed i s) i sid v b o' \<Longrightarrow> Q 0 (w\<lparr>sys := o'\<rparr>)"
  shows "outc False (pass_the_gate_fifo w) Q"
proof -
  have gp: "gate_passed i s = put_token (Some i) (take_token (Some i) s)"
    using own by (simp add: gate_passed_def owned_def take_token_def)
  have leave: "outc False (fifo_sem_unlock (Some (fifo_sem w)) o') (\<lambda>r o''. r = 0 \<and> smooth_at k (gate_passed i s) i sid v b o'')"
    if "smooth_at (Suc k) (take_token (Some i) s) i sid v b o'" for o'
    by (rule gate_out_smooth [OF that assms(2)]) (simp add: gp)
  have inside: "outc False (sync o') (\<lambda>_ o''. smooth_at (Suc k) (take_token (Some i) s) i sid v b o'')"
    if "smooth_at (Suc (Suc k)) (take_token (Some i) s) i sid v b o'" for o'
    by (rule sync_smooth [OF that])
  show ?thesis
    unfolding pass_the_gate_fifo_def outc_bind outc_on_sys prod.case
    by (rule gate_in_smooth [OF assms(1) own(3) assms(2)])
      (auto simp: usleep_def intro!: outc_mono [OF inside] outc_mono [OF leave] Q)
qed

lemma gate_passed_kept:
  assumes "swarm_ok s" and "owned i s" "i \<notin> set (passing s)"
  shows "all_drones (gate_passed i s) = all_drones s" "reservers (gate_passed i s) = reservers s"
    "passing (gate_passed i s) = passing s" "gate_tokens (gate_passed i s) = gate_tokens s"
    "free_stack (gate_passed i s) = free_stack s" "swarm_ok (gate_passed i s)"
  using assms
  by (auto simp: gate_passed_def take_token_def put_token_def removeAll_id exec_act_ok simp del: exec_act.simps(3,4))
    (auto simp: take_token_def put_token_def)

text \<open>Docking and leaving, as a drone that has come through the gate performs them.\<close>

lemma dock_action:
  assumes "swarm_ok s" and "i \<in> set (reservers s)" and "i \<notin> set (passing s)"
  shows "swarm_update i LOCATION_BASE s = Some (0, exec_act (A_dock i) s)"
proof -
  have "slot_valid (all_drones s) i"
    using assms by (auto simp: swarm_ok_defs)
  then show ?thesis using assms by (simp add: swarm_update_eq the_swarm_def)
qed

lemma reserve_action:
  assumes "swarm_ok s" and "owned i s" and "slot_location (all_drones s) i = LOCATION_MISSION"
    and "i \<notin> set (passing s)" and "i \<notin> set (reservers s)" and "has_room (all_drones s)" and "0 < gate_tokens s"
  shows "swarm_reserve i s = exec_act (A_reserve i) s" "swarm_ok (exec_act (A_reserve i) s)"
    "i \<in> set (reservers (exec_act (A_reserve i) s))" "i \<notin> set (passing (exec_act (A_reserve i) s))"
    "0 < gate_tokens (exec_act (A_reserve i) s)"
  using assms exec_act_ok [OF assms(1), of "A_reserve i"] by (auto simp: owned_def swarm_reserve_def)

lemma undock_action:
  assumes "owned i s" and "slot_location (all_drones s) i = LOCATION_BASE" and "i \<notin> set (passing s)"
  shows "swarm_update i LOCATION_MISSION s = Some (0, exec_act (A_undock i) s)"
  using assms by (simp add: swarm_update_eq the_swarm_def owned_def)

lemma enter_base_smooth:
  assumes at: "smooth_at 6 s i (dron_sem_id w) 1 b (sys w)" and fd: "0 \<le> fs_file_descriptor (fifo_sem w)"
    and s: "swarm_ok s" "i \<in> set (reservers s)" "i \<notin> set (passing s)" "0 < gate_tokens s"
    and i: "my_index (internal w) = i"
    and Q: "\<And>w'. sw (sys w') = exec_act (A_dock i) (gate_passed i s) \<Longrightarrow> is_charging (sys w') \<Longrightarrow>
      internal w' = (internal w)\<lparr>have_reserved_space := 0,
        loading_cycles_left := loading_cycles_left (internal w) - 1, location := LOCATION_BASE\<rparr> \<Longrightarrow> Q (Returned 0) w'"
  shows "outc False (enter_base w) Q"
proof -
  let ?g = "gate_passed i s" and ?t = "exec_act (A_dock i) (gate_passed i s)"
  have own: "owned i s" using s(1,2) by (auto simp: swarm_ok_defs owned_def)
  have at': "smooth_at (Suc (Suc (Suc (Suc 2)))) s i (dron_sem_id w) 1 b (sys w)"
    using at by (simp add: numeral_eq_Suc)
  have dock: "swarm_update i LOCATION_BASE ?g = Some (0, ?t)"
    using gate_passed_kept [OF s(1) own s(3)] s by (intro dock_action) auto
  note locked = section_smooth(1) [of 2 ?g i "dron_sem_id w" b, simplified]
    and unlocked = section_smooth(3) [of 1 ?g i "dron_sem_id w" b, simplified]
  show ?thesis
    unfolding enter_base_def outc_bind prod.case
    by (rule pass_gate_smooth [OF at' fd own s(3,4)])
      (auto simp: i dock set_sw_def set_internal_def smooth_atD Let_def simp del: exec_act.simps
        intro!: outc_mono [OF locked] outc_mono [OF unlocked] Q dest: smooth_atD)
qed

lemma force_base_return_exact:
  assumes ok: "dron_ok f n si w" and mission: "location (internal w) = LOCATION_MISSION"
    and events: "inputs (sys w) = replicate 9 (Event [] (SysOk 1)) @ evs"
    and gate: "0 < gate_tokens (sw (sys w))" "0 \<le> fs_file_descriptor (fifo_sem w)"
  shows "outc False (force_base_return w) (\<lambda>st w'.
    let i = my_index (internal w); s = sw (sys w) in
    if 20 \<le> battery_percentage (sys w) \<or>
       0 < loading_cycles_left (internal w) \<and> have_reserved_space (internal w) = 0 \<and> \<not> has_room (all_drones s)
    then st = Returned 0 \<and> sw (sys w') = s \<and> internal w' = internal w
    else if loading_cycles_left (internal w) \<le> 0
    then st = Exited 0 \<and> sw (sys w') = exec_act (A_delete i DESTRUCTION_REASON_DECOMMISSIONED) s
    else st = Returned 0 \<and> is_charging (sys w') \<and>
      sw (sys w') = exec_act (A_dock i) (gate_passed i
        (if have_reserved_space (internal w) = 1 then s else exec_act (A_reserve i) s)) \<and>
      internal w' = (internal w)\<lparr>have_reserved_space := 0,
        loading_cycles_left := loading_cycles_left (internal w) - 1, location := LOCATION_BASE\<rparr>)"
proof -
  let ?i = "my_index (internal w)" and ?s = "sw (sys w)" and ?sid = "dron_sem_id w"
    and ?b = "battery_percentage (sys w)"
  have own: "swarm_ok ?s" "owned ?i ?s" "slot_location (all_drones ?s) ?i = LOCATION_MISSION"
      "?i \<notin> set (passing ?s)" "?i \<in> set (reservers ?s) \<longleftrightarrow> have_reserved_space (internal w) = 1"
      "have_reserved_space (internal w) = 0 \<or> have_reserved_space (internal w) = 1"
    using ok mission by (auto simp: dron_ok_def own_at_def)
  have at: "smooth_at (Suc 8) ?s ?i ?sid 1 ?b (sys w)"
    using dron_smooth [OF ok events] by (simp add: numeral_eq_Suc)
  note locked = section_smooth(1) [of 8 ?s ?i ?sid ?b, simplified]
    and unlocked = section_smooth(2) [of 7 _ ?i ?sid ?b, simplified]
  show ?thesis
    unfolding force_base_return_def outc_bind prod.case
  proof (rule read_battery_smooth [OF at], goal_cases)
    case (1 o')
    have six: "smooth_at 6 ?s ?i ?sid 1 ?b o'" by (rule smooth_at_less [OF 1]) simp
    consider (high) "20 \<le> ?b" | (worn) "?b < 20" "loading_cycles_left (internal w) \<le> 0"
      | (kept) "?b < 20" "0 < loading_cycles_left (internal w)" "have_reserved_space (internal w) = 1"
      | (full) "?b < 20" "0 < loading_cycles_left (internal w)" "have_reserved_space (internal w) = 0"
          "\<not> has_room (all_drones ?s)"
      | (free) "?b < 20" "0 < loading_cycles_left (internal w)" "have_reserved_space (internal w) = 0"
          "has_room (all_drones ?s)"
      using own(6) by linarith
    then show ?case
    proof cases
      case high
      with 1 show ?thesis by (simp add: smooth_atD)
    next
      case worn
      with six show ?thesis
        by (auto intro!: leave_swarm_smooth [OF ok] simp del: exec_act.simps)
    next
      case full
      with 1 show ?thesis
        by (auto simp: smooth_atD simp del: exec_act.simps dest: smooth_atD
            intro!: outc_mono [OF locked] outc_mono [OF unlocked])
    next
      case kept
      with 1 own gate show ?thesis
        by (auto simp del: exec_act.simps intro!: outc_mono [OF locked] outc_mono [OF unlocked] enter_base_smooth)
    next
      case free
      have "?i \<notin> set (reservers ?s)" using own(5) free(3) by simp
      note r = reserve_action [OF own(1-4) this free(4) gate(1)]
      from free 1 r own gate show ?thesis
        by (auto simp: smooth_atD set_sw_def set_internal_def Let_def simp del: exec_act.simps
            intro!: outc_mono [OF locked] outc_mono [OF unlocked] enter_base_smooth)
    qed
  qed
qed

lemma force_leave_base_exact:
  assumes ok: "dron_ok f n si w" and base: "location (internal w) = LOCATION_BASE"
    and events: "inputs (sys w) = replicate 7 (Event [] (SysOk 1)) @ evs"
    and gate: "0 < gate_tokens (sw (sys w))" "0 \<le> fs_file_descriptor (fifo_sem w)"
  shows "outc False (force_leave_base w) (\<lambda>st w'. st = Returned 0 \<and>
    (if battery_percentage (sys w) < 100 then sw (sys w') = sw (sys w) \<and> internal w' = internal w
     else \<not> is_charging (sys w') \<and> internal w' = (internal w)\<lparr>location := LOCATION_MISSION\<rparr> \<and>
       sw (sys w') = exec_act (A_undock (my_index (internal w))) (gate_passed (my_index (internal w)) (sw (sys w)))))"
proof -
  let ?i = "my_index (internal w)" and ?s = "sw (sys w)" and ?sid = "dron_sem_id w"
    and ?b = "battery_percentage (sys w)"
  let ?g = "gate_passed ?i ?s" and ?t = "exec_act (A_undock ?i) (gate_passed ?i ?s)"
  have own: "swarm_ok ?s" "owned ?i ?s" "slot_location (all_drones ?s) ?i = LOCATION_BASE" "?i \<notin> set (passing ?s)"
    using ok base by (auto simp: dron_ok_def own_at_def)
  note kept = gate_passed_kept [OF own(1,2,4)]
  have undock: "swarm_update ?i LOCATION_MISSION ?g = Some (0, ?t)"
    using own kept by (intro undock_action) (auto simp: owned_def)
  have at: "smooth_at (Suc 6) ?s ?i ?sid 1 ?b (sys w)"
    using dron_smooth [OF ok events] by (simp add: numeral_eq_Suc)
  note locked = section_smooth(1) [of 2 ?g ?i ?sid ?b, simplified]
    and unlocked = section_smooth(3) [of 1 ?g ?i ?sid ?b, simplified]
  show ?thesis
    unfolding force_leave_base_def outc_bind prod.case
  proof (rule read_battery_smooth [OF at], goal_cases)
    case (1 o')
    show ?case
    proof (cases "?b < 100")
      case True
      with 1 show ?thesis by (simp add: smooth_atD)
    next
      case False
      have six: "smooth_at (Suc (Suc (Suc (Suc 2)))) ?s ?i ?sid 1 ?b (sys (w\<lparr>sys := o'\<rparr>))"
        using 1 by (simp add: numeral_eq_Suc)
      show ?thesis
        using False base gate
        by (auto simp: undock smooth_atD set_sw_def set_internal_def Let_def simp del: exec_act.simps dest: smooth_atD
            intro!: pass_gate_smooth [OF six _ own(2,4)] outc_mono [OF locked] outc_mono [OF unlocked])
    qed
  qed
qed

end
