(* ===== verification/Progress.thy ===== *)
theory Progress
  imports Dron_Props
begin

text \<open>
  Progress of a drone: every round of its loop consumes events of the environment, a request to
  shut down among them is noticed, and the loop ends.  The relation \<open>advances\<close> follows the events
  that a call consumes; all calls of the drone respect it, and so do the handlers built from them.
\<close>

section \<open>Consuming events\<close>

fun shuts :: "event \<Rightarrow> bool" where
  "shuts (Event es r) \<longleftrightarrow> Signal_shutdown \<in> set es"

definition advances :: "nat \<Rightarrow> os \<Rightarrow> os \<Rightarrow> bool" where
  "advances n w w' \<longleftrightarrow>
     (\<exists>evs. inputs w = evs @ inputs w' \<and> n \<le> length evs \<and>
        (got_shutdown_requested w \<or> list_ex shuts evs \<longrightarrow> got_shutdown_requested w'))"

lemma advances_refl [simp]: "advances 0 w w"
  by (simp add: advances_def)

lemma advances_trans: "advances m u v \<Longrightarrow> advances n v w \<Longrightarrow> advances (m + n) u w"
  unfolding advances_def by (elim exE conjE) (rule exI, auto)

lemma advances_mono: "advances n w w' \<Longrightarrow> m \<le> n \<Longrightarrow> advances m w w'"
  by (auto simp: advances_def)

lemma advances_updates [simp]:
  "advances n u (w\<lparr>me := i\<rparr>) = advances n u w" "advances n u (w\<lparr>sw := s\<rparr>) = advances n u w"
  "advances n u (w\<lparr>kern := k\<rparr>) = advances n u w" "advances n u (w\<lparr>sems := m\<rparr>) = advances n u w"
  "advances n u (w\<lparr>semadj := a\<rparr>) = advances n u w" "advances n u (w\<lparr>is_charging := c\<rparr>) = advances n u w"
  "advances n u (w\<lparr>got_sigusr1 := g\<rparr>) = advances n u w"
  "advances n u (w\<lparr>battery_working := c\<rparr>) = advances n u w" "advances n u (w\<lparr>battery_created := c\<rparr>) = advances n u w"
  by (simp_all add: advances_def)

lemma apply_steps_shutdown:
  "got_shutdown_requested (fold apply_step es w) \<longleftrightarrow> got_shutdown_requested w \<or> Signal_shutdown \<in> set es"
proof (induction es arbitrary: w)
  case (Cons e es)
  then show ?case by (cases e) auto
qed simp

lemma sync_advances: "sync w = Some (r, w') \<Longrightarrow> advances 1 w w'"
  by (auto simp: sync_def advances_def apply_steps_shutdown split: list.splits event.splits)

text \<open>A request that is still pending reaches the process after as many events.\<close>

definition pending :: "nat \<Rightarrow> os \<Rightarrow> bool" where
  "pending n w \<longleftrightarrow> got_shutdown_requested w \<or> list_ex shuts (take n (inputs w))"

lemma pending_advances: "pending (Suc n) w \<Longrightarrow> advances 1 w w' \<Longrightarrow> pending n w'"
proof -
  assume p: "pending (Suc n) w" and "advances 1 w w'"
  then obtain evs where evs: "inputs w = evs @ inputs w'" "1 \<le> length evs"
      "got_shutdown_requested w \<or> list_ex shuts evs \<longrightarrow> got_shutdown_requested w'"
    by (auto simp: advances_def)
  have "set (take (Suc n) (inputs w)) \<subseteq> set evs \<union> set (take n (inputs w'))"
    using evs(1,2) set_take_subset [of "Suc n" evs]
      set_take_subset_set_take [of "Suc n - length evs" n "inputs w'"] by fastforce
  with p evs(3) show "pending n w'"
    by (auto simp: pending_def list_ex_iff)
qed

section \<open>The calls\<close>

text \<open>In the middle of a function that was entered in \<open>u\<close>.\<close>

named_theorems adv_rules \<open>calls consume events\<close>

lemma sync_adv [adv_rules]:
  assumes "advances n u w" and "\<And>r w'. advances n u w' \<Longrightarrow> Q r w'"
  shows "wp (sync w) Q"
proof (rule wp_I)
  fix r w' assume "sync w = Some (r, w')"
  from advances_trans [OF assms(1) sync_advances [OF this]] show "Q r w'"
    by (intro assms(2)) (auto elim: advances_mono)
qed

lemma sync_advD:
  "advances n u w \<Longrightarrow> sync w = Some (r, w') \<Longrightarrow> advances n u w' \<and> length (inputs w') < length (inputs w)"
  using sync_adv [of n u w "\<lambda>_. advances n u"] by (auto dest: sync_inputs)

lemma blocking_call_adv:
  assumes "advances n u w"
    and "\<And>w. advances n u w \<Longrightarrow>
      (\<And>w'. advances n u w' \<and> length (inputs w') < length (inputs w) \<Longrightarrow> wp (f w') Q) \<Longrightarrow> wp (f w) Q"
  shows "wp (f w) Q"
  using assms(1) by (induction "length (inputs w)" arbitrary: w rule: less_induct) (blast intro: assms(2))

lemma semop_adv [adv_rules]:
  assumes "advances n u w" and "\<And>r w'. advances n u w' \<Longrightarrow> Q r w'"
  shows "wp (semop sid d w) Q"
  using assms(1)
  by (rule blocking_call_adv, subst semop.simps)
    (auto simp: sem_add_def intro!: assms(2) dest: sync_advD split: option.splits sysret.splits)

lemma fifo_read_adv [adv_rules]:
  assumes "advances n u w" and "\<And>r w'. advances n u w' \<Longrightarrow> Q r w'"
  shows "wp (fifo_read w) Q"
  using assms(1)
  by (rule blocking_call_adv, subst fifo_read.simps)
    (auto intro!: assms(2) dest: sync_advD split: option.splits sysret.splits)

lemma fifo_poll_adv [adv_rules]:
  assumes "advances n u w" and "\<And>r w'. advances n u w' \<Longrightarrow> Q r w'"
  shows "wp (fifo_poll w) Q"
  using assms(1)
  by (rule blocking_call_adv, subst fifo_poll.simps)
    (auto intro!: assms(2) dest: sync_advD split: option.splits sysret.splits)

lemma fifo_write_adv [adv_rules]:
  assumes "advances n u w" and "\<And>r w'. advances n u w' \<Longrightarrow> Q r w'"
  shows "wp (fifo_write w) Q"
  unfolding fifo_write_def outc_bind
  by (rule sync_adv [OF assms(1)]) (simp add: assms(2) split: sysret.splits)

text \<open>The loops that retry such a call, through the rule of their interface.\<close>

lemmas retry_adv = lock.loop_wp unlock.loop_wp rd.loop_wp wr.loop_wp cl.loop_wp

lemma semaphore_adv [adv_rules]:
  assumes "advances n u w" and "\<And>r w'. advances n u w' \<Longrightarrow> Q r w'"
  shows "wp (semaphore_lock sid w) Q" "wp (semaphore_unlock sid w) Q"
  by (rule retry_adv [where I = "advances n u", OF assms(1)], erule semop_adv, simp add: assms(2) split: sysret.splits)+

lemma token_adv [adv_rules]:
  assumes "advances n u w" and "\<And>r w'. advances n u w' \<Longrightarrow> Q r w'"
  shows "wp (read_token_loop w) Q" "wp (write_token_loop w) Q" "wp (close_loop w) Q"
  by (rule rd.loop_wp [where I = "advances n u", OF assms(1)], erule fifo_read_adv, simp add: assms(2) split: sysret.splits)
    (rule wr.loop_wp [where I = "advances n u", OF assms(1)], erule fifo_write_adv, simp add: assms(2) split: sysret.splits,
     rule cl.loop_wp [where I = "advances n u", OF assms(1)], erule sync_adv, simp add: assms(2) split: sysret.splits)

lemma fifo_poll_advD:
  "advances n u w \<Longrightarrow> fifo_poll w = Some (r, w') \<Longrightarrow> advances n u w' \<and> length (inputs w') < length (inputs w)"
  using fifo_poll_adv [of n u w "\<lambda>_. advances n u"] by (auto dest: fifo_poll_inputs)

lemma lock_timeout_adv [adv_rules]:
  assumes "advances n u w" and "\<And>r w'. advances n u w' \<Longrightarrow> Q r w'"
  shows "wp (lock_timeout_loop w) Q"
  using assms(1)
  by (rule blocking_call_adv, subst lock_timeout_loop.simps)
    (auto intro!: assms(2) token_adv(1) dest: fifo_poll_advD split: option.splits sysret.splits)

section \<open>The drone\<close>

text \<open>The same for functions on the state of the drone.\<close>

abbreviation adv :: "nat \<Rightarrow> os \<Rightarrow> dron \<Rightarrow> bool" where
  "adv n u w \<equiv> advances n u (sys w)"

lemma swarm_adv [adv_rules]:
  "(\<And>r s. Q r s) \<Longrightarrow> wp (swarm_delete i v r' t) Q" "(\<And>r s. Q r s) \<Longrightarrow> wp (swarm_update i l t) Q"
  by (auto intro: wp_I)

lemma gate_adv [adv_rules]:
  assumes "advances n u w" and "\<And>r w'. advances n u w' \<Longrightarrow> Q r w'"
  shows "wp (fifo_sem_lock_timeout fs t w) Q" "wp (fifo_sem_unlock fs w) Q"
  using assms by (auto simp: fifo_sem_lock_timeout_def fifo_sem_unlock_def intro!: adv_rules split: option.splits)

lemma detach_adv [adv_rules]:
  assumes "advances n u w" and "\<And>r w'. advances n u w' \<Longrightarrow> Q r w'"
  shows "wp (shm_detach a w) Q"
  unfolding shm_detach_def outc_bind
  by (rule sync_adv [OF assms(1)]) (auto simp: assms(2) split: sysret.splits)

lemma close_main_parts_adv:
  assumes "adv n u w" and "\<And>r w'. adv n u w' \<Longrightarrow> Q r w'"
  shows "wp (close_gate_fifo w) Q" "wp (join_battery w) Q"
  using assms
  by (auto simp: close_gate_fifo_def join_battery_def fifo_sem_close_def intro!: adv_rules split: option.splits)

lemma detach_attached_adv [adv_rules]:
  assumes "advances n u w" and "\<And>r w'. advances n u w' \<Longrightarrow> Q r w'"
  shows "wp (detach_attached t w) Q"
  using assms
  by (auto simp: detach_attached_def detach_table_def detach_stack_def intro!: adv_rules split: option.splits)

lemma close_main_adv:
  assumes "adv n u w"
  shows "wp (dron_close_main c w) (\<lambda>_ w'. adv n u w')"
  using assms
  by (auto simp: dron_close_main_def Let_def process_exit_def intro!: adv_rules close_main_parts_adv)

lemma leave_swarm_adv:
  assumes "adv n u w"
  shows "wp (leave_swarm r w) (\<lambda>_ w'. adv n u w')"
  using assms by (auto simp: leave_swarm_def delete_self_def set_sw_def intro!: adv_rules close_main_adv)

lemma pass_the_gate_fifo_adv:
  assumes "adv n u w" and "\<And>r w'. adv n u w' \<Longrightarrow> Q r w'"
  shows "wp (pass_the_gate_fifo w) Q"
  using assms by (auto simp: pass_the_gate_fifo_def usleep_def intro!: adv_rules)

lemma enter_base_adv:
  assumes "adv n u w"
  shows "wp (enter_base w) (\<lambda>_ w'. adv n u w')"
  using assms
  by (auto simp: enter_base_def set_sw_def set_internal_def Let_def intro!: adv_rules pass_the_gate_fifo_adv)

lemma read_battery_adv:
  assumes "adv n u w" and "\<And>r w'. adv n u w' \<Longrightarrow> Q r w'"
  shows "wp (read_battery w) Q"
  using assms by (auto simp: read_battery_def intro!: adv_rules)

lemma handlers_adv:
  assumes "adv n u w"
  shows "wp (process_sigusr1 w) (\<lambda>_ w'. adv n u w')" "wp (battery_state_check w) (\<lambda>_ w'. adv n u w')"
    "wp (force_base_return w) (\<lambda>_ w'. adv n u w')" "wp (force_leave_base w) (\<lambda>_ w'. adv n u w')"
    "wp (dron_describe_self w) (\<lambda>_ w'. adv n u w')"
  using assms
  by (auto simp: process_sigusr1_def battery_state_check_def force_base_return_def force_leave_base_def
      dron_describe_self_def set_sw_def set_internal_def Let_def
      intro!: read_battery_adv leave_swarm_adv enter_base_adv pass_the_gate_fifo_adv adv_rules)

lemma then_do_adv:
  assumes "wp x (\<lambda>_ w'. adv n u w')" and "\<And>w'. adv n u w' \<Longrightarrow> wp (f w') R" and "\<And>c w'. R (Exited c) w'"
  shows "wp (then_do bad x f) R"
proof -
  have "wp (dron_close_main c w') R" for c w'
    by (rule wp_I) (auto simp: dron_close_main_def assms(3) split: bind_splits)
  then show ?thesis
    unfolding then_do_def outc_bind
    by (intro outc_mono [OF assms(1)]) (auto intro: assms(2,3) split: status.splits)
qed

text \<open>A round that does not end the process has consumed an event.\<close>

lemma dron_round_adv:
  "wp (dron_round w) (\<lambda>st w'. (\<exists>c. st = Exited c) \<or> adv 1 (sys w) w')"
proof -
  have pause: "wp (usleep w') (\<lambda>_ w''. adv 1 (sys w) w'')" if "adv 0 (sys w) w'" for w'
    using advances_trans [OF that sync_advances] by (auto simp: usleep_def intro!: wp_I)
  show ?thesis
    unfolding dron_round_def
    by (intro then_do_adv [where n = 0 and u = "sys w"])
      (auto intro!: handlers_adv outc_mono [OF pause] outc_mono [OF handlers_adv(5)] simp del: One_nat_def)
qed

text \<open>A shutdown request that is among the next \<open>n\<close> events ends the loop within \<open>n\<close> rounds, if
  no call is interrupted and nobody else takes a token of the gate.\<close>

lemma dron_shutdown_now:
  assumes "dron_ok (Some k) m si w" and "got_shutdown_requested (sys w)" and "m + 4 \<le> k"
  shows "\<exists>w'. dron_loop n w = Some (Exited 0, w') \<and> ended_at si (dron_sem_id w) (sys w')"
proof -
  have "outc False (dron_close_main EXIT_SUCCESS w) (\<lambda>st w'. st = Exited 0 \<and> ended_at si (dron_sem_id w) (sys w'))"
    using close_main_wp [of "Some k" m si "dron_sem_id w" w] assms(1,3) by (auto simp: dron_ok_def dest: own_at_safe)
  with assms(2) show ?thesis by (cases n) (auto simp: outc_False)
qed

lemma dron_loop_ends:
  assumes "dron_ok (Some k) m si w" and "pending n (sys w)" and "m + 25 * n + 4 \<le> k"
  shows "\<exists>c w'. dron_loop n w = Some (Exited c, w') \<and> ended_at si (dron_sem_id w) (sys w')"
  using assms
proof (induction n arbitrary: m w)
  case 0
  then show ?case using dron_shutdown_now [of k m si w 0] by (auto simp: pending_def)
next
  case (Suc n)
  show ?case
  proof (cases "got_shutdown_requested (sys w)")
    case True
    with Suc.prems dron_shutdown_now [of k m si w "Suc n"] show ?thesis by auto
  next
    case False
    have "outc False (dron_round w) (round_post (Some k) (m + 25) si (dron_sem_id w))"
      using dron_round_wp [OF Suc.prems(1)] Suc.prems(3) by simp
    then obtain st w1 where st: "dron_round w = Some (st, w1)" "round_post (Some k) (m + 25) si (dron_sem_id w) st w1"
      by (auto simp: outc_False)
    show ?thesis
    proof (cases st)
      case (Exited c)
      with st False show ?thesis by (auto simp: round_post_def)
    next
      case (Returned r)
      with st have ok: "dron_ok (Some k) (m + 25) si w1" "dron_sem_id w1 = dron_sem_id w"
        by (auto simp: round_post_def)
      moreover have "adv 1 (sys w) w1"
        using dron_round_adv [of w] st(1) Returned by simp
      then have "pending n (sys w1)" by (rule pending_advances [OF Suc.prems(2)])
      ultimately show ?thesis
        using Suc.IH [OF ok(1)] Suc.prems(3) False st(1) Returned by simp
    qed
  qed
qed

end
