(* ===== verification/Operator.thy ===== *)
theory Operator
  imports Client Parsing
begin

text \<open>
  The operator process, \<^verbatim>\<open>src/src/operator/operator.c\<close>: it launches the first drones, then
  launches a drone whenever the base has room, and changes the number of platforms when the
  commander signals.  The record \<open>operator\<close> holds its global variables; \<open>launched\<close> records
  the argument vectors of the drones it has started.
\<close>

section \<open>State\<close>

record operator =
  op_sys :: os
  local_configuration :: SHM_Configuration
  op_att :: attachments
  launched :: "string list list"

definition on_op :: "(os \<Rightarrow> ('r \<times> os) option) \<Rightarrow> operator \<Rightarrow> ('r \<times> operator) option" where
  "on_op f w = do { (r, s) \<leftarrow> f (op_sys w); Some (r, w\<lparr>op_sys := s\<rparr>) }"

abbreviation op_table :: "operator \<Rightarrow> SHM_AllDronesData" where
  "op_table w \<equiv> all_drones (sw (op_sys w))"

definition op_set_sw :: "swarm \<Rightarrow> operator \<Rightarrow> operator" where
  "op_set_sw s w = w\<lparr>op_sys := (op_sys w)\<lparr>sw := s\<rparr>\<rparr>"

section \<open>Launching drones\<close>

text \<open>What the child does after \<open>fork\<close>: \<open>Inl\<close> is the argument vector (without the name of the
  program) of the drone it becomes, \<open>Inr\<close> the code of \<open>_exit\<close>.  The buffer has 16 bytes.\<close>

definition dron_child :: "DronData_Location \<Rightarrow> string list + int" where
  "dron_child loc =
     (let slot_arg = show_int (int_of_location loc)
      in if 16 \<le> length slot_arg then Inr 1 else Inl [slot_arg])"

text \<open>The parent's side; a child that \<open>_exit\<close>s launches nothing.\<close>

definition creat_dron :: "DronData_Location \<Rightarrow> operator \<Rightarrow> (int \<times> operator) option" where
  "creat_dron loc w = do {
     (pid, w) \<leftarrow> on_op plain_call w;
     if pid < 0 then Some (- 1, w)
     else Some (pid, w\<lparr>launched := (case dron_child loc of Inl argv \<Rightarrow> argv # launched w
                                                        | Inr _ \<Rightarrow> launched w)\<rparr>)
   }"

text \<open>The loop with \<open>n\<close> drones left.\<close>

fun generate_drones :: "nat \<Rightarrow> operator \<Rightarrow> (int \<times> operator) option" where
  "generate_drones 0 w = Some (0, w)"
| "generate_drones (Suc n) w =
     (if got_shutdown_requested (op_sys w) then Some (0, w)
      else do {
        (pid, w) \<leftarrow> creat_dron LOCATION_MISSION w;
        if pid < 0 then Some (- 1, w) else generate_drones n w
      })"

definition generate_starting_drones :: "operator \<Rightarrow> (int \<times> operator) option" where
  "generate_starting_drones w =
     generate_drones (nat (starting_drones_count (local_configuration w))) w"

section \<open>Start and end\<close>

text \<open>\<open>while (wait (&status) > 0);\<close>\<close>

function wait_children :: "os \<Rightarrow> (unit \<times> os) option" where
  "wait_children w =
     (case sync w of
        None \<Rightarrow> None
      | Some (SysOk n, w') \<Rightarrow> if n > 0 then wait_children w' else Some ((), w')
      | Some (SysErr _, w') \<Rightarrow> Some ((), w'))"
  by pat_completeness auto
termination
  by (relation "measure (\<lambda>w. length (inputs w))") (auto dest: sync_inputs)

declare wait_children.simps [simp del]

definition operator_close_main :: "int \<Rightarrow> operator \<Rightarrow> (status \<times> operator) option" where
  "operator_close_main exit_code w = do {
     (t, s) \<leftarrow> detach_attached (op_att w) (op_sys w);
     let w = w\<lparr>op_att := t\<lparr>at_sem_id := (if at_sem_id t > - 1 then - 1 else at_sem_id t)\<rparr>, op_sys := s\<rparr>;
     (_, w) \<leftarrow> on_op wait_children w;
     Some (Exited exit_code, w\<lparr>op_sys := process_exit (op_sys w)\<rparr>)
   }"

definition get_configuration_from_shm_config :: "operator \<Rightarrow> (int \<times> operator) option" where
  "get_configuration_from_shm_config w = do {
     (cfg, w) \<leftarrow> on_op (fetch_configuration (\<lambda>i. i = - 1)) w;
     case cfg of None \<Rightarrow> Some (- 1, w) | Some c \<Rightarrow> Some (0, w\<lparr>local_configuration := c\<rparr>)
   }"

definition operator_get_shm_all_drones_data :: "operator \<Rightarrow> (int \<times> operator) option" where
  "operator_get_shm_all_drones_data w = do {
     (r, t, s) \<leftarrow> get_shm_all_drones_data True (op_att w) (op_sys w);
     Some (r, w\<lparr>op_att := t, op_sys := s\<rparr>)
   }"

section \<open>The main loop\<close>

text \<open>A critical section: the work \<open>f\<close> between \<open>semaphore_lock\<close> and \<open>semaphore_unlock\<close>, each of
  which ends the process when it fails.  What follows (\<open>g\<close>) may use values that were read in
  the section; \<open>v\<close> is the state at its end.\<close>

definition op_critical ::
  "(operator \<Rightarrow> operator) \<Rightarrow> operator \<Rightarrow> (operator \<Rightarrow> operator \<Rightarrow> (status \<times> operator) option) \<Rightarrow>
     (status \<times> operator) option" where
  "op_critical f w g = do {
     (r, w) \<leftarrow> on_op (semaphore_lock (at_sem_id (op_att w))) w;
     if r = - 1 then operator_close_main EXIT_FAILURE w
     else do {
       let v = f w;
       (r, w) \<leftarrow> on_op (semaphore_unlock (at_sem_id (op_att v))) v;
       if r = - 1 then operator_close_main EXIT_FAILURE w else g v w
     }
   }"

text \<open>\<open>SIGUSR1\<close>: double the number of platforms, below twice the initial number of drones.\<close>

definition add_platforms :: "operator \<Rightarrow> operator" where
  "add_platforms w =
     (let new_max = maximum_dron_in_base_count (op_table w) * 2;
          new_max = (if new_max \<ge> starting_drones_count (local_configuration w) * 2
                     then starting_drones_count (local_configuration w) * 2 - 1 else new_max)
      in op_set_sw (set_maximum new_max (sw (op_sys w))) w)"

definition operator_sigusr1 :: "operator \<Rightarrow> (status \<times> operator) option" where
  "operator_sigusr1 w =
     op_critical add_platforms (w\<lparr>op_sys := (op_sys w)\<lparr>got_sigusr1 := False\<rparr>\<rparr>)
       (\<lambda>_ w. Some (Returned 0, w))"

text \<open>\<open>SIGUSR2\<close>: halve it, and shut down when nothing is left.  The value that is tested was
  read before the semaphore is released.\<close>

definition remove_platforms :: "operator \<Rightarrow> operator" where
  "remove_platforms w =
     op_set_sw (set_maximum (maximum_dron_in_base_count (op_table w) sdiv 2) (sw (op_sys w))) w"

definition operator_sigusr2 :: "operator \<Rightarrow> (status \<times> operator) option" where
  "operator_sigusr2 w =
     op_critical remove_platforms (w\<lparr>op_sys := (op_sys w)\<lparr>got_sigusr2 := False\<rparr>\<rparr>)
       (\<lambda>v w. let new_max = maximum_dron_in_base_count (op_table v)
              in Some (Returned 0,
                   if new_max \<le> 0 then w\<lparr>op_sys := (op_sys w)\<lparr>got_shutdown_requested := True\<rparr>\<rparr>
                   else w))"

text \<open>Whether there is room is decided under the semaphore, the drone is launched without it.\<close>

definition operator_resupply :: "operator \<Rightarrow> (status \<times> operator) option" where
  "operator_resupply w =
     op_critical (\<lambda>w. w) w
       (\<lambda>v w. let can_create_dron = has_room (op_table v)
              in if can_create_dron then do {
                   (_, w) \<leftarrow> creat_dron LOCATION_BASE w;
                   Some (Returned 0, w)
                 } else Some (Returned 0, w))"

text \<open>The output of \<open>describe_self\<close> is left out; a failure of it ends the process.\<close>

definition operator_describe_self :: "operator \<Rightarrow> (status \<times> operator) option" where
  "operator_describe_self w = op_critical (\<lambda>w. w) w (\<lambda>_ w. Some (Returned 0, w))"

definition op_then ::
  "(status \<times> operator) option \<Rightarrow> (operator \<Rightarrow> (status \<times> operator) option) \<Rightarrow> (status \<times> operator) option" where
  "op_then x f = do {
     (st, w) \<leftarrow> x;
     case st of Exited c \<Rightarrow> Some (Exited c, w) | Returned _ \<Rightarrow> f w
   }"

definition operator_round :: "operator \<Rightarrow> (status \<times> operator) option" where
  "operator_round w =
     op_then (if got_sigusr1 (op_sys w) then operator_sigusr1 w else Some (Returned 0, w)) (\<lambda>w.
     op_then (if got_sigusr2 (op_sys w) then operator_sigusr2 w else Some (Returned 0, w)) (\<lambda>w.
     op_then (operator_resupply w) (\<lambda>w.
     op_then (operator_describe_self w) (\<lambda>w. do {
       (_, w) \<leftarrow> on_op sync w \<comment> \<open>\<open>usleep\<close>\<close>;
       Some (Returned 0, w)
     }))))"

text \<open>The loop, followed for at most \<open>n\<close> rounds; \<open>None\<close> means that it still runs.\<close>

fun operator_loop :: "nat \<Rightarrow> operator \<Rightarrow> (status \<times> operator) option" where
  "operator_loop 0 w =
     (if got_shutdown_requested (op_sys w) then operator_close_main EXIT_SUCCESS w else None)"
| "operator_loop (Suc n) w =
     (if got_shutdown_requested (op_sys w) then operator_close_main EXIT_SUCCESS w
      else op_then (operator_round w) (operator_loop n))"

fun op_plain_calls :: "nat \<Rightarrow> operator \<Rightarrow> (int \<times> operator) option" where
  "op_plain_calls 0 w = Some (0, w)"
| "op_plain_calls (Suc n) w = do {
     (r, w) \<leftarrow> on_op plain_call w;
     if r = - 1 then Some (- 1, w) else op_plain_calls n w
   }"

definition op_or_fail ::
  "(int \<times> operator) option \<Rightarrow> (operator \<Rightarrow> (status \<times> operator) option) \<Rightarrow> (status \<times> operator) option" where
  "op_or_fail x f = do {
     (r, w) \<leftarrow> x;
     if r \<noteq> 0 then operator_close_main EXIT_FAILURE w else f w
   }"

text \<open>\<open>main\<close>: the log file, five calls of \<open>sigaction\<close>, the configuration, the shared memory, the
  first drones, the loop.\<close>

definition operator_main :: "nat \<Rightarrow> operator \<Rightarrow> (status \<times> operator) option" where
  "operator_main n w = do {
     (log_file_descriptor, w) \<leftarrow> on_op plain_call w;
     if log_file_descriptor < 0 then operator_close_main EXIT_FAILURE w
     else
       op_or_fail (op_plain_calls 5 w) (\<lambda>w.
       op_or_fail (get_configuration_from_shm_config w) (\<lambda>w.
       op_or_fail (operator_get_shm_all_drones_data w) (\<lambda>w.
       op_or_fail (generate_starting_drones w) (operator_loop n))))
   }"

section \<open>The operator keeps the swarm in order\<close>

text \<open>Between two steps the operator does not hold the semaphore of the table, and its copy of
  the configuration is the shared one.\<close>

definition operator_ok :: "swarm \<Rightarrow> int \<Rightarrow> operator \<Rightarrow> bool" where
  "operator_ok si sid w \<longleftrightarrow>
     gone_at None 0 si sid False (op_sys w) \<and> at_sem_id (op_att w) = sid \<and>
     local_configuration w = config (sw (op_sys w))"

definition operator_post :: "swarm \<Rightarrow> int \<Rightarrow> status \<Rightarrow> operator \<Rightarrow> bool" where
  "operator_post si sid st w \<longleftrightarrow>
     (case st of Returned r \<Rightarrow> operator_ok si sid w | Exited c \<Rightarrow> ended_at si sid (op_sys w))"

lemma wp_on_op [simp]: "outc b (on_op f w) Q \<longleftrightarrow> outc b (f (op_sys w)) (\<lambda>r s. Q r (w\<lparr>op_sys := s\<rparr>))"
  by (simp add: on_op_def)

lemma wait_children_wp:
  assumes "\<And>w'. calm w w' \<Longrightarrow> Q () w'"
  shows "wp (wait_children w) Q"
  using assms
proof (induction "length (inputs w)" arbitrary: w rule: less_induct)
  case less
  show ?case
  proof (cases "sync w")
    case None
    then show ?thesis by (subst wait_children.simps) simp
  next
    case (Some p)
    obtain r w' where p: "p = (r, w')" by (cases p)
    with Some have calm: "calm w w'" and "length (inputs w') < length (inputs w)"
      by (auto dest: sync_calm sync_inputs)
    then have "wp (wait_children w') Q"
      using less.prems calm_trans [OF calm] by (intro less.hyps) auto
    with Some p calm less.prems show ?thesis
      by (subst wait_children.simps) (auto split: sysret.splits)
  qed
qed

lemma operator_close_main_wp:
  assumes "safe_at None 0 si sid (op_sys w)"
  shows "wp (operator_close_main c w) (\<lambda>st w'. st = Exited c \<and> ended_at si sid (op_sys w'))"
proof -
  have ends: "wp (wait_children s) (\<lambda>_ s. ended_at si sid (process_exit s))" if "safe_at None 0 si sid s" for s
    using that safe_at_calms [of None 0 si sid s 0] safe_at_exit
    by (intro wait_children_wp) fastforce
  have "wp (detach_attached (op_att w) (op_sys w)) (\<lambda>_ s. safe_at None 0 si sid s)"
    using detach_attached_wp [OF assms, of "\<lambda>_ s. safe_at None 0 si sid s"] by simp
  then show ?thesis
    using ends unfolding operator_close_main_def Let_def
    by (auto elim!: outc_mono)
qed

lemma operator_fails: "gone_at None 0 si sid lk (op_sys w) \<Longrightarrow> wp (operator_close_main c w) (operator_post si sid)"
  by (rule outc_mono [OF operator_close_main_wp [OF gone_at_safe]]) (simp_all add: operator_post_def)

text \<open>A critical section whose work is an action of the swarm, or only reads.\<close>

lemma op_critical_wp:
  assumes ok: "operator_ok si sid w"
    and act: "\<And>v. local_configuration v = config (sw (op_sys v)) \<Longrightarrow>
      \<exists>s. h v = op_set_sw s v \<and> (s = sw (op_sys v) \<or> (\<exists>a. s = exec_act a (sw (op_sys v))))"
    and rest: "\<And>v w'. operator_ok si sid w' \<Longrightarrow> wp (g v w') (operator_post si sid)"
  shows "wp (op_critical h w g) (operator_post si sid)"
proof -
  have at: "gone_at None 0 si sid False (op_sys w)" "at_sem_id (op_att w) = sid"
      "local_configuration w = config (sw (op_sys w))"
    using ok by (simp_all add: operator_ok_def)
  have unlock: "wp (semaphore_unlock sid s) (\<lambda>r s'.
        (r = - 1 \<longrightarrow> wp (operator_close_main EXIT_FAILURE (w\<lparr>op_sys := s'\<rparr>)) (operator_post si sid)) \<and>
        (r \<noteq> - 1 \<longrightarrow> wp (g v (w\<lparr>op_sys := s'\<rparr>)) (operator_post si sid)))"
    if s: "gone_at None 0 si sid True s" "config (sw s) = config (sw (op_sys w))" for s v
  proof (rule unlock.retried_wp [where f = None, simplified], goal_cases)
    case (1 s')
    then have "gone_at None 0 si sid True s'"
      using gone_at_calms [OF s(1), of 0 s'] by simp
    then show ?case by (simp add: operator_fails)
  next
    case (2 s')
    then have "gone_at None 0 si sid True s'" "config (sw s') = config (sw s)"
      using gone_at_calms [OF s(1), of 0 s'] by (simp_all add: calm_def)
    then have "operator_ok si sid (w\<lparr>op_sys := sem_eff sid 1 s'\<rparr>)"
      using s(2) at by (simp add: operator_ok_def gone_at_def sem_eff_def sem_add_def)
    with rest show ?case by simp
  qed
  show ?thesis
    unfolding op_critical_def outc_bind prod.case wp_on_op outc_if Let_def at(2)
  proof (rule lock_gone_wp [OF at(1), simplified], goal_cases)
    case (1 s)
    then show ?case by (simp add: operator_fails)
  next
    case (2 s)
    then have "local_configuration (w\<lparr>op_sys := s\<rparr>) = config (sw (op_sys (w\<lparr>op_sys := s\<rparr>)))"
      using at(3) by simp
    then obtain t where t: "h (w\<lparr>op_sys := s\<rparr>) = op_set_sw t (w\<lparr>op_sys := s\<rparr>)"
        "t = sw s \<or> (\<exists>a. t = exec_act a (sw s))"
      using act by fastforce
    then have "gone_at None 0 si sid True (s\<lparr>sw := t\<rparr>)" "config t = config (sw s)"
      using gone_action [of None 0 si sid True s] 2 by auto
    then show ?case
      using unlock [of "s\<lparr>sw := t\<rparr>"] 2 at(2) by (simp add: t op_set_sw_def)
  qed
qed

lemma op_reads: "\<exists>s. v = op_set_sw s v \<and> (s = sw (op_sys v) \<or> (\<exists>a. s = exec_act a (sw (op_sys v))))"
  by (rule exI [of _ "sw (op_sys v)"]) (simp add: op_set_sw_def)

lemma op_acts: "\<exists>s. op_set_sw (exec_act a (sw (op_sys v))) v = op_set_sw s v \<and>
    (s = sw (op_sys v) \<or> (\<exists>a. s = exec_act a (sw (op_sys v))))"
  by blast

lemma operator_flags_ok:
  "operator_ok si sid w \<Longrightarrow> operator_ok si sid (w\<lparr>op_sys := (op_sys w)\<lparr>got_sigusr1 := b\<rparr>\<rparr>)"
  "operator_ok si sid w \<Longrightarrow> operator_ok si sid (w\<lparr>op_sys := (op_sys w)\<lparr>got_sigusr2 := b\<rparr>\<rparr>)"
  "operator_ok si sid w \<Longrightarrow> operator_ok si sid (w\<lparr>op_sys := (op_sys w)\<lparr>got_shutdown_requested := b\<rparr>\<rparr>)"
  by (simp_all add: operator_ok_def gone_at_def)

text \<open>The two signals are the two actions of the operator.\<close>

lemma add_platforms_action:
  "local_configuration v = config (sw (op_sys v)) \<Longrightarrow>
     add_platforms v = op_set_sw (exec_act A_add_platforms (sw (op_sys v))) v"
  by (simp add: add_platforms_def doubled_maximum_def Let_def)

lemma remove_platforms_action:
  "remove_platforms v = op_set_sw (exec_act A_remove_platforms (sw (op_sys v))) v"
  by (simp add: remove_platforms_def halved_maximum_def)

lemma operator_sigusr1_wp: "operator_ok si sid w \<Longrightarrow> wp (operator_sigusr1 w) (operator_post si sid)"
  unfolding operator_sigusr1_def
  by (rule op_critical_wp, erule operator_flags_ok)
    (auto simp: operator_post_def dest: add_platforms_action)

lemma operator_sigusr2_wp: "operator_ok si sid w \<Longrightarrow> wp (operator_sigusr2 w) (operator_post si sid)"
  unfolding operator_sigusr2_def
  by (rule op_critical_wp, erule operator_flags_ok)
    (simp_all only: remove_platforms_action op_acts, simp add: operator_post_def Let_def operator_flags_ok)

lemma calm_operator_ok: "operator_ok si sid w \<Longrightarrow> calm (op_sys w) s \<Longrightarrow> operator_ok si sid (w\<lparr>op_sys := s\<rparr>)"
  using gone_at_calms [of None 0 si sid False "op_sys w" 0 s]
  by (simp add: operator_ok_def calm_def)

lemma operator_launched_ok: "operator_ok si sid (w\<lparr>launched := l\<rparr>) = operator_ok si sid w"
  by (simp add: operator_ok_def)

lemma creat_dron_wp: "operator_ok si sid w \<Longrightarrow> wp (creat_dron loc w) (\<lambda>_. operator_ok si sid)"
  unfolding creat_dron_def
  by (auto simp: operator_launched_ok intro!: plain_call_wp [where f = None, simplified] calm_operator_ok)

lemma operator_resupply_wp: "operator_ok si sid w \<Longrightarrow> wp (operator_resupply w) (operator_post si sid)"
  unfolding operator_resupply_def
  by (rule op_critical_wp, assumption)
    (use op_reads in \<open>auto simp: operator_post_def Let_def intro: creat_dron_wp\<close>)

lemma operator_describe_self_wp:
  "operator_ok si sid w \<Longrightarrow> wp (operator_describe_self w) (operator_post si sid)"
  unfolding operator_describe_self_def
  by (rule op_critical_wp, assumption) (use op_reads in \<open>auto simp: operator_post_def\<close>)

lemma op_then_wp:
  assumes "wp x (operator_post si sid)" and "\<And>w. operator_ok si sid w \<Longrightarrow> wp (f w) (operator_post si sid)"
  shows "wp (op_then x f) (operator_post si sid)"
  unfolding op_then_def outc_bind
  by (rule outc_mono [OF assms(1)]) (use assms(2) in \<open>auto simp: operator_post_def split: status.splits\<close>)

lemma operator_round_wp:
  assumes "operator_ok si sid w"
  shows "wp (operator_round w) (operator_post si sid)"
proof -
  have "wp (do { (_, w) \<leftarrow> on_op sync w; Some (Returned 0, w) }) (operator_post si sid)"
    if "operator_ok si sid w" for w
    using that by (auto simp: operator_post_def intro!: sync_wp [where f = None, simplified] calm_operator_ok)
  with assms show ?thesis
    unfolding operator_round_def
    by (intro op_then_wp)
      (auto simp: operator_sigusr1_wp operator_sigusr2_wp operator_resupply_wp operator_describe_self_wp
        operator_post_def)
qed

lemma operator_loop_wp:
  "operator_ok si sid w \<Longrightarrow> wp (operator_loop n w) (\<lambda>st w'. (\<exists>c. st = Exited c) \<and> ended_at si sid (op_sys w'))"
proof (induction n arbitrary: w)
  case 0
  then show ?case
    by (auto simp: operator_ok_def intro!: outc_mono [OF operator_close_main_wp [OF gone_at_safe]])
next
  case (Suc n)
  have "wp (operator_round w) (\<lambda>st w'. wp (case st of Exited c \<Rightarrow> Some (Exited c, w')
      | Returned _ \<Rightarrow> operator_loop n w') (\<lambda>st w'. (\<exists>c. st = Exited c) \<and> ended_at si sid (op_sys w')))"
    by (rule outc_mono [OF operator_round_wp [OF Suc.prems]])
      (use Suc.IH in \<open>auto simp: operator_post_def split: status.splits\<close>)
  with Suc.prems show ?case
    by (auto simp: operator_ok_def op_then_def intro!: outc_mono [OF operator_close_main_wp [OF gone_at_safe]])
qed

section \<open>Undisturbed runs\<close>

lemma dron_child_args:
  "dron_child LOCATION_BASE = Inl [''1'']" "dron_child LOCATION_MISSION = Inl [''2'']"
  by code_simp+

text \<open>The handlers return, with the effect of the corresponding action, when their calls
  succeed.\<close>

lemma operator_sigusr2_quiet:
  assumes "operator_ok si sid w" and "inputs (op_sys w) = Event [] (SysOk a) # Event [] (SysOk b) # evs"
  shows "\<exists>w'. operator_sigusr2 w = Some (Returned 0, w') \<and>
    sw (op_sys w') = exec_act A_remove_platforms (sw (op_sys w)) \<and> \<not> got_sigusr2 (op_sys w') \<and>
    inputs (op_sys w') = evs \<and>
    got_shutdown_requested (op_sys w') =
      (got_shutdown_requested (op_sys w) \<or> maximum_dron_in_base_count (op_table w) sdiv 2 \<le> 0)"
proof -
  have "at_sem_id (op_att w) = sid" "sems (op_sys w) sid = Some 1"
    using assms(1) by (simp_all add: operator_ok_def gone_at_def)
  then show ?thesis
    using assms(2)
    by (simp add: operator_sigusr2_def op_critical_def on_op_def Let_def semaphore_lock_now
        semaphore_unlock_now sem_add_def remove_platforms_def op_set_sw_def halved_maximum_def
        set_maximum_def)
qed

lemma operator_sigusr1_quiet:
  assumes "operator_ok si sid w" and "inputs (op_sys w) = Event [] (SysOk a) # Event [] (SysOk b) # evs"
  shows "\<exists>w'. operator_sigusr1 w = Some (Returned 0, w') \<and>
    sw (op_sys w') = exec_act A_add_platforms (sw (op_sys w)) \<and> \<not> got_sigusr1 (op_sys w') \<and>
    got_shutdown_requested (op_sys w') = got_shutdown_requested (op_sys w)"
proof -
  have "at_sem_id (op_att w) = sid" "sems (op_sys w) sid = Some 1"
    "local_configuration w = config (sw (op_sys w))"
    using assms(1) by (simp_all add: operator_ok_def gone_at_def)
  then show ?thesis
    using assms(2)
    by (simp add: operator_sigusr1_def op_critical_def on_op_def Let_def semaphore_lock_now
        semaphore_unlock_now sem_add_def add_platforms_action op_set_sw_def)
qed

lemma operator_resupply_quiet:
  assumes "operator_ok si sid w"
    and "inputs (op_sys w) = Event [] (SysOk a) # Event [] (SysOk b) # Event [] (SysOk pid) # evs"
    and "0 < pid"
  shows "\<exists>w'. operator_resupply w = Some (Returned 0, w') \<and> sw (op_sys w') = sw (op_sys w) \<and>
    launched w' = (if has_room (op_table w) then [''1''] # launched w else launched w)"
proof -
  have "at_sem_id (op_att w) = sid" "sems (op_sys w) sid = Some 1"
    using assms(1) by (simp_all add: operator_ok_def gone_at_def)
  then show ?thesis
    using assms(2,3)
    by (simp add: dron_child_args operator_resupply_def op_critical_def on_op_def Let_def semaphore_lock_now
        semaphore_unlock_now sem_add_def creat_dron_def plain_call_def sync_def)
qed

text \<open>The first drones: as many as the configuration says, all on a mission.\<close>

lemma generate_drones_quiet:
  assumes "inputs (op_sys w) = map (\<lambda>p. Event [] (SysOk p)) pids @ evs" and "\<forall>p \<in> set pids. 0 < p"
    and "\<not> got_shutdown_requested (op_sys w)"
  shows "\<exists>w'. generate_drones (length pids) w = Some (0, w') \<and> sw (op_sys w') = sw (op_sys w) \<and>
    launched w' = replicate (length pids) [''2''] @ launched w"
  using assms
proof (induction pids arbitrary: w)
  case (Cons p pids)
  let ?w = "w\<lparr>op_sys := (op_sys w)\<lparr>inputs := map (\<lambda>p. Event [] (SysOk p)) pids @ evs\<rparr>,
      launched := [''2''] # launched w\<rparr>"
  have "creat_dron LOCATION_MISSION w = Some (p, ?w)"
    using Cons.prems by (simp add: dron_child_args creat_dron_def on_op_def plain_call_def sync_def)
  moreover obtain w' where "generate_drones (length pids) ?w = Some (0, w')"
    "sw (op_sys w') = sw (op_sys w)" "launched w' = replicate (length pids) [''2''] @ [''2''] # launched w"
    using Cons.IH [of ?w] Cons.prems by auto
  ultimately show ?case
    using Cons.prems by (simp add: replicate_app_Cons_same)
qed simp

text \<open>Halving leads to a shutdown after finitely many signals.\<close>

lemma halvings_reach_0:
  assumes "0 \<le> m" and "m < 2 ^ k"
  shows "(halved_maximum ^^ k) m = 0"
  using assms
proof (induction k arbitrary: m)
  case (Suc k)
  have "halved_maximum m = m div 2"
    using Suc.prems(1) by (simp add: halved_maximum_def signed_divide_int_def sgn_if)
  with Suc show ?case by (simp add: funpow_Suc_right del: funpow.simps)
qed simp

end
