(* ===== verification/Commander.thy ===== *)
theory Commander
  imports Client Parsing
begin

text \<open>
  The commander process, \<^verbatim>\<open>src/src/system_commander/system_commander.c\<close>: it runs a mission plan
  that signals the operator and single drones.  The record \<open>commander\<close> holds its global
  variables; \<open>sent\<close> records its successful calls of \<open>kill\<close>, the last one first.
\<close>

section \<open>State\<close>

datatype signal = SIGUSR1 | SIGUSR2

record commander =
  cm_sys :: os
  operator_pid :: int
  cm_att :: attachments
  sent :: "(int \<times> signal) list"

definition on_cm :: "(os \<Rightarrow> ('r \<times> os) option) \<Rightarrow> commander \<Rightarrow> ('r \<times> commander) option" where
  "on_cm f w = do { (r, s) \<leftarrow> f (cm_sys w); Some (r, w\<lparr>cm_sys := s\<rparr>) }"

abbreviation cm_sem_id :: "commander \<Rightarrow> int" where
  "cm_sem_id w \<equiv> at_sem_id (cm_att w)"

abbreviation cm_shutdown :: "commander \<Rightarrow> bool" where
  "cm_shutdown w \<equiv> got_shutdown_requested (cm_sys w)"

section \<open>Start\<close>

text \<open>\<open>argv\<close> without the program name; \<open>None\<close> is \<open>exit (EXIT_FAILURE)\<close>.\<close>

definition process_argv_operator_pid :: "string list \<Rightarrow> int option" where
  "process_argv_operator_pid args =
     (case args of
        [] \<Rightarrow> None
      | a # _ \<Rightarrow> do {
          pid \<leftarrow> commander_parse_positive_int a;
          if pid \<le> 0 then None else Some pid
        })"

definition commander_get_shm_all_drones_data :: "commander \<Rightarrow> (int \<times> commander) option" where
  "commander_get_shm_all_drones_data w = do {
     (r, t, s) \<leftarrow> get_shm_all_drones_data False (cm_att w) (cm_sys w);
     Some (r, w\<lparr>cm_att := t, cm_sys := s\<rparr>)
   }"

section \<open>Signals\<close>

definition send_signal :: "signal \<Rightarrow> int \<Rightarrow> commander \<Rightarrow> (int \<times> commander) option" where
  "send_signal sig pid w = do {
     (r, w) \<leftarrow> on_cm plain_call w;
     if r < 0 then Some (- 1, w) else Some (0, w\<lparr>sent := (pid, sig) # sent w\<rparr>)
   }"

definition send_add_drones :: "int \<Rightarrow> commander \<Rightarrow> (int \<times> commander) option" where
  "send_add_drones pid = send_signal SIGUSR1 pid"

definition send_subtract_drones :: "int \<Rightarrow> commander \<Rightarrow> (int \<times> commander) option" where
  "send_subtract_drones pid = send_signal SIGUSR2 pid"

definition send_suicide :: "int \<Rightarrow> commander \<Rightarrow> (int \<times> commander) option" where
  "send_suicide dron_pid = send_signal SIGUSR1 dron_pid"

section \<open>Steps of the mission plan\<close>

text \<open>The time that is left after an interruption does not matter here: \<open>nanosleep\<close> ends when
  the environment says so.\<close>

function mission_wait_seconds_interruptible :: "commander \<Rightarrow> (int \<times> commander) option" where
  "mission_wait_seconds_interruptible w =
     (if cm_shutdown w then Some (1, w)
      else
        (case sync (cm_sys w) of
           None \<Rightarrow> None
         | Some (SysOk n, s) \<Rightarrow> if n = 0 then Some (0, w\<lparr>cm_sys := s\<rparr>) else Some (- 1, w\<lparr>cm_sys := s\<rparr>)
         | Some (SysErr e, s) \<Rightarrow>
             if e = EINTR then mission_wait_seconds_interruptible (w\<lparr>cm_sys := s\<rparr>)
             else Some (- 1, w\<lparr>cm_sys := s\<rparr>)))"
  by pat_completeness auto
termination
  by (relation "measure (\<lambda>w. length (inputs (cm_sys w)))") (auto dest: sync_inputs)

declare mission_wait_seconds_interruptible.simps [simp del]

definition pick_dron_pid_from_shm :: "commander \<Rightarrow> (int \<times> commander) option" where
  "pick_dron_pid_from_shm w = do {
     (r, w) \<leftarrow> on_cm (semaphore_lock (cm_sem_id w)) w;
     if r = - 1 then Some (- 1, w)
     else do {
       dron_pid \<leftarrow> SHM_AllDronesData_get_dron_pid (all_drones (sw (cm_sys w)));
       (r, w) \<leftarrow> on_cm (semaphore_unlock (cm_sem_id w)) w;
       if r = - 1 then Some (- 1, w) else Some (dron_pid, w)
     }
   }"

text \<open>The loops \<open>for (i = 0; i < repeats; ++i)\<close> with \<open>n\<close> rounds left.\<close>

fun mission_step_increase_drones :: "int \<Rightarrow> nat \<Rightarrow> commander \<Rightarrow> (int \<times> commander) option" where
  "mission_step_increase_drones op_pid 0 w = Some (0, w)"
| "mission_step_increase_drones op_pid (Suc n) w =
     (if cm_shutdown w then Some (0, w)
      else do {
        (r, w) \<leftarrow> mission_wait_seconds_interruptible w;
        if r = 1 then Some (0, w)
        else if r = - 1 then Some (- 1, w)
        else do {
          (_, w) \<leftarrow> send_add_drones op_pid w;
          mission_step_increase_drones op_pid n w
        }
      })"

fun mission_step_kill_drones :: "nat \<Rightarrow> commander \<Rightarrow> (int \<times> commander) option" where
  "mission_step_kill_drones 0 w = Some (0, w)"
| "mission_step_kill_drones (Suc n) w =
     (if cm_shutdown w then Some (0, w)
      else do {
        (r, w) \<leftarrow> mission_wait_seconds_interruptible w;
        if r = 1 then Some (0, w)
        else if r = - 1 then Some (- 1, w)
        else do {
          (dron_pid, w) \<leftarrow> pick_dron_pid_from_shm w;
          if dron_pid = - 1 then Some (- 1, w)
          else if dron_pid < 0 then mission_step_kill_drones n w
          else do {
            (_, w) \<leftarrow> send_suicide dron_pid w;
            mission_step_kill_drones n w
          }
        }
      })"

fun mission_step_decrease_drones :: "int \<Rightarrow> nat \<Rightarrow> commander \<Rightarrow> (int \<times> commander) option" where
  "mission_step_decrease_drones op_pid 0 w = Some (0, w)"
| "mission_step_decrease_drones op_pid (Suc n) w =
     (if cm_shutdown w then Some (0, w)
      else do {
        (r, w) \<leftarrow> mission_wait_seconds_interruptible w;
        if r = 1 then Some (0, w)
        else if r = - 1 then Some (- 1, w)
        else do {
          (_, w) \<leftarrow> send_subtract_drones op_pid w;
          mission_step_decrease_drones op_pid n w
        }
      })"

text \<open>Reading the number of platforms under the semaphore.\<close>

definition read_maximum :: "commander \<Rightarrow> (int option \<times> commander) option" where
  "read_maximum w = do {
     (r, w) \<leftarrow> on_cm (semaphore_lock (cm_sem_id w)) w;
     if r = - 1 then Some (None, w)
     else do {
       let m = maximum_dron_in_base_count (all_drones (sw (cm_sys w)));
       (r, w) \<leftarrow> on_cm (semaphore_unlock (cm_sem_id w)) w;
       if r = - 1 then Some (None, w) else Some (Some m, w)
     }
   }"

lemma read_maximum_inputs:
  "read_maximum w = Some (r, w') \<Longrightarrow> length (inputs (cm_sys w')) < length (inputs (cm_sys w))"
  by (auto simp: read_maximum_def on_cm_def Let_def split: bind_splits if_splits
      dest!: lock.loop_fuel unlock.loop_fuel)

lemma send_signal_inputs:
  "send_signal sig pid w = Some (r, w') \<Longrightarrow> length (inputs (cm_sys w')) < length (inputs (cm_sys w))"
  by (auto simp: send_signal_def on_cm_def plain_call_def split: bind_splits if_splits sysret.splits
      dest!: sync_inputs)

lemma mission_wait_inputs:
  "mission_wait_seconds_interruptible w = Some (r, w') \<Longrightarrow>
     length (inputs (cm_sys w')) \<le> length (inputs (cm_sys w))"
proof (induction w rule: mission_wait_seconds_interruptible.induct)
  case (1 w)
  then show ?case
    by (subst (asm) (2) mission_wait_seconds_interruptible.simps)
      (fastforce split: if_splits option.splits sysret.splits dest: sync_inputs)
qed

text \<open>The loop \<open>while (maximum_dron_in_base_count > 0)\<close>, entered with the value \<open>m\<close>.\<close>

function decrease_loop :: "int \<Rightarrow> int \<Rightarrow> commander \<Rightarrow> (int \<times> commander) option" where
  "decrease_loop op_pid m w =
     (if m > 0 then
        if cm_shutdown w then Some (0, w)
        else
          (case read_maximum w of
             None \<Rightarrow> None
           | Some (None, w) \<Rightarrow> Some (- 1, w)
           | Some (Some m', w) \<Rightarrow>
               (case send_subtract_drones op_pid w of
                  None \<Rightarrow> None
                | Some (_, w) \<Rightarrow>
                    (case mission_wait_seconds_interruptible w of
                       None \<Rightarrow> None
                     | Some (r, w) \<Rightarrow>
                         if r = 1 then Some (0, w)
                         else if r = - 1 then Some (- 1, w)
                         else decrease_loop op_pid m' w)))
      else Some (0, w))"
  by pat_completeness auto
termination
  by (relation "measure (\<lambda>(p, m, w). length (inputs (cm_sys w)))")
    (auto simp: send_subtract_drones_def dest!: read_maximum_inputs send_signal_inputs mission_wait_inputs)

declare decrease_loop.simps [simp del]

definition mission_step_decrease_drones_to_0 :: "int \<Rightarrow> commander \<Rightarrow> (int \<times> commander) option" where
  "mission_step_decrease_drones_to_0 op_pid w = do {
     (m, w) \<leftarrow> read_maximum w;
     case m of
       None \<Rightarrow> Some (- 1, w)
     | Some m \<Rightarrow> decrease_loop op_pid m w
   }"

definition run_mission_plan :: "int \<Rightarrow> commander \<Rightarrow> (int \<times> commander) option" where
  "run_mission_plan op_pid w = do {
     (r, w) \<leftarrow> mission_step_increase_drones op_pid 3 w;
     if r = - 1 then Some (- 1, w)
     else do {
       (r, w) \<leftarrow> mission_step_kill_drones 10 w;
       if r = - 1 then Some (- 1, w)
       else do {
         (r, w) \<leftarrow> mission_step_decrease_drones_to_0 op_pid w;
         if r = - 1 then Some (- 1, w) else Some (0, w)
       }
     }
   }"

section \<open>End and main\<close>

definition cleanup_ipc_attachments :: "commander \<Rightarrow> (unit \<times> commander) option" where
  "cleanup_ipc_attachments w = do {
     (_, w) \<leftarrow> (case at_shm (cm_att w) of
        None \<Rightarrow> Some (0, w)
      | Some addr \<Rightarrow> on_cm (shm_detach addr) w);
     (_, w) \<leftarrow> (case at_stack (cm_att w) of
        None \<Rightarrow> Some (0, w)
      | Some addr \<Rightarrow> on_cm (shm_detach addr) w);
     Some ((), w\<lparr>cm_att := no_attachments\<rparr>)
   }"

definition commander_close_main :: "int \<Rightarrow> commander \<Rightarrow> (status \<times> commander) option" where
  "commander_close_main exit_code w = do {
     (_, w) \<leftarrow> cleanup_ipc_attachments w;
     Some (Exited exit_code, w\<lparr>cm_sys := process_exit (cm_sys w)\<rparr>)
   }"

definition commander_run :: "commander \<Rightarrow> (status \<times> commander) option" where
  "commander_run w = do {
     (mission_result, w) \<leftarrow> run_mission_plan (operator_pid w) w;
     if cm_shutdown w then commander_close_main EXIT_SUCCESS w
     else if mission_result = - 1 then commander_close_main EXIT_FAILURE w
     else commander_close_main EXIT_SUCCESS w
   }"

definition commander_main :: "string list \<Rightarrow> commander \<Rightarrow> (status \<times> commander) option" where
  "commander_main args w = do {
     (log_file_descriptor, w) \<leftarrow> on_cm plain_call w;
     if log_file_descriptor < 0 then commander_close_main EXIT_FAILURE w
     else
       (case process_argv_operator_pid args of
          None \<Rightarrow> Some (Exited EXIT_FAILURE, w\<lparr>cm_sys := process_exit (cm_sys w)\<rparr>)
        | Some pid \<Rightarrow> do {
            let w = w\<lparr>operator_pid := pid\<rparr>;
            (r, w) \<leftarrow> on_cm plain_call w;
            if r = - 1 then commander_close_main EXIT_FAILURE w
            else do {
              (r, w) \<leftarrow> on_cm plain_call w;
              if r = - 1 then commander_close_main EXIT_FAILURE w
              else do {
                (r, w) \<leftarrow> commander_get_shm_all_drones_data w;
                if r \<noteq> 0 then commander_close_main EXIT_FAILURE w else commander_run w
              }
            }
          })
   }"

section \<open>The commander leaves the swarm in order\<close>

definition commander_ok :: "swarm \<Rightarrow> int \<Rightarrow> commander \<Rightarrow> bool" where
  "commander_ok si sid w \<longleftrightarrow> gone_at None 0 si sid False (cm_sys w) \<and> cm_sem_id w = sid"

text \<open>Whom the signals go to: the operator, or a process that was found in the table.\<close>

definition a_drone :: "swarm \<Rightarrow> int \<Rightarrow> bool" where
  "a_drone si pid \<longleftrightarrow>
     (\<exists>t i. swarm_reach si t \<and> slot_valid (all_drones t) i \<and> used (slot (all_drones t) i) \<and>
        dd_pid (slot (all_drones t) i) = pid)"

definition sent_ok :: "swarm \<Rightarrow> int \<Rightarrow> commander \<Rightarrow> bool" where
  "sent_ok si op_pid w \<longleftrightarrow>
     list_all (\<lambda>(pid, sig). pid = op_pid \<or> sig = SIGUSR1 \<and> a_drone si pid) (sent w)"

text \<open>The outcome of a step of the mission plan.\<close>

definition step_post :: "swarm \<Rightarrow> int \<Rightarrow> int \<Rightarrow> int \<Rightarrow> commander \<Rightarrow> bool" where
  "step_post si sid op_pid r w \<longleftrightarrow>
     sent_ok si op_pid w \<and>
     (if r = - 1 then safe_at None 0 si sid (cm_sys w) else commander_ok si sid w)"

lemma wp_on_cm [simp]: "outc b (on_cm f w) Q \<longleftrightarrow> outc b (f (cm_sys w)) (\<lambda>r s. Q r (w\<lparr>cm_sys := s\<rparr>))"
  by (simp add: on_cm_def)

lemma sent_ok_sys [simp]: "sent_ok si p (w\<lparr>cm_sys := s\<rparr>) = sent_ok si p w"
  by (simp add: sent_ok_def)

lemma calm_commander_ok: "commander_ok si sid w \<Longrightarrow> calm (cm_sys w) s \<Longrightarrow> commander_ok si sid (w\<lparr>cm_sys := s\<rparr>)"
  using gone_at_calms [of None 0 si sid False "cm_sys w" 0 s] by (simp add: commander_ok_def)

lemma commander_ok_safe: "commander_ok si sid w \<Longrightarrow> safe_at None 0 si sid (cm_sys w)"
  by (auto simp: commander_ok_def intro: gone_at_safe)

lemma mission_wait_wp:
  assumes "commander_ok si sid w" and "sent_ok si p w"
  shows "wp (mission_wait_seconds_interruptible w) (\<lambda>_ w'. commander_ok si sid w' \<and> sent_ok si p w')"
  using assms
proof (induction w rule: mission_wait_seconds_interruptible.induct)
  case (1 w)
  show ?case
  proof (cases "sync (cm_sys w)")
    case None
    with 1 show ?thesis by (subst mission_wait_seconds_interruptible.simps) simp
  next
    case (Some q)
    obtain r s where q: "q = (r, s)" by (cases q)
    with Some have "calm (cm_sys w) s" by (auto dest: sync_calm)
    with 1(2,3) have "commander_ok si sid (w\<lparr>cm_sys := s\<rparr>)" "sent_ok si p (w\<lparr>cm_sys := s\<rparr>)"
      by (auto intro: calm_commander_ok)
    with 1 Some q show ?thesis
      by (subst mission_wait_seconds_interruptible.simps) (auto split: sysret.splits)
  qed
qed

lemma send_signal_wp:
  assumes "commander_ok si sid w" and "sent_ok si p w" and "pid = p \<or> sig = SIGUSR1 \<and> a_drone si pid"
  shows "wp (send_signal sig pid w) (\<lambda>_ w'. commander_ok si sid w' \<and> sent_ok si p w')"
proof -
  have "commander_ok si sid (w\<lparr>cm_sys := s, sent := l\<rparr>)" if "calm (cm_sys w) s" for s l
    using calm_commander_ok [OF assms(1) that] by (simp add: commander_ok_def)
  with assms show ?thesis
    unfolding send_signal_def
    by (auto simp: sent_ok_def intro!: plain_call_wp [where f = None, simplified] intro: calm_commander_ok)
qed

text \<open>A critical section that reads \<open>h\<close>.\<close>

lemma read_section_wp:
  assumes at: "gone_at None 0 si sid False s"
    and fail: "\<And>s'. safe_at None 0 si sid s' \<Longrightarrow> Q None s'"
    and ok: "\<And>t s'. swarm_reach si t \<Longrightarrow> swarm_ok t \<Longrightarrow> gone_at None 0 si sid False s' \<Longrightarrow> Q (Some (h t)) s'"
  shows "wp (semaphore_lock sid s) (\<lambda>r s. (r = - 1 \<longrightarrow> Q None s) \<and> (r \<noteq> - 1 \<longrightarrow>
     wp (semaphore_unlock sid s) (\<lambda>r s'. (r = - 1 \<longrightarrow> Q None s') \<and> (r \<noteq> - 1 \<longrightarrow> Q (Some (h (sw s))) s'))))"
proof (rule lock_gone_wp [OF at, simplified], goal_cases)
  case (1 s')
  then show ?case by (auto intro: fail gone_at_safe)
next
  case (2 s')
  then have now: "swarm_reach si (sw s')" "swarm_ok (sw s')" and at': "gone_at None 0 si sid True s'"
    by (simp_all add: gone_at_def)
  show ?case
  proof (simp, rule unlock_gone_wp [where f = None, simplified, OF at'], goal_cases)
    case (1 s'')
    then show ?case using fail [OF gone_at_safe [of None 0 si sid True s'']] by simp
  next
    case (2 s'')
    then show ?case using ok [OF now, of s''] by simp
  qed
qed

lemma read_maximum_wp:
  assumes "commander_ok si sid w" and "sent_ok si p w"
  shows "wp (read_maximum w) (\<lambda>m w'. sent_ok si p w' \<and>
    (case m of None \<Rightarrow> safe_at None 0 si sid (cm_sys w') | Some _ \<Rightarrow> commander_ok si sid w'))"
proof -
  have at: "gone_at None 0 si sid False (cm_sys w)" "cm_sem_id w = sid"
    using assms by (simp_all add: commander_ok_def)
  show ?thesis
    unfolding read_maximum_def Let_def
    using read_section_wp [OF at(1), of "\<lambda>m s. case m of None \<Rightarrow> safe_at None 0 si sid s
        | Some _ \<Rightarrow> gone_at None 0 si sid False s" "\<lambda>t. maximum_dron_in_base_count (all_drones t)"]
      assms(2) at(2)
    by (auto simp: commander_ok_def elim!: outc_mono)
qed

text \<open>The pid that is picked is that of a registered drone, or \<open>-1\<close>.\<close>

lemma picked_pid:
  assumes "swarm_reach si t" and "swarm_ok t"
    and "SHM_AllDronesData_get_dron_pid (all_drones t) = Some pid" and "pid \<noteq> - 1"
  shows "a_drone si pid"
proof -
  have "table_ok (all_drones t) (free_stack t)" using assms(2) by (simp add: swarm_ok_def)
  with assms(3,4) obtain d where d: "find (\<lambda>d. used d) (drones (all_drones t)) = Some d" "dd_pid d = pid"
    by (auto simp: get_dron_pid_correct split: option.splits)
  then obtain k where "k < length (drones (all_drones t))" "drones (all_drones t) ! k = d" "used d"
    by (auto simp: find_Some_iff)
  then have "slot_valid (all_drones t) (int k)" "slot (all_drones t) (int k) = d"
    by (simp_all add: slot_valid_def slot_def)
  with d \<open>used d\<close> assms(1) show ?thesis unfolding a_drone_def by blast
qed

lemma pick_dron_pid_wp:
  assumes "commander_ok si sid w" and "sent_ok si p w"
  shows "wp (pick_dron_pid_from_shm w) (\<lambda>pid w'. sent_ok si p w' \<and>
    (if pid = - 1 then safe_at None 0 si sid (cm_sys w') else commander_ok si sid w' \<and> a_drone si pid))"
proof -
  have at: "gone_at None 0 si sid False (cm_sys w)" "cm_sem_id w = sid"
    using assms by (simp_all add: commander_ok_def)
  show ?thesis
    unfolding pick_dron_pid_from_shm_def outc_bind prod.case wp_on_cm outc_if at(2)
  proof (rule lock_gone_wp [OF at(1), simplified], goal_cases)
    case (1 s)
    then show ?case using assms(2) by (auto intro: gone_at_safe)
  next
    case (2 s)
    then have now: "swarm_reach si (sw s)" "swarm_ok (sw s)" and at': "gone_at None 0 si sid True s"
      by (simp_all add: gone_at_def)
    then obtain pid where pid: "SHM_AllDronesData_get_dron_pid (all_drones (sw s)) = Some pid"
      using get_dron_pid_correct by (auto simp: swarm_ok_def)
    show ?case
    proof (simp add: pid at(2), rule unlock_gone_wp [where f = None, simplified, OF at'], goal_cases)
      case (1 s')
      then show ?case using gone_at_safe [of None 0 si sid True s'] assms(2) by simp
    next
      case (2 s')
      then show ?case
        using gone_at_safe [of None 0 si sid False s'] picked_pid [OF now pid] assms(2) at(2)
        by (simp add: commander_ok_def)
    qed
  qed
qed

lemma step_post_ok: "commander_ok si sid w \<Longrightarrow> sent_ok si p w \<Longrightarrow> step_post si sid p r w"
  by (simp add: step_post_def commander_ok_safe)

lemma step_post_fail: "sent_ok si p w \<Longrightarrow> safe_at None 0 si sid (cm_sys w) \<Longrightarrow> step_post si sid p (- 1) w"
  by (simp add: step_post_def)

lemma step_post_D: "step_post si sid p r w \<Longrightarrow> r \<noteq> - 1 \<Longrightarrow> commander_ok si sid w \<and> sent_ok si p w"
  "step_post si sid p r w \<Longrightarrow> safe_at None 0 si sid (cm_sys w) \<and> sent_ok si p w"
  by (auto simp: step_post_def commander_ok_safe split: if_splits)

lemma increase_wp:
  assumes "commander_ok si sid w" and "sent_ok si p w"
  shows "wp (mission_step_increase_drones p n w) (step_post si sid p)"
  using assms
proof (induction n arbitrary: w)
  case (Suc n)
  have later: "wp (send_add_drones p v) (\<lambda>_ w'. wp (mission_step_increase_drones p n w') (step_post si sid p))"
    if "commander_ok si sid v" "sent_ok si p v" for v
    unfolding send_add_drones_def
    by (rule outc_mono [OF send_signal_wp [OF that]]) (use Suc.IH in auto)
  show ?case
    using Suc.prems later
    by (auto simp: step_post_ok intro!: outc_mono [OF mission_wait_wp [OF Suc.prems]])
qed (simp add: step_post_ok)

lemma decrease_wp:
  assumes "commander_ok si sid w" and "sent_ok si p w"
  shows "wp (mission_step_decrease_drones p n w) (step_post si sid p)"
  using assms
proof (induction n arbitrary: w)
  case (Suc n)
  have later: "wp (send_subtract_drones p v) (\<lambda>_ w'. wp (mission_step_decrease_drones p n w') (step_post si sid p))"
    if "commander_ok si sid v" "sent_ok si p v" for v
    unfolding send_subtract_drones_def
    by (rule outc_mono [OF send_signal_wp [OF that]]) (use Suc.IH in auto)
  show ?case
    using Suc.prems later
    by (auto simp: step_post_ok intro!: outc_mono [OF mission_wait_wp [OF Suc.prems]])
qed (simp add: step_post_ok)

lemma kill_wp:
  assumes "commander_ok si sid w" and "sent_ok si p w"
  shows "wp (mission_step_kill_drones n w) (step_post si sid p)"
  using assms
proof (induction n arbitrary: w)
  case (Suc n)
  have sent: "wp (send_suicide pid v) (\<lambda>_ w'. wp (mission_step_kill_drones n w') (step_post si sid p))"
    if "commander_ok si sid v" "sent_ok si p v" "a_drone si pid" for v pid
    unfolding send_suicide_def
    by (rule outc_mono [OF send_signal_wp [OF that(1,2)]]) (use that(3) Suc.IH in auto)
  have later: "wp (pick_dron_pid_from_shm v) (\<lambda>pid w'. if pid = - 1 then step_post si sid p (- 1) w'
      else if pid < 0 then wp (mission_step_kill_drones n w') (step_post si sid p)
      else wp (send_suicide pid w') (\<lambda>_ w'. wp (mission_step_kill_drones n w') (step_post si sid p)))"
    if "commander_ok si sid v" "sent_ok si p v" for v
    by (rule outc_mono [OF pick_dron_pid_wp [OF that]])
      (use Suc.IH sent in \<open>auto simp: step_post_def [of _ _ _ "- 1"] split: if_splits\<close>)
  show ?case
    using Suc.prems
    by (auto simp: step_post_ok intro!: outc_mono [OF mission_wait_wp [OF Suc.prems]] outc_mono [OF later]
        split: if_splits)
qed (simp add: step_post_ok)

lemma decrease_loop_wp:
  assumes "commander_ok si sid w" and "sent_ok si p w"
  shows "wp (decrease_loop p m w) (step_post si sid p)"
  using assms
proof (induction "length (inputs (cm_sys w))" arbitrary: m w rule: less_induct)
  case less
  have reads: "sent_ok si p v \<and> (case m of None \<Rightarrow> safe_at None 0 si sid (cm_sys v) | Some _ \<Rightarrow> commander_ok si sid v)"
    if "read_maximum w = Some (m, v)" for m v
    using outc_D [OF read_maximum_wp [OF less.prems] that] .
  have sends: "commander_ok si sid u \<and> sent_ok si p u"
    if "send_subtract_drones p v = Some (r, u)" "commander_ok si sid v" "sent_ok si p v" for r u v
    using outc_D [OF send_signal_wp [OF that(2,3), of p SIGUSR2]] that(1) by (simp add: send_subtract_drones_def)
  have waits: "commander_ok si sid u \<and> sent_ok si p u"
    if "mission_wait_seconds_interruptible v = Some (r, u)" "commander_ok si sid v" "sent_ok si p v" for r u v
    using outc_D [OF mission_wait_wp [OF that(2,3)] that(1)] .
  show ?case
  proof (cases "0 < m \<and> \<not> cm_shutdown w")
    case True
    show ?thesis
    proof (cases "read_maximum w")
      case None
      with True show ?thesis by (subst decrease_loop.simps) simp
    next
      case (Some q)
      then obtain x v where read: "read_maximum w = Some (x, v)" by (cases q) auto
      show ?thesis
      proof (cases x)
        case None
        with True read reads [OF read] show ?thesis
          by (subst decrease_loop.simps) (simp add: step_post_fail)
      next
        case (Some m')
        note v = reads [OF read, unfolded Some option.case]
        have rest: "case mission_wait_seconds_interruptible u of None \<Rightarrow> True
          | Some (r', u') \<Rightarrow> commander_ok si sid u' \<and> sent_ok si p u' \<and> wp (decrease_loop p m' u') (step_post si sid p)"
          if u: "send_subtract_drones p v = Some (r, u)" for r u
        proof -
          have "commander_ok si sid u'" "sent_ok si p u'" "length (inputs (cm_sys u')) < length (inputs (cm_sys w))"
            if "mission_wait_seconds_interruptible u = Some (r', u')" for r' u'
            using v sends [OF u] waits [OF that] read_maximum_inputs [OF read] mission_wait_inputs [OF that]
              send_signal_inputs [OF u [unfolded send_subtract_drones_def]] by auto
          with less.hyps show ?thesis by (auto split: option.splits)
        qed
        from True read Some show ?thesis
          by (subst decrease_loop.simps)
            (auto simp: step_post_ok split: option.splits prod.splits dest!: rest)
      qed
    qed
  next
    case False
    with less.prems show ?thesis by (subst decrease_loop.simps) (auto simp: step_post_ok)
  qed
qed

lemma decrease_to_0_wp:
  assumes "commander_ok si sid w" and "sent_ok si p w"
  shows "wp (mission_step_decrease_drones_to_0 p w) (step_post si sid p)"
  unfolding mission_step_decrease_drones_to_0_def outc_bind prod.case
proof (rule outc_mono [OF read_maximum_wp [OF assms]], goal_cases)
  case (1 m v)
  then show ?case by (cases m) (simp_all add: step_post_fail decrease_loop_wp)
qed

lemma run_mission_plan_wp:
  assumes "commander_ok si sid w" and "sent_ok si p w"
  shows "wp (run_mission_plan p w) (step_post si sid p)"
  unfolding run_mission_plan_def outc_bind prod.case outc_if outc_Some
proof (rule outc_mono [OF increase_wp [OF assms]], goal_cases)
  case (1 r v)
  show ?case
  proof (cases "r = - 1")
    case False
    note v = step_post_D(1) [OF 1 False]
    have "wp (mission_step_kill_drones 10 v) (\<lambda>r w'. if r = - 1 then step_post si sid p (- 1) w'
      else wp (mission_step_decrease_drones_to_0 p w') (\<lambda>r w'. if r = - 1 then step_post si sid p (- 1) w'
        else step_post si sid p 0 w'))"
    proof (rule outc_mono [OF kill_wp [OF conjunct1 [OF v] conjunct2 [OF v]]], goal_cases)
      case (1 r u)
      show ?case
      proof (cases "r = - 1")
        case False
        note u = step_post_D(1) [OF 1 False]
        have "wp (mission_step_decrease_drones_to_0 p u) (\<lambda>r w'. if r = - 1 then step_post si sid p (- 1) w'
            else step_post si sid p 0 w')"
          by (rule outc_mono [OF decrease_to_0_wp [OF conjunct1 [OF u] conjunct2 [OF u]]])
            (auto simp: step_post_ok dest: step_post_D(1))
        with False show ?thesis by simp
      qed (use 1 in simp)
    qed
    with False show ?thesis by simp
  qed (use 1 in simp)
qed

lemma cleanup_wp:
  assumes "safe_at None 0 si sid (cm_sys w)"
  shows "wp (cleanup_ipc_attachments w) (\<lambda>_ w'. safe_at None 0 si sid (cm_sys w') \<and> sent w' = sent w)"
proof -
  have d: "wp (shm_detach addr s) (\<lambda>_ s'. safe_at None 0 si sid s')" if "safe_at None 0 si sid s" for addr s
    using detach_wp [OF that, of "\<lambda>_ s'. safe_at None 0 si sid s'"] by simp
  have one: "wp (case x of None \<Rightarrow> Some (0, v) | Some addr \<Rightarrow> on_cm (shm_detach addr) v)
      (\<lambda>_ w'. safe_at None 0 si sid (cm_sys w') \<and> sent w' = sent v)" if "safe_at None 0 si sid (cm_sys v)" for x v
    using that outc_mono [OF d [OF that]] by (auto split: option.splits)
  show ?thesis
    unfolding cleanup_ipc_attachments_def outc_bind prod.case
    by (rule outc_mono [OF one [OF assms]])
      (auto intro!: outc_mono [OF one])
qed

text \<open>The mission ends with every semaphore released, and has signalled nobody but the operator
  and registered drones.\<close>

lemma commander_run_wp:
  assumes "commander_ok si sid w" and "sent_ok si (operator_pid w) w"
  shows "wp (commander_run w) (\<lambda>st w'. (\<exists>c. st = Exited c) \<and> ended_at si sid (cm_sys w') \<and>
    sent_ok si (operator_pid w) w')"
proof -
  have close: "wp (commander_close_main c v) (\<lambda>st w'. (\<exists>c. st = Exited c) \<and> ended_at si sid (cm_sys w') \<and>
      sent_ok si (operator_pid w) w')" if "step_post si sid (operator_pid w) r v" for c v r
  proof -
    have "safe_at None 0 si sid (cm_sys v)" "sent_ok si (operator_pid w) v"
      using step_post_D(2) [OF that] by auto
    then show ?thesis
      unfolding commander_close_main_def outc_bind prod.case
      by (intro outc_mono [OF cleanup_wp]) (auto simp: safe_at_exit sent_ok_def)
  qed
  show ?thesis
    unfolding commander_run_def outc_bind prod.case
    by (rule outc_mono [OF run_mission_plan_wp [OF assms]]) (use close in auto)
qed

section \<open>A mission without drones\<close>

text \<open>When the table is empty, the step that removes drones fails, and with it the mission; the
  branch for a negative pid other than \<open>-1\<close> is not reached.\<close>

lemma kill_empty_quiet:
  assumes "commander_ok si sid w" and "dron_count (all_drones (sw (cm_sys w))) = 0"
    and "inputs (cm_sys w) = Event [] (SysOk 0) # Event [] (SysOk a) # Event [] (SysOk b) # evs"
    and "\<not> cm_shutdown w" and "0 < n"
  shows "\<exists>w'. mission_step_kill_drones n w = Some (- 1, w') \<and> sent w' = sent w"
proof -
  have at: "cm_sem_id w = sid" "sems (cm_sys w) sid = Some 1" "table_ok (all_drones (sw (cm_sys w))) (free_stack (sw (cm_sys w)))"
    using assms(1) by (simp_all add: commander_ok_def gone_at_def swarm_ok_def)
  have "find (\<lambda>d. used d) (drones (all_drones (sw (cm_sys w)))) = None"
    using at(3) assms(2) by (auto simp: table_ok_def count_by_def find_None_iff filter_empty_conv)
  then have "SHM_AllDronesData_get_dron_pid (all_drones (sw (cm_sys w))) = Some (- 1)"
    using get_dron_pid_correct [OF at(3)] by simp
  with assms at show ?thesis
    by (cases n) (auto simp: mission_wait_seconds_interruptible.simps [of w] sync_def
        pick_dron_pid_from_shm_def on_cm_def semaphore_lock_now semaphore_unlock_now sem_add_def)
qed

end
