(* ===== verification/Startup.thy ===== *)
theory Startup
  imports Dron_Props Operator Commander
begin

text \<open>
  From the first instruction of a process to its end: the look-up of the shared resources by their
  keys gives the semaphore that all processes share, and with it the whole programs of the drone, the
  operator and the commander keep the swarm consistent.
\<close>

section \<open>A process that has not attached yet\<close>

text \<open>The process holds nothing; \<open>c\<close> is the configuration in shared memory, \<open>F\<close> the keys of the
  files, \<open>M\<close> the semaphores registered under the keys and \<open>ch\<close> the flag of the battery.\<close>

definition ready_at ::
  "swarm \<Rightarrow> int \<Rightarrow> SHM_Configuration \<Rightarrow> (string \<Rightarrow> int) \<Rightarrow> (int \<Rightarrow> int option) \<Rightarrow> bool \<Rightarrow> os \<Rightarrow> bool" where
  "ready_at si sid c F M ch w \<longleftrightarrow>
     gone_at None 0 si sid False w \<and> battery_ok w \<and> config (sw w) = c \<and> ftok_key (kern w) = F \<and>
     sem_keys (kern w) = M \<and> is_charging w = ch"

text \<open>The key of the table belongs to the semaphore of the table, the key of the configuration does
  not.\<close>

definition keys_ok :: "int \<Rightarrow> (string \<Rightarrow> int) \<Rightarrow> (int \<Rightarrow> int option) \<Rightarrow> bool" where
  "keys_ok sid F M \<longleftrightarrow> M (F ''dron_info_key'') = Some sid \<and> M (F ''config_key'') \<noteq> Some sid"

named_theorems ready_rules \<open>calls of a process that starts\<close>

lemma ready_calm: "ready_at si sid c F M ch w \<Longrightarrow> calm w w' \<Longrightarrow> ready_at si sid c F M ch w'"
  using gone_at_calms [of None 0 si sid False w 1 w'] by (auto simp: ready_at_def calm_def)

lemma ready_updates [simp]:
  "ready_at si sid c F M ch (w\<lparr>kern := (kern w)\<lparr>attached := l\<rparr>\<rparr>) = ready_at si sid c F M ch w"
  "ready_at si sid c F M ch (w\<lparr>battery_created := b\<rparr>) = ready_at si sid c F M ch w"
  by (simp_all add: ready_at_def gone_at_def battery_ok_def)

lemma ready_charging: "ready_at si sid c F M ch w \<Longrightarrow> ready_at si sid c F M b (w\<lparr>is_charging := b\<rparr>)"
  by (simp add: ready_at_def gone_at_def battery_ok_def)

lemma ready_fresh: "ready_at si sid c F M ch w \<Longrightarrow> fresh_at None 0 si sid ch False w"
  by (simp add: ready_at_def fresh_at_def)

lemma ready_safe: "ready_at si sid c F M ch w \<Longrightarrow> safe_at None 0 si sid w"
  by (auto simp: ready_at_def dest: gone_at_safe)

lemma sync_ready [ready_rules]:
  assumes "ready_at si sid c F M ch w" and "\<And>r w'. ready_at si sid c F M ch w' \<Longrightarrow> Q r w'"
  shows "wp (sync w) Q"
  by (rule wp_I) (use assms in \<open>auto dest: sync_calm intro: ready_calm\<close>)

lemma plain_call_ready [ready_rules]:
  assumes "ready_at si sid c F M ch w" and "\<And>r w'. ready_at si sid c F M ch w' \<Longrightarrow> Q r w'"
  shows "wp (plain_call w) Q"
  using assms by (auto simp: plain_call_def intro!: sync_ready split: sysret.splits)

lemma grab_key_ready [ready_rules]:
  assumes "ready_at si sid c F M ch w"
    and "\<And>r w'. ready_at si sid c F M ch w' \<Longrightarrow> r = - 1 \<or> r = F f \<Longrightarrow> Q r w'"
  shows "wp (grab_key_from_file (Some f) w) Q"
proof -
  have "ftok_key (kern w') = F" if "ready_at si sid c F M ch w'" for w'
    using that by (simp add: ready_at_def)
  then show ?thesis
    using assms by (auto simp: grab_key_from_file_def Let_def intro!: sync_ready plain_call_ready split: sysret.splits)
qed

lemma shm_ready [ready_rules]:
  assumes "ready_at si sid c F M ch w" and "\<And>r w'. ready_at si sid c F M ch w' \<Longrightarrow> Q r w'"
  shows "wp (shm_get key w) Q" "wp (shm_detach a w) Q"
  using assms
  by (auto simp: shm_get_def shm_detach_def intro!: sync_ready split: sysret.splits option.splits)

lemma shm_attach_ready [ready_rules]:
  assumes "ready_at si sid c F M ch w" and "\<And>r w'. ready_at si sid c F M ch w' \<Longrightarrow> Q r w'"
  shows "wp (shm_attach i w) Q"
  using assms by (auto simp: shm_attach_def intro!: sync_ready split: sysret.splits)

lemma semaphore_get_ready [ready_rules]:
  assumes "ready_at si sid c F M ch w"
    and "\<And>r w'. ready_at si sid c F M ch w' \<Longrightarrow> r = - 1 \<or> M key = Some r \<Longrightarrow> Q r w'"
  shows "wp (semaphore_get key w) Q"
proof -
  have "sem_keys (kern w') = M" if "ready_at si sid c F M ch w'" for w'
    using that by (simp add: ready_at_def)
  then show ?thesis
    using assms by (auto simp: semaphore_get_def semget_existing_def intro!: sync_ready split: sysret.splits option.splits)
qed

text \<open>Another semaphore can be locked and unlocked freely.\<close>

lemma other_semaphore_ready:
  assumes "ready_at si sid c F M ch w" and "key \<noteq> sid" and "\<And>r w'. ready_at si sid c F M ch w' \<Longrightarrow> Q r w'"
  shows "wp (semaphore_lock key w) Q" "wp (semaphore_unlock key w) Q"
proof -
  have eff: "ready_at si sid c F M ch (sem_eff key d w')" if "calms None 1 w w'" for d w'
    using ready_calm [OF assms(1), of w'] that assms(2)
    by (simp add: ready_at_def gone_at_def sem_eff_def sem_add_def battery_ok_def)
  have calm: "ready_at si sid c F M ch w'" if "calms None 1 w w'" for w'
    using ready_calm [OF assms(1), of w'] that by simp
  show "wp (semaphore_lock key w) Q" "wp (semaphore_unlock key w) Q"
    using lock.retried_wp [of None w key Q] unlock.retried_wp [of None w key Q] eff calm assms(3) by auto
qed

section \<open>Looking up the shared resources\<close>

lemma get_shm_ready:
  assumes "ready_at si sid c F M ch w" and "keys_ok sid F M"
    and "\<And>r t' w'. ready_at si sid c F M ch w' \<Longrightarrow> r = 0 \<and> at_sem_id t' = sid \<or> r = - 1 \<Longrightarrow> Q r (t', w')"
  shows "wp (get_shm_all_drones_data strict t w) Q"
  using assms
  by (auto simp: get_shm_all_drones_data_def Let_def keys_ok_def intro!: ready_rules)

lemma read_configuration_ready:
  assumes "ready_at si sid c F M ch w" and "key \<noteq> sid"
    and "\<And>r w'. ready_at si sid c F M ch w' \<Longrightarrow> r = None \<or> r = Some c \<Longrightarrow> Q r w'"
  shows "wp (read_configuration key p w) Q"
proof -
  have "config (sw w') = c" if "ready_at si sid c F M ch w'" for w'
    using that by (simp add: ready_at_def)
  with assms show ?thesis
    by (auto simp: read_configuration_def Let_def intro!: ready_rules other_semaphore_ready)
qed

lemma fetch_configuration_ready:
  assumes "ready_at si sid c F M ch w" and "keys_ok sid F M" and "bad (- 1)"
    and "\<And>r w'. ready_at si sid c F M ch w' \<Longrightarrow> r = None \<or> r = Some c \<Longrightarrow> Q r w'"
  shows "wp (fetch_configuration bad w) Q"
  using assms
  by (auto simp: fetch_configuration_def keys_ok_def intro!: ready_rules read_configuration_ready split: option.splits)

lemma fifo_sem_get_ready [ready_rules]:
  assumes "ready_at si sid c F M ch w"
    and "\<And>r f' w'. ready_at si sid c F M ch w' \<Longrightarrow> Q r (f', w')"
  shows "wp (fifo_sem_get f p w) Q"
  using assms by (auto simp: fifo_sem_get_def Let_def intro!: ready_rules split: option.splits)

section \<open>The drone\<close>

definition started :: "swarm \<Rightarrow> int \<Rightarrow> status \<Rightarrow> dron \<Rightarrow> bool" where
  "started si sid st w \<longleftrightarrow>
     (case st of Returned r \<Rightarrow> dron_ok None 0 si w \<and> dron_sem_id w = sid | Exited c \<Rightarrow> ended_at si sid (sys w))"

lemma close_started: "safe_at None 0 si sid (sys w) \<Longrightarrow> wp (dron_close_main c w) (started si sid)"
  using close_main_wp [of None 0 si sid w "started si sid" c] by (simp add: started_def)

lemma or_fail_wp:
  assumes "wp x (\<lambda>r w. if r = 0 then P w else safe_at None 0 si sid (sys w))"
    and "\<And>w. P w \<Longrightarrow> wp (f w) (started si sid)"
  shows "wp (or_fail x f) (started si sid)"
  unfolding or_fail_def outc_bind
  by (rule outc_mono [OF assms(1)]) (auto intro: close_started assms(2) split: if_splits)

lemma plain_calls_ready:
  assumes "ready_at si sid c F M ch (sys w)" and "starting_location w = loc"
  shows "wp (plain_calls n w) (\<lambda>r w'. ready_at si sid c F M ch (sys w') \<and> starting_location w' = loc)"
  using assms
proof (induction n arbitrary: w)
  case (Suc n)
  then show ?case by (auto intro!: plain_call_ready)
qed simp

lemma get_initial_configuration_ready:
  assumes "ready_at si sid c F M ch (sys w)" and "keys_ok sid F M"
  shows "wp (get_initial_configuration w) (\<lambda>r w'. if r = 0
    then ready_at si sid c F M (starting_location w \<noteq> LOCATION_MISSION) (sys w') \<and>
      internal w' = initial_internal_data c (starting_location w) \<and> starting_location w' = starting_location w
    else safe_at None 0 si sid (sys w'))"
  unfolding get_initial_configuration_def outc_bind outc_on_sys
  by (rule fetch_configuration_ready [OF assms], simp, elim disjE) (simp_all add: ready_charging, erule ready_safe)

lemma dron_lookup_ready:
  assumes "ready_at si sid c F M ch (sys w)" and "keys_ok sid F M"
  shows "wp (dron_get_shm_all_drones_data w) (\<lambda>r w'. if r = 0
    then ready_at si sid c F M ch (sys w') \<and> internal w' = internal w \<and> starting_location w' = starting_location w \<and>
      dron_sem_id w' = sid
    else safe_at None 0 si sid (sys w'))"
  unfolding dron_get_shm_all_drones_data_def outc_bind
  by (rule get_shm_ready [OF assms]) (auto intro: ready_safe)

lemma gate_ready:
  assumes "ready_at si sid c F M ch (sys w)"
  shows "wp (get_gate_semaphore w) (\<lambda>r w'. if r = 0
      then ready_at si sid c F M ch (sys w') \<and> internal w' = internal w \<and> starting_location w' = starting_location w \<and>
        att w' = att w
      else safe_at None 0 si sid (sys w'))" (is ?a)
    and "wp (get_gate_fifo_sem w) (\<lambda>r w'. if r = 0
      then ready_at si sid c F M ch (sys w') \<and> internal w' = internal w \<and> starting_location w' = starting_location w \<and>
        att w' = att w
      else safe_at None 0 si sid (sys w'))" (is ?b)
proof -
  show ?a
    using assms by (auto simp: get_gate_semaphore_def Let_def intro!: ready_rules intro: ready_safe)
  show ?b
    unfolding get_gate_fifo_sem_def outc_bind
    by (rule fifo_sem_get_ready [OF assms]) (auto simp: Let_def intro: ready_safe)
qed

lemma dron_ok_None [simp]: "0 < n \<Longrightarrow> dron_ok None n si w \<longleftrightarrow> dron_ok None 0 si w"
  by (simp add: dron_ok_def own_at_def)

lemma register_ready:
  assumes at: "ready_at si sid c F M (loc = LOCATION_BASE) (sys w)" and "loc \<in> {LOCATION_BASE, LOCATION_MISSION}"
    and w: "internal w = initial_internal_data c loc" "starting_location w = loc" "dron_sem_id w = sid"
      "dd_location (local_data w) = loc"
  shows "wp (try_adding_self_to_shm w) (\<lambda>r w'. if r = 0 then dron_ok None 0 si w' \<and> dron_sem_id w' = sid
    else safe_at None 0 si sid (sys w'))"
proof -
  have fresh: "fresh_at None 0 si (dron_sem_id w) (dd_location (local_data w) = LOCATION_BASE) False (sys w)"
    unfolding w(3,4) by (rule ready_fresh [OF at])
  have int: "dd_location (local_data w) = location (internal w)"
    "location (internal w) \<in> {LOCATION_BASE, LOCATION_MISSION}" "have_reserved_space (internal w) = 0"
    unfolding w(1,4) using assms(2) by (auto simp: initial_internal_data_def)
  have post: "dron_post None 2 si sid (Returned r) w' \<Longrightarrow>
      if r = 0 then dron_ok None 0 si w' \<and> dron_sem_id w' = sid else safe_at None 0 si sid (sys w')" for r w'
    by (cases "r = 0") (simp_all add: dron_post_def)
  have "wp (try_adding_self_to_shm w) (\<lambda>r w'. dron_post None 2 si sid (Returned r) w')"
    using try_adding_self_to_shm_wp [OF fresh int, of 2] unfolding w(3) by simp
  then show ?thesis by (rule outc_mono) (rule post)
qed

lemma dron_start_wp:
  assumes at: "ready_at si sid c F M ch (sys w)" and keys: "keys_ok sid F M"
    and loc: "starting_location w \<in> {LOCATION_BASE, LOCATION_MISSION}"
  shows "wp (dron_start pid w) (started si sid)"
proof -
  let ?loc = "starting_location w"
  have ch: "(?loc \<noteq> LOCATION_MISSION) = (?loc = LOCATION_BASE)" using loc by auto
  define P where "P = (\<lambda>v :: dron. ready_at si sid c F M (?loc = LOCATION_BASE) (sys v) \<and>
    internal v = initial_internal_data c ?loc \<and> starting_location v = ?loc)"
  have join: "wp (or_fail (try_adding_self_to_shm v) (\<lambda>v. Some (Returned 0, v))) (started si sid)"
    if "P v" "dron_sem_id v = sid" "dd_location (local_data v) = ?loc" for v
  proof (rule or_fail_wp)
    show "wp (try_adding_self_to_shm v) (\<lambda>r w'. if r = 0 then dron_ok None 0 si w' \<and> dron_sem_id w' = sid
        else safe_at None 0 si sid (sys w'))"
      by (rule register_ready [where loc = ?loc]) (use that loc in \<open>auto simp: P_def\<close>)
  qed (simp add: started_def)
  define P' where "P' = (\<lambda>v. P v \<and> dron_sem_id v = sid)"
  have signals: "wp (plain_calls 3 w) (\<lambda>r v. if r = 0 then ready_at si sid c F M ch (sys v) \<and> starting_location v = ?loc
      else safe_at None 0 si sid (sys v))"
    by (rule outc_mono [OF plain_calls_ready [OF at refl]]) (auto intro: ready_safe)
  have cfg: "wp (get_initial_configuration v) (\<lambda>r v. if r = 0 then P v else safe_at None 0 si sid (sys v))"
    if "ready_at si sid c F M ch (sys v) \<and> starting_location v = ?loc" for v
    by (rule outc_mono [OF get_initial_configuration_ready [OF conjunct1 [OF that] keys]])
      (simp add: P_def ch conjunct2 [OF that] split: if_splits)
  have lookup: "wp (dron_get_shm_all_drones_data v) (\<lambda>r v. if r = 0 then P' v else safe_at None 0 si sid (sys v))"
    if "P v" for v
    by (rule outc_mono [OF dron_lookup_ready [OF that [unfolded P_def, THEN conjunct1] keys]])
      (use that in \<open>simp add: P_def P'_def split: if_splits\<close>)
  have P': "ready_at si sid c F M (?loc = LOCATION_BASE) (sys v)" if "P' v" for v
    using that by (simp add: P_def P'_def)
  have gate: "wp (get_gate_semaphore v) (\<lambda>r v. if r = 0 then P' v else safe_at None 0 si sid (sys v))"
    "wp (get_gate_fifo_sem v) (\<lambda>r v. if r = 0 then P' v else safe_at None 0 si sid (sys v))" if "P' v" for v
    by (rule outc_mono [OF gate_ready(1) [OF P' [OF that]]] outc_mono [OF gate_ready(2) [OF P' [OF that]]],
        use that in \<open>simp add: P_def P'_def split: if_splits\<close>)+
  show ?thesis
    unfolding dron_start_def
  proof (rule or_fail_wp [OF signals], rule or_fail_wp [OF cfg], assumption, rule or_fail_wp [OF lookup], assumption,
      rule or_fail_wp [OF gate(1)], assumption, rule or_fail_wp [OF gate(2)], assumption, goal_cases)
    case (1 _ _ _ _ v)
    let ?v = "v\<lparr>local_data := \<lparr>dd_id = my_id (internal v), dd_pid = pid, dd_location = starting_location v\<rparr>\<rparr>"
    have v: "P v" "dron_sem_id v = sid" "starting_location v = ?loc" "ready_at si sid c F M (?loc = LOCATION_BASE) (sys ?v)"
      using 1(5) by (simp_all add: P'_def P_def)
    have rest: "wp (or_fail (try_adding_self_to_shm (?v\<lparr>sys := o'\<lparr>battery_created := True\<rparr>\<rparr>)) (\<lambda>v. Some (Returned 0, v)))
        (started si sid)" if "ready_at si sid c F M (?loc = LOCATION_BASE) o'" for o'
      by (rule join) (use v that in \<open>simp_all add: P_def\<close>)
    show ?case
      unfolding Let_def outc_bind outc_on_sys prod.case
      by (rule plain_call_ready [OF v(4)])
        (use rest in \<open>auto intro: close_started [OF ready_safe] simp del: ready_updates\<close>)
  qed
qed

text \<open>The whole program of a drone, with the location on its command line.\<close>

lemma dron_main_wp:
  assumes at: "ready_at si sid c F M ch (sys w)" and keys: "keys_ok sid F M"
    and loc: "process_argv_location args \<in> {None, Some LOCATION_BASE, Some LOCATION_MISSION}"
  shows "wp (dron_main args pid n w) (\<lambda>st w'. (\<exists>c. st = Exited c) \<and> ended_at si sid (sys w'))"
proof -
  have close: "wp (dron_close_main c v) (\<lambda>st w'. (\<exists>c. st = Exited c) \<and> ended_at si sid (sys w'))"
    if "ready_at si sid c' F M b (sys v)" for c v c' b
    using close_main_wp [of None 0 si sid v _ c] ready_safe [OF that] by simp
  have run: "wp (do { (st, w) \<leftarrow> dron_start pid v;
        case st of Exited c \<Rightarrow> Some (Exited c, w) | Returned _ \<Rightarrow> dron_loop n w })
      (\<lambda>st w'. (\<exists>c. st = Exited c) \<and> ended_at si sid (sys w'))"
    if "ready_at si sid c F M ch (sys v)" "starting_location v \<in> {LOCATION_BASE, LOCATION_MISSION}" for v
    unfolding outc_bind
    by (rule outc_mono [OF dron_start_wp [OF that(1) keys that(2)]])
      (use dron_loop_wp in \<open>auto simp: started_def split: status.splits\<close>)
  have exit: "ended_at si sid (process_exit o')" if "ready_at si sid c F M ch o'" for o'
    using ready_safe [OF that] by (rule safe_at_exit)
  show ?thesis
    unfolding dron_main_def outc_bind [of _ "on_sys _ _"] outc_on_sys prod.case outc_if
    by (rule plain_call_ready [OF at])
      (use loc in \<open>auto simp del: outc_bind intro!: close run exit split: option.splits\<close>)
qed

section \<open>The operator\<close>

lemma op_or_fail_wp:
  assumes "wp x (\<lambda>r w. if r = 0 then P w else safe_at None 0 si sid (op_sys w))"
    and "\<And>w. P w \<Longrightarrow> wp (f w) (\<lambda>st w'. (\<exists>c. st = Exited c) \<and> ended_at si sid (op_sys w'))"
  shows "wp (op_or_fail x f) (\<lambda>st w'. (\<exists>c. st = Exited c) \<and> ended_at si sid (op_sys w'))"
  unfolding op_or_fail_def outc_bind
  by (rule outc_mono [OF assms(1)])
    (auto intro: assms(2) outc_mono [OF operator_close_main_wp] split: if_splits)

lemma op_plain_calls_ready:
  assumes "ready_at si sid c F M ch (op_sys w)"
  shows "wp (op_plain_calls n w) (\<lambda>r w'. ready_at si sid c F M ch (op_sys w'))"
  using assms
proof (induction n arbitrary: w)
  case (Suc n)
  then show ?case by (auto intro!: plain_call_ready)
qed simp

lemma generate_drones_wp:
  assumes "operator_ok si sid w"
  shows "wp (generate_drones n w) (\<lambda>r w'. operator_ok si sid w')"
  using assms
proof (induction n arbitrary: w)
  case (Suc n)
  then show ?case by (auto intro!: outc_mono [OF creat_dron_wp])
qed simp

lemma operator_main_wp:
  assumes at: "ready_at si sid c F M ch (op_sys w)" and keys: "keys_ok sid F M"
  shows "wp (operator_main n w) (\<lambda>st w'. (\<exists>c. st = Exited c) \<and> ended_at si sid (op_sys w'))"
proof -
  have start: "wp (op_plain_calls 5 v) (\<lambda>r v. if r = 0 then ready_at si sid c F M ch (op_sys v)
      else safe_at None 0 si sid (op_sys v))" if "ready_at si sid c F M ch (op_sys v)" for v
    by (rule outc_mono [OF op_plain_calls_ready [OF that]]) (auto intro: ready_safe)
  have cfg: "wp (get_configuration_from_shm_config v) (\<lambda>r v. if r = 0
      then ready_at si sid c F M ch (op_sys v) \<and> local_configuration v = c else safe_at None 0 si sid (op_sys v))"
    if "ready_at si sid c F M ch (op_sys v)" for v
    unfolding get_configuration_from_shm_config_def outc_bind wp_on_op
    by (rule fetch_configuration_ready [OF that keys], simp, elim disjE) (simp_all, erule ready_safe)
  have lookup: "wp (operator_get_shm_all_drones_data v) (\<lambda>r v. if r = 0 then operator_ok si sid v
      else safe_at None 0 si sid (op_sys v))"
    if "ready_at si sid c F M ch (op_sys v) \<and> local_configuration v = c" for v
    unfolding operator_get_shm_all_drones_data_def outc_bind
    by (rule get_shm_ready [OF conjunct1 [OF that] keys], elim disjE)
      (use that in \<open>simp_all add: operator_ok_def ready_at_def, blast intro: gone_at_safe\<close>)
  have first: "wp (generate_starting_drones v) (\<lambda>r v. if r = 0 then operator_ok si sid v
      else safe_at None 0 si sid (op_sys v))" if "operator_ok si sid v" for v
    unfolding generate_starting_drones_def
    by (rule outc_mono [OF generate_drones_wp [OF that]]) (auto simp: operator_ok_def dest: gone_at_safe)
  have boot: "wp (op_or_fail (op_plain_calls 5 v) (\<lambda>w. op_or_fail (get_configuration_from_shm_config w) (\<lambda>w.
      op_or_fail (operator_get_shm_all_drones_data w) (\<lambda>w. op_or_fail (generate_starting_drones w) (operator_loop n)))))
      (\<lambda>st w'. (\<exists>c. st = Exited c) \<and> ended_at si sid (op_sys w'))" if "ready_at si sid c F M ch (op_sys v)" for v
    by (rule op_or_fail_wp [OF start [OF that]], rule op_or_fail_wp [OF cfg], assumption,
        rule op_or_fail_wp [OF lookup], assumption, rule op_or_fail_wp [OF first], assumption)
      (rule operator_loop_wp)
  show ?thesis
    unfolding operator_main_def outc_bind wp_on_op prod.case outc_if
    by (rule plain_call_ready [OF at])
      (auto intro!: boot outc_mono [OF operator_close_main_wp] intro: ready_safe)
qed

section \<open>The commander\<close>

lemma commander_close_wp:
  assumes "safe_at None 0 si sid (cm_sys w)" and "sent_ok si p w"
  shows "wp (commander_close_main c w) (\<lambda>st w'. (\<exists>c. st = Exited c) \<and> ended_at si sid (cm_sys w') \<and> sent_ok si p w')"
  unfolding commander_close_main_def outc_bind
  by (rule outc_mono [OF cleanup_wp [OF assms(1)]]) (use assms(2) in \<open>auto simp: sent_ok_def intro: safe_at_exit\<close>)

lemma sent_ok_Nil: "sent w = [] \<Longrightarrow> sent_ok si p w"
  by (simp add: sent_ok_def)

lemma commander_lookup_ready:
  assumes "ready_at si sid c F M ch (cm_sys w)" and "keys_ok sid F M"
  shows "wp (commander_get_shm_all_drones_data w) (\<lambda>r w'. sent w' = sent w \<and> operator_pid w' = operator_pid w \<and>
    (if r = 0 then commander_ok si sid w' else safe_at None 0 si sid (cm_sys w')))"
  unfolding commander_get_shm_all_drones_data_def outc_bind
  by (rule get_shm_ready [OF assms], elim disjE)
    (simp_all add: commander_ok_def ready_at_def, blast intro: gone_at_safe)

text \<open>The whole program: whatever happens, the commander ends with the swarm consistent, and all its
  signals went to the operator it was given or to a drone of the table.\<close>

lemma commander_main_wp:
  assumes at: "ready_at si sid c F M ch (cm_sys w)" and keys: "keys_ok sid F M" and "sent w = []"
  shows "wp (commander_main args w) (\<lambda>st w'. (\<exists>c. st = Exited c) \<and> ended_at si sid (cm_sys w') \<and>
    (\<forall>pid. process_argv_operator_pid args = Some pid \<longrightarrow> sent_ok si pid w'))"
proof -
  define R where "R = (\<lambda>st (w' :: commander). (\<exists>c. st = Exited c) \<and> ended_at si sid (cm_sys w') \<and>
    (\<forall>pid. process_argv_operator_pid args = Some pid \<longrightarrow> sent_ok si pid w'))"
  obtain p where p: "process_argv_operator_pid args = Some pid \<Longrightarrow> pid = p" for pid
    by (cases "process_argv_operator_pid args") auto
  have close: "wp (commander_close_main e v) R" if "safe_at None 0 si sid (cm_sys v)" "sent v = []" for e v
    by (rule outc_mono [OF commander_close_wp [where p = p, OF that(1) sent_ok_Nil [OF that(2)]]])
      (auto simp: R_def dest: p)
  have run: "wp (commander_run v) R"
    if "commander_ok si sid v" "sent v = []" "process_argv_operator_pid args = Some (operator_pid v)" for v
    by (rule outc_mono [OF commander_run_wp [OF that(1) sent_ok_Nil [OF that(2)]]]) (use that in \<open>auto simp: R_def\<close>)
  have boot: "wp (do { (r, w) \<leftarrow> commander_get_shm_all_drones_data v;
        if r \<noteq> 0 then commander_close_main EXIT_FAILURE w else commander_run w }) R"
    if "ready_at si sid c F M ch (cm_sys v)" "sent v = []" "process_argv_operator_pid args = Some (operator_pid v)" for v
    unfolding outc_bind prod.case outc_if
  proof (rule outc_mono [OF commander_lookup_ready [OF that(1) keys]], goal_cases)
    case (1 r v')
    then show ?case using close [of v' 1] run [of v'] that by (cases "r = 0") simp_all
  qed
  have exit: "R (Exited e) (w\<lparr>cm_sys := process_exit o'\<rparr>)" if "ready_at si sid c F M ch o'" for o' e
    using safe_at_exit [OF ready_safe [OF that]] assms(3) by (simp add: R_def sent_ok_def)
  have "wp (commander_main args w) R"
    unfolding commander_main_def Let_def outc_bind [of _ "on_cm _ _"] wp_on_cm prod.case outc_if
    by (rule plain_call_ready [OF at])
      (use assms(3) in \<open>auto simp del: outc_bind simp: outc_bind [of _ "on_cm _ _"]
        intro!: close boot exit plain_call_ready intro: ready_safe split: option.splits\<close>)
  then show ?thesis by (simp add: R_def)
qed

end
