(* ===== verification/Launcher.thy ===== *)
theory Launcher
  imports Client Parsing
begin

text \<open>
  The main program, \<^verbatim>\<open>src/src/main.c\<close>: it reads the command line, creates the shared memory, the
  semaphores and the gate, starts the operator and the commander, waits for both and removes
  everything it has created.  The record \<open>launcher\<close> holds its global variables.

  The lemmas show that the command line leads to a configuration within its bounds, that the
  set-up gives a swarm that satisfies the invariant of the theory \<open>Swarm\<close>, and what
  \<open>close_main\<close> removes.
\<close>

section \<open>State\<close>

record launcher =
  mn_sys :: os
  shm_configuration :: "int option"
  shm_configuration_id :: int
  shm_configuration_semaphore_id :: int
  mn_att :: attachments
  mn_gate_semaphore_id :: int
  mn_operator_pid :: int
  system_commander_pid :: int
  mn_fifo_sem :: FIFO_SEM
  maximum_drones_in_memory :: int
  commander_args :: "string list option"

definition on_mn :: "(os \<Rightarrow> ('r \<times> os) option) \<Rightarrow> launcher \<Rightarrow> ('r \<times> launcher) option" where
  "on_mn f w = do { (r, s) \<leftarrow> f (mn_sys w); Some (r, w\<lparr>mn_sys := s\<rparr>) }"

section \<open>The command line\<close>

definition MAXIMUM_DRONES_IN_MEMORY :: int where
  "MAXIMUM_DRONES_IN_MEMORY = 100"

definition default_configuration :: SHM_Configuration where
  "default_configuration =
     \<lparr>starting_drones_count = 6, resupply_interval = 1000000, cfg_maximum_charge_time = 4000000,
      max_loading_cycles = 3, cfg_gate_time_to_pass = 20000, dron_work_interval = 500000\<rparr>"

definition ARGS_MAX_TIME_US_INTERVALS :: int where
  "ARGS_MAX_TIME_US_INTERVALS = 8000000"

definition ARGS_MAX_TIME_US_GATE :: int where
  "ARGS_MAX_TIME_US_GATE = 2000000"

definition ARGS_MAX_PROCS :: int where
  "ARGS_MAX_PROCS = 1000000"

definition ARGS_MAX_MEMORY :: int where
  "ARGS_MAX_MEMORY = 2500000"

definition ARGS_MAX_LOADING_CYCLES :: int where
  "ARGS_MAX_LOADING_CYCLES = 30"

text \<open>\<open>Quit c\<close> is \<open>exit (c)\<close>.\<close>

datatype argv_result = Quit int | Config SHM_Configuration int

text \<open>An option with its argument: the body of the \<open>switch\<close>; \<open>None\<close> means that
  \<open>parse_positive_int\<close> ends the process.\<close>

definition apply_option ::
  "char \<Rightarrow> string \<Rightarrow> SHM_Configuration \<Rightarrow> int \<Rightarrow> (SHM_Configuration \<times> int) option" where
  "apply_option opt optarg cfg m =
     (if opt = CHR ''n'' then
        map_option (\<lambda>v. (cfg\<lparr>starting_drones_count := v\<rparr>, m)) (main_parse_positive_int optarg ARGS_MAX_PROCS)
      else if opt = CHR ''r'' then
        map_option (\<lambda>v. (cfg\<lparr>resupply_interval := v\<rparr>, m)) (main_parse_positive_int optarg ARGS_MAX_TIME_US_INTERVALS)
      else if opt = CHR ''c'' then
        map_option (\<lambda>v. (cfg\<lparr>cfg_maximum_charge_time := v\<rparr>, m)) (main_parse_positive_int optarg ARGS_MAX_TIME_US_INTERVALS)
      else if opt = CHR ''l'' then
        map_option (\<lambda>v. (cfg\<lparr>max_loading_cycles := v\<rparr>, m)) (main_parse_positive_int optarg ARGS_MAX_LOADING_CYCLES)
      else if opt = CHR ''g'' then
        map_option (\<lambda>v. (cfg\<lparr>cfg_gate_time_to_pass := v\<rparr>, m)) (main_parse_positive_int optarg ARGS_MAX_TIME_US_GATE)
      else if opt = CHR ''w'' then
        map_option (\<lambda>v. (cfg\<lparr>dron_work_interval := v\<rparr>, m)) (main_parse_positive_int optarg ARGS_MAX_TIME_US_INTERVALS)
      else
        map_option (\<lambda>v. (cfg, v)) (main_parse_positive_int optarg ARGS_MAX_MEMORY))"

text \<open>The checks after the loop; \<open>extra\<close> says that an argument is left.\<close>

definition check_configuration :: "bool \<Rightarrow> SHM_Configuration \<Rightarrow> int \<Rightarrow> argv_result" where
  "check_configuration extra cfg m =
     (if extra then Quit EXIT_FAILURE
      else if m < 2 * starting_drones_count cfg then Quit EXIT_FAILURE
      else Config cfg m)"

text \<open>The loop over \<open>getopt (argc, argv, "n:r:c:l:g:w:m:h")\<close>.  The function of the C library reads
  the arguments from left to right, passes over arguments that are no options (they are
  left at the end), and stops at \<open>--\<close>.  The argument of an option is the rest of its word, or the
  next word.\<close>

definition is_option :: "string \<Rightarrow> bool" where
  "is_option a \<longleftrightarrow> 2 \<le> length a \<and> hd a = CHR ''-''"

definition takes_argument :: "char \<Rightarrow> bool" where
  "takes_argument c \<longleftrightarrow> c \<in> set ''nrclgwm''"

fun process_options :: "string list \<Rightarrow> bool \<Rightarrow> SHM_Configuration \<Rightarrow> int \<Rightarrow> argv_result" where
  "process_options [] extra cfg m = check_configuration extra cfg m"
| "process_options (a # as) extra cfg m =
     (let c = a ! 1; rest = drop 2 a
      in if \<not> is_option a then process_options as True cfg m
         else if a = ''--'' then check_configuration (extra \<or> as \<noteq> []) cfg m
         else if c = CHR ''h'' then Quit EXIT_SUCCESS
         else if \<not> takes_argument c then Quit EXIT_FAILURE
         else if rest \<noteq> [] then
           (case apply_option c rest cfg m of
              None \<Rightarrow> Quit EXIT_FAILURE
            | Some (cfg', m') \<Rightarrow> process_options as extra cfg' m')
         else
           (case as of
              [] \<Rightarrow> Quit EXIT_FAILURE
            | v # as' \<Rightarrow>
                (case apply_option c v cfg m of
                   None \<Rightarrow> Quit EXIT_FAILURE
                 | Some (cfg', m') \<Rightarrow> process_options as' extra cfg' m')))"

definition process_argv :: "string list \<Rightarrow> argv_result" where
  "process_argv args = process_options args False default_configuration MAXIMUM_DRONES_IN_MEMORY"

section \<open>Set-up\<close>

text \<open>Sizes of the structures in bytes.\<close>

definition sizeof_SHM_Configuration :: nat where
  "sizeof_SHM_Configuration = 24"

definition sizeof_SHM_AllDronesData :: nat where
  "sizeof_SHM_AllDronesData = 40"

definition sizeof_DronData :: nat where
  "sizeof_DronData = 12"

definition create_shm_config :: "SHM_Configuration \<Rightarrow> launcher \<Rightarrow> (int \<times> launcher) option" where
  "create_shm_config cfg w = do {
     (key, w) \<leftarrow> on_mn (grab_key_from_file (Some ''config_key'')) w;
     if key < 0 then Some (- 1, w)
     else do {
       (i, w) \<leftarrow> on_mn (shm_create key sizeof_SHM_Configuration) w;
       let w = w\<lparr>shm_configuration_id := i\<rparr>;
       if i = - 1 then Some (- 1, w)
       else do {
         (addr, w) \<leftarrow> on_mn (shm_attach i) w;
         let w = w\<lparr>shm_configuration := addr\<rparr>;
         if addr = None then Some (- 1, w)
         else do {
           let w = w\<lparr>mn_sys := (mn_sys w)\<lparr>sw := (sw (mn_sys w))\<lparr>config := cfg\<rparr>\<rparr>\<rparr>;
           (sid, w) \<leftarrow> on_mn (semaphore_create key 1) w;
           let w = w\<lparr>shm_configuration_semaphore_id := sid\<rparr>;
           if sid = - 1 then Some (- 1, w) else Some (0, w)
         }
       }
     }
   }"

text \<open>A new segment consists of zero bytes: the slots of the table have no location.\<close>

definition initial_table :: "SHM_Configuration \<Rightarrow> int \<Rightarrow> SHM_AllDronesData" where
  "initial_table cfg m =
     \<lparr>next_dron_id = 1, dron_count = 0, dron_in_base_count = 0,
      maximum_dron_in_base_count = starting_drones_count cfg sdiv 2 - 1,
      dron_reserving_space_count = 0, capacity = m, drone_lost_suicide = 0,
      drone_lost_decommissioned = 0, drone_lost_out_of_power = 0, drone_lost_other = 0,
      drones = replicate (nat m) \<lparr>dd_id = 0, dd_pid = 0, dd_location = LOCATION_UNDEFINE\<rparr>\<rparr>"

definition new_stack_segment :: "size_t \<Rightarrow> Stack" where
  "new_stack_segment bytes =
     \<lparr>st_capacity = 0, st_size = 0, st_elem_size = 0,
      st_data = replicate (unat bytes - unat sizeof_Stack) 0\<rparr>"

text \<open>\<open>while (!Stack_is_full (shm_stack)) { Stack_push (shm_stack, &index); index--; }\<close>\<close>

function fill_free_stack :: "Stack \<Rightarrow> int \<Rightarrow> Stack option" where
  "fill_free_stack s index =
     (if Stack_is_full (Some s) \<noteq> 0 then Some s
      else
        (case Stack_push_int s index of
           None \<Rightarrow> None
         | Some (_, s') \<Rightarrow> fill_free_stack s' (index - 1)))"
  by pat_completeness auto
termination
proof (relation "measure (\<lambda>(s, i). unat (st_capacity s) - unat (st_size s))", goal_cases)
  case (2 s index p r s')
  then have room: "st_size s < st_capacity s"
    by (simp add: Stack_is_full_def not_le split: if_splits)
  from 2 have "st_capacity s' = st_capacity s" "st_size s' = st_size s + 1"
    by (auto simp: Stack_is_full_def Stack_push_int_def Stack_push_def split: bind_splits if_splits)
  with room size_plus_one [OF room] show ?case
    by (simp add: word_less_nat_alt)
qed simp

declare fill_free_stack.simps [simp del]

text \<open>The index stack is created, initialised and filled; the result of \<open>Stack_init\<close> is tested.\<close>

definition initial_free_stack :: "int \<Rightarrow> Stack option" where
  "initial_free_stack m =
     (case Stack_init (Some (new_stack_segment (Stack_bytes_needed (word_of_int m) sizeof_int)))
             (word_of_int m) sizeof_int of
        (r, Some s) \<Rightarrow> if r = STACK_ERROR then None else fill_free_stack s (m - 1)
      | (_, None) \<Rightarrow> None)"

definition create_shm_all_drones_data :: "SHM_Configuration \<Rightarrow> launcher \<Rightarrow> (int \<times> launcher) option" where
  "create_shm_all_drones_data cfg w = do {
     let m = maximum_drones_in_memory w;
     (key, w) \<leftarrow> on_mn (grab_key_from_file (Some ''dron_info_key'')) w;
     if key < 0 then Some (- 1, w)
     else do {
       (i, w) \<leftarrow> on_mn (shm_create key (sizeof_SHM_AllDronesData + nat m * sizeof_DronData)) w;
       let w = w\<lparr>mn_att := (mn_att w)\<lparr>at_shm_id := i\<rparr>\<rparr>;
       if i < 0 then Some (- 1, w)
       else do {
         (addr, w) \<leftarrow> on_mn (shm_attach i) w;
         let w = w\<lparr>mn_att := (mn_att w)\<lparr>at_shm := addr\<rparr>\<rparr>;
         if addr = None then Some (- 1, w)
         else do {
           let w = w\<lparr>mn_sys := (mn_sys w)\<lparr>sw := (sw (mn_sys w))\<lparr>all_drones := initial_table cfg m\<rparr>\<rparr>\<rparr>;
           (stack_key, w) \<leftarrow> on_mn (grab_key_from_file (Some ''stack_key'')) w;
           (j, w) \<leftarrow> on_mn (shm_create stack_key
             (unat (Stack_bytes_needed (word_of_int m) sizeof_int))) w;
           let w = w\<lparr>mn_att := (mn_att w)\<lparr>at_stack_id := j\<rparr>\<rparr>;
           if j < 0 then Some (- 1, w)
           else do {
             (addr', w) \<leftarrow> on_mn (shm_attach j) w;
             let w = w\<lparr>mn_att := (mn_att w)\<lparr>at_stack := addr'\<rparr>\<rparr>;
             if addr' = None then Some (- 1, w)
             else
               (case Stack_init (Some (new_stack_segment (Stack_bytes_needed (word_of_int m) sizeof_int)))
                       (word_of_int m) sizeof_int of
                  (r, None) \<Rightarrow> Some (- 1, w)
                | (r, Some s) \<Rightarrow>
                    if r = STACK_ERROR then Some (- 1, w)
                    else do {
                      s \<leftarrow> fill_free_stack s (m - 1);
                      let w = w\<lparr>mn_sys := (mn_sys w)\<lparr>sw := (sw (mn_sys w))\<lparr>free_stack := s\<rparr>\<rparr>\<rparr>;
                      (sid, w) \<leftarrow> on_mn (semaphore_create key 1) w;
                      let w = w\<lparr>mn_att := (mn_att w)\<lparr>at_sem_id := sid\<rparr>\<rparr>;
                      if sid < 0 then Some (- 1, w) else Some (0, w)
                    })
           }
         }
       }
     }
   }"

definition GATE_SEMAPHORE_STARTING_VALUE :: int where
  "GATE_SEMAPHORE_STARTING_VALUE = 2"

definition create_gate_semaphore :: "launcher \<Rightarrow> (int \<times> launcher) option" where
  "create_gate_semaphore w = do {
     (key, w) \<leftarrow> on_mn (grab_key_from_file (Some ''gate_key'')) w;
     if key < 0 then Some (- 1, w)
     else do {
       (sid, w) \<leftarrow> on_mn (semaphore_create key GATE_SEMAPHORE_STARTING_VALUE) w;
       let w = w\<lparr>mn_gate_semaphore_id := sid\<rparr>;
       if sid < 0 then Some (- 1, w) else Some (0, w)
     }
   }"

definition create_gate_fifo_sem :: "launcher \<Rightarrow> (int \<times> launcher) option" where
  "create_gate_fifo_sem w = do {
     (r, f, s) \<leftarrow> fifo_sem_create (Some (mn_fifo_sem w)) (Some ''/tmp/gate_fifo'') 2 (mn_sys w);
     let w = w\<lparr>mn_sys := s, mn_fifo_sem := (case f of None \<Rightarrow> mn_fifo_sem w | Some f' \<Rightarrow> f')\<rparr>;
     if r \<noteq> 0 then Some (- 1, w) else Some (0, w)
   }"

section \<open>Child processes\<close>

definition creat_operator :: "launcher \<Rightarrow> (int \<times> launcher) option" where
  "creat_operator w = do {
     (pid, w) \<leftarrow> on_mn plain_call w;
     if pid < 0 then Some (- 1, w) else Some (0, w\<lparr>mn_operator_pid := pid\<rparr>)
   }"

text \<open>The child of \<open>creat_system_commander\<close>: \<open>Inl\<close> is the argument vector of the commander, \<open>Inr\<close> the
  code of \<open>_exit\<close>.  The buffer has 32 bytes.\<close>

definition commander_child :: "int \<Rightarrow> string list + int" where
  "commander_child op_pid =
     (let op_pid_str = show_int op_pid
      in if 32 \<le> length op_pid_str then Inr 1 else Inl [op_pid_str])"

definition creat_system_commander :: "launcher \<Rightarrow> (int \<times> launcher) option" where
  "creat_system_commander w = do {
     (pid, w) \<leftarrow> on_mn plain_call w;
     if pid < 0 then Some (- 1, w)
     else Some (0, w\<lparr>system_commander_pid := pid,
       commander_args := (case commander_child (mn_operator_pid w) of Inl argv \<Rightarrow> Some argv | Inr _ \<Rightarrow> None)\<rparr>)
   }"

section \<open>The report and the end\<close>

text \<open>The numbers of the report: registered, in base, lost in total, and the warning.\<close>

definition print_simulation_report :: "SHM_AllDronesData \<Rightarrow> (int \<times> int \<times> int \<times> bool)" where
  "print_simulation_report a =
     (dron_count a, dron_in_base_count a,
      drone_lost_suicide a + drone_lost_decommissioned a + drone_lost_out_of_power a + drone_lost_other a,
      dron_in_base_count a > capacity a)"

text \<open>The status of a child is only reported.\<close>

definition join_children :: "launcher \<Rightarrow> (unit \<times> launcher) option" where
  "join_children w = do {
     (_, w) \<leftarrow> (if system_commander_pid w > - 1 then do {
         (r, w) \<leftarrow> on_mn plain_call w;
         Some (r, w\<lparr>system_commander_pid := - 1\<rparr>)
       } else Some (0, w));
     (_, w) \<leftarrow> (if mn_operator_pid w > - 1 then do {
         (r, w) \<leftarrow> on_mn plain_call w;
         Some (r, w\<lparr>mn_operator_pid := - 1\<rparr>)
       } else Some (0, w));
     Some ((), w)
   }"

text \<open>Detach and destroy a segment.\<close>

definition remove_segment :: "int option \<Rightarrow> int \<Rightarrow> os \<Rightarrow> (bool \<times> os) option" where
  "remove_segment ptr shm_id w =
     (case ptr of
        Some addr \<Rightarrow>
          if shm_id > - 1 then do {
            (_, w) \<leftarrow> shm_detach addr w;
            (_, w) \<leftarrow> shm_destroy shm_id w;
            Some (True, w)
          } else Some (False, w)
      | None \<Rightarrow> Some (False, w))"

definition remove_semaphore :: "int \<Rightarrow> os \<Rightarrow> (unit \<times> os) option" where
  "remove_semaphore sid w =
     (if sid > - 1 then do { (_, w) \<leftarrow> semaphore_delete sid w; Some ((), w) } else Some ((), w))"

definition remove_resources :: "launcher \<Rightarrow> (unit \<times> launcher) option" where
  "remove_resources w = do {
     (b, w) \<leftarrow> on_mn (remove_segment (shm_configuration w) (shm_configuration_id w)) w;
     let w = (if b then w\<lparr>shm_configuration := None, shm_configuration_id := - 1\<rparr> else w);
     (b, w) \<leftarrow> on_mn (remove_segment (at_shm (mn_att w)) (at_shm_id (mn_att w))) w;
     let w = (if b then w\<lparr>mn_att := (mn_att w)\<lparr>at_shm := None, at_shm_id := - 1\<rparr>\<rparr> else w);
     (b, w) \<leftarrow> on_mn (remove_segment (at_stack (mn_att w)) (at_stack_id (mn_att w))) w;
     let w = (if b then w\<lparr>mn_att := (mn_att w)\<lparr>at_stack := None, at_stack_id := - 1\<rparr>\<rparr> else w);
     (_, w) \<leftarrow> on_mn (remove_semaphore (shm_configuration_semaphore_id w)) w;
     let w = w\<lparr>shm_configuration_semaphore_id := - 1\<rparr>;
     (_, w) \<leftarrow> on_mn (remove_semaphore (at_sem_id (mn_att w))) w;
     let w = w\<lparr>mn_att := (mn_att w)\<lparr>at_sem_id := - 1\<rparr>\<rparr>;
     (_, w) \<leftarrow> on_mn (remove_semaphore (mn_gate_semaphore_id w)) w;
     let w = w\<lparr>mn_gate_semaphore_id := - 1\<rparr>;
     if fs_file_descriptor (mn_fifo_sem w) > 0 then do {
       (_, _, s) \<leftarrow> fifo_sem_destroy (Some (mn_fifo_sem w)) (mn_sys w);
       Some ((), w\<lparr>mn_sys := s, mn_fifo_sem := \<lparr>fs_path = '''', fs_file_descriptor = - 1, fs_capacity = 0\<rparr>\<rparr>)
     } else Some ((), w)
   }"

definition main_close_main :: "int \<Rightarrow> launcher \<Rightarrow> (status \<times> launcher) option" where
  "main_close_main exit_code w = do {
     (_, w) \<leftarrow> join_children w;
     (_, w) \<leftarrow> remove_resources w;
     Some (Exited exit_code, w\<lparr>mn_sys := process_exit (mn_sys w)\<rparr>)
   }"

section \<open>main\<close>

definition mn_or_fail ::
  "(int \<times> launcher) option \<Rightarrow> (launcher \<Rightarrow> (status \<times> launcher) option) \<Rightarrow> (status \<times> launcher) option" where
  "mn_or_fail x f = do {
     (r, w) \<leftarrow> x;
     if r \<noteq> 0 then main_close_main (- 1) w else f w
   }"

definition main_setup :: "SHM_Configuration \<Rightarrow> launcher \<Rightarrow> (status \<times> launcher) option" where
  "main_setup cfg w =
     mn_or_fail (create_shm_config cfg w) (\<lambda>w.
     mn_or_fail (create_shm_all_drones_data cfg w) (\<lambda>w.
     mn_or_fail (create_gate_semaphore w) (\<lambda>w.
     mn_or_fail (create_gate_fifo_sem w) (\<lambda>w. Some (Returned 0, w)))))"

definition main_children :: "launcher \<Rightarrow> (status \<times> launcher) option" where
  "main_children w =
     mn_or_fail (creat_operator w) (\<lambda>w.
     mn_or_fail (creat_system_commander w) (main_close_main 0))"

definition main_main :: "string list \<Rightarrow> launcher \<Rightarrow> (status \<times> launcher) option" where
  "main_main args w = do {
     (log_file_descriptor, w) \<leftarrow> on_mn plain_call w;
     if log_file_descriptor < 0 then main_close_main (- 1) w
     else
       (case process_argv args of
          Quit c \<Rightarrow> Some (Exited c, w\<lparr>mn_sys := process_exit (mn_sys w)\<rparr>)
        | Config cfg m \<Rightarrow> do {
            (st, w) \<leftarrow> main_setup cfg (w\<lparr>maximum_drones_in_memory := m\<rparr>);
            case st of Exited c \<Rightarrow> Some (Exited c, w) | Returned _ \<Rightarrow> main_children w
          })
   }"

section \<open>Bounds of the configuration\<close>

definition config_ok :: "SHM_Configuration \<Rightarrow> int \<Rightarrow> bool" where
  "config_ok cfg m \<longleftrightarrow>
     1 \<le> starting_drones_count cfg \<and> starting_drones_count cfg \<le> ARGS_MAX_PROCS \<and>
     1 \<le> resupply_interval cfg \<and> resupply_interval cfg \<le> ARGS_MAX_TIME_US_INTERVALS \<and>
     1 \<le> cfg_maximum_charge_time cfg \<and> cfg_maximum_charge_time cfg \<le> ARGS_MAX_TIME_US_INTERVALS \<and>
     1 \<le> max_loading_cycles cfg \<and> max_loading_cycles cfg \<le> ARGS_MAX_LOADING_CYCLES \<and>
     1 \<le> cfg_gate_time_to_pass cfg \<and> cfg_gate_time_to_pass cfg \<le> ARGS_MAX_TIME_US_GATE \<and>
     1 \<le> dron_work_interval cfg \<and> dron_work_interval cfg \<le> ARGS_MAX_TIME_US_INTERVALS \<and>
     1 \<le> m \<and> m \<le> ARGS_MAX_MEMORY"

lemmas args_max_defs = ARGS_MAX_PROCS_def ARGS_MAX_TIME_US_INTERVALS_def ARGS_MAX_LOADING_CYCLES_def
  ARGS_MAX_TIME_US_GATE_def ARGS_MAX_MEMORY_def

lemma main_parse_bounds: "main_parse_positive_int a x = Some v \<Longrightarrow> 1 \<le> v \<and> v \<le> x"
  by (auto simp: main_parse_positive_int_def Let_def split: prod.splits if_splits)

lemma apply_option_ok:
  "config_ok cfg m \<Longrightarrow> apply_option c a cfg m = Some (cfg', m') \<Longrightarrow> config_ok cfg' m'"
  by (auto simp: apply_option_def config_ok_def dest!: main_parse_bounds split: if_splits)

lemma process_options_ok:
  "config_ok cfg m \<Longrightarrow> process_options as extra cfg m = Config cfg' m' \<Longrightarrow>
     config_ok cfg' m' \<and> 2 * starting_drones_count cfg' \<le> m'"
proof (induction as extra cfg m rule: process_options.induct)
  case (2 a as extra cfg m)
  show ?case
  proof (cases "is_option a \<and> a \<noteq> ''--'' \<and> a ! 1 \<noteq> CHR ''h'' \<and> takes_argument (a ! 1)")
    case True
    then have eq: "process_options (a # as) extra cfg m =
       (if drop 2 a \<noteq> [] then
          (case apply_option (a ! 1) (drop 2 a) cfg m of None \<Rightarrow> Quit EXIT_FAILURE
           | Some (cfg', m') \<Rightarrow> process_options as extra cfg' m')
        else (case as of [] \<Rightarrow> Quit EXIT_FAILURE
          | v # as' \<Rightarrow> (case apply_option (a ! 1) v cfg m of None \<Rightarrow> Quit EXIT_FAILURE
             | Some (cfg', m') \<Rightarrow> process_options as' extra cfg' m')))"
      by (simp add: Let_def del: process_options.simps add: process_options.simps(2) [of a as] del: One_nat_def)
    have step: "config_ok c n" if "apply_option (a ! 1) v cfg m = Some (c, n)" for v c n
      using apply_option_ok [OF 2(4) that] .
    have word: "config_ok cfg' m' \<and> 2 * starting_drones_count cfg' \<le> m'"
      if "drop 2 a \<noteq> []" "apply_option (a ! 1) (drop 2 a) cfg m = Some (c, n)"
        "process_options as extra c n = Config cfg' m'" for c n
      using 2(2) [OF refl refl, of "(c, n)" c n] True that step by simp
    have next_word: "config_ok cfg' m' \<and> 2 * starting_drones_count cfg' \<le> m'"
      if "drop 2 a = []" "as = v # vs" "apply_option (a ! 1) v cfg m = Some (c, n)"
        "process_options vs extra c n = Config cfg' m'" for v vs c n
      using 2(3) [OF refl refl, of v vs "(c, n)" c n] True that step by simp
    show ?thesis
      using 2(5) unfolding eq
      by (auto split: if_splits option.splits list.splits dest: word next_word
          simp del: drop_eq_Nil One_nat_def)
  next
    case False
    then show ?thesis
      using 2(1) [OF refl refl _ 2(4)] 2(4,5)
      by (auto simp: Let_def check_configuration_def split: if_splits)
  qed
qed (auto simp: check_configuration_def split: if_splits)

lemma process_argv_ok:
  "process_argv args = Config cfg m \<Longrightarrow> config_ok cfg m \<and> 2 * starting_drones_count cfg \<le> m"
  unfolding process_argv_def
  by (rule process_options_ok)
    (simp_all add: config_ok_def args_max_defs default_configuration_def MAXIMUM_DRONES_IN_MEMORY_def)

section \<open>The initial swarm\<close>

lemma fill_free_stack_ok:
  assumes "int_stack_ok s" and "stack_ints s = map int [k..<unat (st_capacity s)]"
    and "k \<le> unat (st_capacity s)" and "unat (st_capacity s) \<le> 2147483647"
  shows "\<exists>s'. fill_free_stack s (int k - 1) = Some s' \<and> int_stack_ok s' \<and>
    st_capacity s' = st_capacity s \<and> stack_ints s' = map int [0..<unat (st_capacity s)]"
  using assms
proof (induction k arbitrary: s)
  case 0
  have "length (stack_ints s) = unat (st_capacity s)" using 0 by simp
  then have "st_size s \<ge> st_capacity s" using int_stack_size_full [OF 0(1)] by blast
  with 0 show ?case by (simp add: fill_free_stack.simps [of s] Stack_is_full_def)
next
  case (Suc k)
  have len: "length (stack_ints s) < unat (st_capacity s)" using Suc.prems by simp
  then have "\<not> st_size s \<ge> st_capacity s" using int_stack_size_full [OF Suc.prems(1)] by simp
  then have "Stack_is_full (Some s) = 0" by (simp add: Stack_is_full_def)
  moreover have "in_int (int k)"
    using Suc.prems(3,4) by (simp add: in_int_def INT_MIN_def INT_MAX_def)
  then obtain s' where s': "Stack_push_int s (int k) = Some (0, s')" "int_stack_ok s'"
      "stack_ints s' = int k # stack_ints s" "unat (st_capacity s') = unat (st_capacity s)"
    using st.push_room [OF Suc.prems(1) len] by blast
  then have cap: "st_capacity s' = st_capacity s" by (simp add: unsigned_word_eqI)
  have "stack_ints s' = map int [k..<unat (st_capacity s')]"
    using s'(3) Suc.prems(2,3) cap by (simp add: upt_conv_Cons)
  then obtain s'' where "fill_free_stack s' (int k - 1) = Some s''" "int_stack_ok s''"
      "st_capacity s'' = st_capacity s'" "stack_ints s'' = map int [0..<unat (st_capacity s')]"
    using Suc.IH [OF s'(2)] Suc.prems(3,4) cap by auto
  ultimately show ?case
    using s' cap by (simp add: fill_free_stack.simps [of s])
qed

lemma unat_small_int: "0 \<le> m \<Longrightarrow> m \<le> INT_MAX \<Longrightarrow> unat (word_of_int m :: size_t) = nat m"
  by (simp add: INT_MAX_def unat_eq_nat_uint uint_word_of_int take_bit_int_eq_self)

lemma stack_bytes_needed_small:
  assumes "0 \<le> m" and "m \<le> INT_MAX"
  shows "unat (Stack_bytes_needed (word_of_int m) sizeof_int) = 32 + 4 * nat m"
proof -
  have "nat m \<le> 2147483647" using assms by (simp add: INT_MAX_def)
  then have "unat ((word_of_int m :: size_t) * sizeof_int) = nat m * 4"
    using unat_small_int [OF assms] by (simp add: unat_word_ariths)
  with \<open>nat m \<le> 2147483647\<close> show ?thesis
    by (simp add: Stack_bytes_needed_def sizeof_Stack_def unat_word_ariths)
qed

lemma initial_free_stack_ok:
  assumes "1 \<le> m" and "m \<le> INT_MAX"
  shows "\<exists>st. initial_free_stack m = Some st \<and> int_stack_ok st \<and> unat (st_capacity st) = nat m \<and>
    stack_ints st = map int [0..<nat m]"
proof -
  let ?s = "(new_stack_segment (Stack_bytes_needed (word_of_int m) sizeof_int))
    \<lparr>st_capacity := word_of_int m, st_size := 0, st_elem_size := sizeof_int\<rparr>"
  have m: "nat m \<le> 2147483647" "0 < nat m" using assms by (simp_all add: INT_MAX_def)
  have cap: "unat (st_capacity ?s) = nat m" using unat_small_int assms by simp
  have "stack_ok ?s"
    using m cap stack_bytes_needed_small [of m] assms
    by (simp add: stack_ok_def new_stack_segment_def sizeof_Stack_def) (simp add: sizeof_int_def)
  then have ok: "int_stack_ok ?s" by (simp add: int_stack_ok_def)
  have empty: "stack_ints ?s = map int [nat m..<unat (st_capacity ?s)]"
    using cap by (simp add: stack_ints_def stack_blocks_def)
  have "(word_of_int m :: size_t) \<noteq> 0" using cap m by (auto simp: unat_eq_0)
  then have "initial_free_stack m = fill_free_stack ?s (int (nat m) - 1)"
    using assms by (simp add: initial_free_stack_def Stack_init_def STACK_ERROR_def STACK_SUCCESS_def sizeof_int_def)
  with fill_free_stack_ok [OF ok empty] m cap show ?thesis by auto
qed

definition initial_swarm :: "SHM_Configuration \<Rightarrow> int \<Rightarrow> Stack \<Rightarrow> swarm" where
  "initial_swarm cfg m st =
     \<lparr>all_drones = initial_table cfg m, free_stack = st, config = cfg, gate_tokens = 2,
      reservers = [], passing = []\<rparr>"

lemma initial_swarm_ok:
  assumes cfg: "config_ok cfg m" and st: "initial_free_stack m = Some st"
  shows "swarm_ok (initial_swarm cfg m st)"
proof -
  have m: "1 \<le> m" "m \<le> INT_MAX" using cfg by (simp_all add: config_ok_def args_max_defs INT_MAX_def)
  have n: "1 \<le> starting_drones_count cfg" using cfg by (simp add: config_ok_def)
  have "int_stack_ok st" "unat (st_capacity st) = nat m" "stack_ints st = map int [0..<nat m]"
    using initial_free_stack_ok [OF m] st by auto
  moreover have "free_slots (initial_table cfg m) = int ` {0..<nat m}"
  proof (intro equalityI subsetI)
    fix i assume "i \<in> free_slots (initial_table cfg m)"
    then have "i = int (nat i)" "nat i < nat m"
      using m by (auto simp: free_slots_def slot_valid_def initial_table_def)
    then show "i \<in> int ` {0..<nat m}" by (metis atLeast0LessThan imageI lessThan_iff)
  qed (auto simp: free_slots_def initial_table_def slot_valid_def slot_def)
  ultimately have "table_ok (initial_table cfg m) st"
    using m by (simp add: table_ok_def initial_table_def distinct_map count_by_def)
  moreover have "starting_drones_count cfg sdiv 2 - 1 \<le> 2 * starting_drones_count cfg - 1"
    using n by (simp add: signed_divide_int_def sgn_if)
  ultimately show ?thesis
    using n by (simp add: initial_swarm_def swarm_ok_defs GATE_CAPACITY_def initial_table_def lost_total_def)
qed

section \<open>The set-up creates it\<close>

text \<open>Before its children exist, no other process acts on the swarm.\<close>

fun no_others :: "event \<Rightarrow> bool" where
  "no_others (Event es r) \<longleftrightarrow> list_all (\<lambda>e. \<forall>a. e \<noteq> Others a) es"

definition alone :: "os \<Rightarrow> bool" where
  "alone w \<longleftrightarrow> list_all no_others (inputs w)"

text \<open>The semaphores by key, and the keys of the files.\<close>

abbreviation names :: "os \<Rightarrow> (int \<Rightarrow> int option) \<times> (string \<Rightarrow> int)" where
  "names w \<equiv> (sem_keys (kern w), ftok_key (kern w))"

lemma apply_steps_alone:
  "list_all (\<lambda>e. \<forall>a. e \<noteq> Others a) es \<Longrightarrow> sw (fold apply_step es w) = sw w"
proof (induction es arbitrary: w)
  case (Cons e es)
  then show ?case by (cases e) auto
qed simp

lemma alone_updates [simp]:
  "alone (w\<lparr>kern := k\<rparr>) = alone w" "alone (w\<lparr>sems := m\<rparr>) = alone w" "alone (w\<lparr>sw := s\<rparr>) = alone w"
  by (simp_all add: alone_def)

lemma sync_alone:
  assumes "alone w"
    and "\<And>r w'. alone w' \<Longrightarrow> sw w' = sw w \<Longrightarrow> sems w' = sems w \<Longrightarrow> me w' = me w \<Longrightarrow>
      names w' = names w \<Longrightarrow> Q r w'"
  shows "wp (sync w) Q"
proof (rule wp_I)
  fix r w' assume sync: "sync w = Some (r, w')"
  then have "sems w' = sems w" "me w' = me w" "names w' = names w"
    using sync_calm [OF sync] by (simp_all add: calm_def)
  moreover have "alone w' \<and> sw w' = sw w"
    using sync assms(1) by (auto simp: sync_def alone_def apply_steps_alone split: list.splits event.splits)
  ultimately show "Q r w'" using assms(2) by blast
qed

lemma plain_call_alone:
  assumes "alone w"
    and "\<And>r w'. alone w' \<Longrightarrow> sw w' = sw w \<Longrightarrow> sems w' = sems w \<Longrightarrow> me w' = me w \<Longrightarrow>
      names w' = names w \<Longrightarrow> Q r w'"
  shows "wp (plain_call w) Q"
  unfolding plain_call_def outc_bind
  by (rule sync_alone [OF assms(1)]) (simp add: assms(2) split: sysret.splits)

lemma grab_key_alone:
  assumes "alone w"
    and Q: "\<And>r w'. alone w' \<Longrightarrow> sw w' = sw w \<Longrightarrow> sems w' = sems w \<Longrightarrow> me w' = me w \<Longrightarrow>
      names w' = names w \<Longrightarrow> r = - 1 \<or> r = ftok_key (kern w) n \<Longrightarrow> Q r w'"
  shows "wp (grab_key_from_file (Some n) w) Q"
  unfolding grab_key_from_file_def option.case outc_bind prod.case outc_if
proof (rule plain_call_alone [OF assms(1)], goal_cases)
  case (1 r v)
  show ?case
  proof (cases "r = - 1")
    case False
    have "wp (plain_call v) (\<lambda>r w'. alone w' \<and> sw w' = sw w \<and> sems w' = sems w \<and> me w' = me w \<and> names w' = names w)"
      by (rule plain_call_alone [OF 1(1)]) (use 1 in simp)
    with False show ?thesis
      using Q by (auto simp: Let_def elim!: outc_mono intro!: sync_alone split: sysret.splits)
  qed (use 1 Q in simp)
qed

lemma shm_create_alone:
  assumes "alone w"
    and "\<And>r w'. alone w' \<Longrightarrow> sw w' = sw w \<Longrightarrow> sems w' = sems w \<Longrightarrow> me w' = me w \<Longrightarrow>
      names w' = names w \<Longrightarrow> Q r w'"
  shows "wp (shm_create key n w) Q"
  unfolding shm_create_def outc_bind
  by (rule sync_alone [OF assms(1)]) (simp add: assms(2) split: sysret.splits)

lemma shm_attach_alone:
  assumes "alone w"
    and "\<And>r w'. alone w' \<Longrightarrow> sw w' = sw w \<Longrightarrow> sems w' = sems w \<Longrightarrow> me w' = me w \<Longrightarrow>
      names w' = names w \<Longrightarrow> Q r w'"
  shows "wp (shm_attach i w) Q"
  unfolding shm_attach_def outc_bind
  by (rule sync_alone [OF assms(1)]) (simp add: assms(2) split: sysret.splits)

text \<open>A new semaphore has its starting value, and the others are as before.\<close>

lemma semaphore_create_alone:
  assumes at: "alone w" "sems w (- 1) = None"
    and fail: "\<And>w'. Q (- 1) w'"
    and ok: "\<And>sid w'. alone w' \<Longrightarrow> sw w' = sw w \<Longrightarrow> me w' = me w \<Longrightarrow> 0 \<le> sid \<Longrightarrow> sems w sid = None \<Longrightarrow>
      sems w' = (sems w)(sid \<mapsto> v) \<Longrightarrow> sem_keys (kern w) key = None \<Longrightarrow>
      names w' = ((sem_keys (kern w))(key \<mapsto> sid), ftok_key (kern w)) \<Longrightarrow> Q sid w'"
  shows "wp (semaphore_create key v w) Q"
proof -
  have set: "wp (semctl_setval sid v w1) (\<lambda>r w2. wp (case r of
        SysErr _ \<Rightarrow> do { (_, w) \<leftarrow> semaphore_delete sid w2; Some (- 1, w) }
      | SysOk _ \<Rightarrow> Some (sid, w2)) Q)"
    if "alone w1" "sw w1 = sw w" "me w1 = me w"
      "sid = - 1 \<and> sems w1 = sems w \<or> 0 \<le> sid \<and> sems w sid = None \<and> sems w1 = (sems w)(sid \<mapsto> 0) \<and>
         sem_keys (kern w) key = None \<and> names w1 = ((sem_keys (kern w))(key \<mapsto> sid), ftok_key (kern w))" for sid w1
    unfolding semctl_setval_def outc_bind
    by (rule sync_alone [OF that(1)])
      (use that at(2) fail ok in \<open>auto split: sysret.splits option.splits simp: wp_I\<close>)
  show ?thesis
    unfolding semaphore_create_def semget_create_def outc_bind Let_def prod.case
    by (rule sync_alone [OF at(1)]) (use set in \<open>auto split: sysret.splits\<close>)
qed

definition tokens_added :: "nat \<Rightarrow> swarm \<Rightarrow> swarm" where
  "tokens_added n s = s\<lparr>gate_tokens := gate_tokens s + n\<rparr>"

lemma write_token_alone:
  assumes "alone w" "me w = None"
    and fail: "\<And>w'. Q (- 1) w'"
    and ok: "\<And>w'. alone w' \<Longrightarrow> sw w' = tokens_added 1 (sw w) \<Longrightarrow> sems w' = sems w \<Longrightarrow> me w' = None \<Longrightarrow>
      names w' = names w \<Longrightarrow> Q 0 w'"
  shows "wp (write_token_loop w) Q"
proof (rule wr.loop_wp [where I = "\<lambda>v. alone v \<and> sw v = sw w \<and> sems v = sems w \<and> me v = None \<and> names v = names w"])
  fix v assume v: "alone v \<and> sw v = sw w \<and> sems v = sems w \<and> me v = None \<and> names v = names w"
  then have "alone v" by simp
  then show "wp (fifo_write v) (\<lambda>r w'. case r of
      SysOk n \<Rightarrow> if n = 1 then Q 0 w' else Q (- 1) w'
    | SysErr e \<Rightarrow> if e = EINTR then alone w' \<and> sw w' = sw w \<and> sems w' = sems w \<and> me w' = None \<and> names w' = names w else Q (- 1) w')"
    unfolding fifo_write_def outc_bind prod.case
    by (rule sync_alone)
      (use v ok fail in \<open>auto simp: put_token_def tokens_added_def split: sysret.splits\<close>)
qed (use assms in simp)

lemma write_tokens_alone:
  assumes "alone w" "me w = None"
    and fail: "\<And>w'. Q (- 1) w'"
    and ok: "\<And>w'. alone w' \<Longrightarrow> sw w' = tokens_added n (sw w) \<Longrightarrow> sems w' = sems w \<Longrightarrow> names w' = names w \<Longrightarrow> Q 0 w'"
  shows "wp (write_tokens n w) Q"
  using assms
proof (induction n arbitrary: w)
  case 0
  then show ?case by (simp add: tokens_added_def)
next
  case (Suc n)
  show ?case
    unfolding write_tokens.simps outc_bind prod.case
  proof (rule write_token_alone [OF Suc.prems(1,2)], goal_cases)
    case (2 v)
    have "wp (write_tokens n v) Q"
      by (rule Suc.IH [OF 2(1,4) Suc.prems(3)]) (use 2 Suc.prems(4) in \<open>simp add: tokens_added_def\<close>)
    then show ?case by simp
  qed (simp add: Suc.prems(3))
qed

lemma fifo_sem_create_alone:
  assumes at: "alone w" "me w = None" and "0 < cap"
    and fail: "\<And>f' w'. Q (- 1) (f', w')"
    and ok: "\<And>f' w'. alone w' \<Longrightarrow> sw w' = tokens_added (nat cap) (sw w) \<Longrightarrow> sems w' = sems w \<Longrightarrow>
      names w' = names w \<Longrightarrow> Q 0 (f', w')"
  shows "wp (fifo_sem_create (Some f) (Some p) cap w) Q"
proof -
  have trivial [simp]: "wp x (\<lambda>r s. True)" for x :: "(int \<times> os) option"
    by (rule wp_I) simp
  have mk: "wp (mkfifo p w) (\<lambda>r v. r \<noteq> - 1 \<longrightarrow> alone v \<and> sw v = sw w \<and> sems v = sems w \<and> me v = None \<and> names v = names w)"
    unfolding mkfifo_def outc_bind
    by (rule sync_alone [OF at(1)]) (use at(2) in \<open>auto split: sysret.splits\<close>)
  have call: "wp (plain_call v) (\<lambda>r v'. alone v' \<and> sw v' = sw w \<and> sems v' = sems w \<and> me v' = None \<and> names v' = names w)"
    if "alone v" "sw v = sw w" "sems v = sems w" "me v = None" "names v = names w" for v
    by (rule plain_call_alone [OF that(1)]) (use that in simp)
  show ?thesis
    using \<open>0 < cap\<close> fail
    unfolding fifo_sem_create_def
    by (auto simp: Let_def ok intro!: outc_mono [OF mk] outc_mono [OF call] write_tokens_alone)
qed

lemma wp_on_mn [simp]: "outc b (on_mn f w) Q \<longleftrightarrow> outc b (f (mn_sys w)) (\<lambda>r s. Q r (w\<lparr>mn_sys := s\<rparr>))"
  by (simp add: on_mn_def)

text \<open>The semaphore of the configuration exists and is found by its key.\<close>

definition config_named :: "(string \<Rightarrow> int) \<Rightarrow> launcher \<Rightarrow> bool" where
  "config_named F w \<longleftrightarrow> ftok_key (kern (mn_sys w)) = F \<and>
     (\<exists>c v. sem_keys (kern (mn_sys w)) (F ''config_key'') = Some c \<and> sems (mn_sys w) c = Some v)"

text \<open>The semaphore of the table exists, is free and is found by its key, which is not the key of the
  configuration.\<close>

definition table_named :: "(string \<Rightarrow> int) \<Rightarrow> launcher \<Rightarrow> bool" where
  "table_named F w \<longleftrightarrow> ftok_key (kern (mn_sys w)) = F \<and>
     sems (mn_sys w) (at_sem_id (mn_att w)) = Some 1 \<and>
     sem_keys (kern (mn_sys w)) (F ''dron_info_key'') = Some (at_sem_id (mn_att w)) \<and>
     (\<exists>c. sem_keys (kern (mn_sys w)) (F ''config_key'') = Some c \<and> c \<noteq> at_sem_id (mn_att w))"

lemma config_named_table:
  assumes "config_named F w" and "sems (mn_sys w) sid = None" and "sem_keys (kern (mn_sys w)) (F ''dron_info_key'') = None"
    and "sems (mn_sys w') = (sems (mn_sys w))(sid \<mapsto> 1)"
    and "sem_keys (kern (mn_sys w')) = (sem_keys (kern (mn_sys w)))(F ''dron_info_key'' \<mapsto> sid)"
    and "ftok_key (kern (mn_sys w')) = F" and "at_sem_id (mn_att w') = sid"
  shows "table_named F w'"
  using assms by (auto simp: config_named_def table_named_def)

lemma table_named_kept:
  assumes "table_named F w" and "mn_att w' = mn_att w" and "ftok_key (kern (mn_sys w')) = ftok_key (kern (mn_sys w))"
    and "sems (mn_sys w') = sems (mn_sys w) \<and> sem_keys (kern (mn_sys w')) = sem_keys (kern (mn_sys w)) \<or>
      sems (mn_sys w) sid = None \<and> sems (mn_sys w') = (sems (mn_sys w))(sid \<mapsto> v) \<and>
      sem_keys (kern (mn_sys w)) key = None \<and> sem_keys (kern (mn_sys w')) = (sem_keys (kern (mn_sys w)))(key \<mapsto> sid)"
  shows "table_named F w'"
  using assms by (auto simp: table_named_def)

text \<open>The state of the set-up: alone, with no slot, and the swarm \<open>s\<close>.\<close>

definition setting_up :: "swarm \<Rightarrow> launcher \<Rightarrow> bool" where
  "setting_up s w \<longleftrightarrow> alone (mn_sys w) \<and> me (mn_sys w) = None \<and> sems (mn_sys w) (- 1) = None \<and> sw (mn_sys w) = s"

lemma create_shm_config_alone:
  assumes at: "setting_up s w" and fail: "\<And>w'. Q (- 1) w'"
    and ok: "\<And>w'. setting_up (s\<lparr>config := cfg\<rparr>) w' \<Longrightarrow> maximum_drones_in_memory w' = maximum_drones_in_memory w \<Longrightarrow>
      config_named (ftok_key (kern (mn_sys w))) w' \<Longrightarrow> Q 0 w'"
  shows "wp (create_shm_config cfg w) Q"
proof -
  have a: "alone (mn_sys w)" "me (mn_sys w) = None" "sems (mn_sys w) (- 1) = None" "sw (mn_sys w) = s"
    using at by (simp_all add: setting_up_def)
  show ?thesis
    unfolding create_shm_config_def
    by (auto simp: Let_def fail setting_up_def config_named_def a
        intro!: grab_key_alone [OF a(1)] shm_create_alone shm_attach_alone semaphore_create_alone ok)
qed

lemma create_shm_all_drones_data_alone:
  assumes at: "setting_up s w" "config_named F w" and fail: "\<And>w'. Q (- 1) w'"
    and m: "1 \<le> maximum_drones_in_memory w" "maximum_drones_in_memory w \<le> INT_MAX"
    and ok: "\<And>w' st. initial_free_stack (maximum_drones_in_memory w) = Some st \<Longrightarrow>
      setting_up (s\<lparr>all_drones := initial_table cfg (maximum_drones_in_memory w), free_stack := st\<rparr>) w' \<Longrightarrow>
      table_named F w' \<Longrightarrow> Q 0 w'"
  shows "wp (create_shm_all_drones_data cfg w) Q"
proof -
  have a: "alone (mn_sys w)" "me (mn_sys w) = None" "sems (mn_sys w) (- 1) = None" "sw (mn_sys w) = s"
    "ftok_key (kern (mn_sys w)) = F"
    using at by (simp_all add: setting_up_def config_named_def)
  let ?m = "maximum_drones_in_memory w"
  obtain st where st: "initial_free_stack ?m = Some st"
    using initial_free_stack_ok [OF m] by blast
  then obtain r s0 where init: "Stack_init (Some (new_stack_segment (Stack_bytes_needed (word_of_int ?m) sizeof_int)))
      (word_of_int ?m) sizeof_int = (r, Some s0)" "r \<noteq> STACK_ERROR" "fill_free_stack s0 (?m - 1) = Some st"
    by (auto simp: initial_free_stack_def split: prod.splits option.splits if_splits)
  show ?thesis
    unfolding create_shm_all_drones_data_def
    by (auto simp: Let_def fail setting_up_def a init
        intro!: grab_key_alone shm_create_alone shm_attach_alone semaphore_create_alone ok [OF st]
          config_named_table [OF at(2)])
qed

lemma create_gate_semaphore_alone:
  assumes at: "setting_up s w" and fail: "\<And>w'. Q (- 1) w'"
    and sem: "table_named F w"
    and ok: "\<And>w'. setting_up s w' \<Longrightarrow> table_named F w' \<Longrightarrow> Q 0 w'"
  shows "wp (create_gate_semaphore w) Q"
proof -
  have a: "alone (mn_sys w)" "me (mn_sys w) = None" "sems (mn_sys w) (- 1) = None" "sw (mn_sys w) = s"
    using at by (simp_all add: setting_up_def)
  show ?thesis
    unfolding create_gate_semaphore_def
    by (auto simp: Let_def fail setting_up_def a intro!: grab_key_alone semaphore_create_alone ok
        table_named_kept [OF sem])
qed

lemma create_gate_fifo_sem_alone:
  assumes at: "setting_up s w" and fail: "\<And>w'. Q (- 1) w'"
    and sem: "table_named F w"
    and ok: "\<And>w'. sw (mn_sys w') = tokens_added 2 s \<Longrightarrow> table_named F w' \<Longrightarrow> Q 0 w'"
  shows "wp (create_gate_fifo_sem w) Q"
proof -
  have a: "alone (mn_sys w)" "me (mn_sys w) = None" "sw (mn_sys w) = s"
    using at by (simp_all add: setting_up_def)
  show ?thesis
    unfolding create_gate_fifo_sem_def outc_bind
    by (rule fifo_sem_create_alone [OF a(1,2)]) (auto simp: Let_def fail a intro!: ok table_named_kept [OF sem])
qed

text \<open>When the set-up succeeds, the swarm is the initial one and satisfies the invariant.\<close>

lemma main_setup_wp:
  assumes at: "setting_up s w" "gate_tokens s = 0" "reservers s = []" "passing s = []"
    and cfg: "config_ok cfg (maximum_drones_in_memory w)"
  shows "wp (main_setup cfg w) (\<lambda>res w'. \<forall>r. res = Returned r \<longrightarrow>
    (\<exists>st. initial_free_stack (maximum_drones_in_memory w) = Some st \<and>
       sw (mn_sys w') = initial_swarm cfg (maximum_drones_in_memory w) st) \<and>
    swarm_ok (sw (mn_sys w')) \<and> table_named (ftok_key (kern (mn_sys w))) w')"
    (is "wp _ ?Q")
proof -
  have m: "1 \<le> maximum_drones_in_memory w" "maximum_drones_in_memory w \<le> INT_MAX"
    using cfg by (simp_all add: config_ok_def args_max_defs INT_MAX_def)
  have fails: "wp (main_close_main c v) ?Q" for c v
    by (rule wp_I) (auto simp: main_close_main_def split: bind_splits)
  have step: "wp (mn_or_fail x g) ?Q" if "wp x (\<lambda>r v. (r = 0 \<longrightarrow> wp (g v) ?Q))" for x g
    unfolding mn_or_fail_def outc_bind
    by (rule outc_mono [OF that]) (use fails in auto)
  show ?thesis
    unfolding main_setup_def
  proof (intro step create_shm_config_alone [OF at(1)] impI, simp, goal_cases)
    case (1 w1)
    then have m1: "maximum_drones_in_memory w1 = maximum_drones_in_memory w" by simp
    show ?case
    proof (intro step create_shm_all_drones_data_alone [OF 1(1,3)] impI, simp, use m m1 in simp,
        use m m1 in simp, goal_cases)
      case (1 w2 st)
      then have st: "initial_free_stack (maximum_drones_in_memory w) = Some st" by (simp add: m1)
      show ?case
      proof (intro step create_gate_semaphore_alone [OF 1(2) _ 1(3)] impI, simp, goal_cases)
        case (1 w3)
        show ?case
        proof (intro step create_gate_fifo_sem_alone [OF 1(1) _ 1(2)] impI, simp, goal_cases)
          case (1 w4)
          then have "sw (mn_sys w4) = initial_swarm cfg (maximum_drones_in_memory w) st"
            using at by (auto simp: setting_up_def initial_swarm_def tokens_added_def m1)
          with 1 st initial_swarm_ok [OF cfg st] show ?case by simp
        qed
      qed
    qed
  qed
qed

section \<open>What the end removes\<close>

lemma remove_segment_now:
  assumes "inputs w = Event [] (SysOk a) # Event [] (SysOk b) # evs" and "0 \<le> i"
  shows "\<exists>w'. remove_segment (Some p) i w = Some (True, w') \<and> inputs w' = evs \<and> sems w' = sems w \<and>
    shm_segs (kern w') = (shm_segs (kern w))(i := None) \<and> fifos (kern w') = fifos (kern w)"
  using assms
  by (cases "shm_segs (kern w) i")
    (auto simp: remove_segment_def shm_detach_def shm_destroy_def sync_def fun_eq_iff)

lemma remove_semaphore_now:
  assumes "inputs w = Event [] (SysOk a) # evs" and "0 \<le> i"
  shows "\<exists>w'. remove_semaphore i w = Some ((), w') \<and> inputs w' = evs \<and> sems w' = (sems w)(i := None) \<and>
    shm_segs (kern w') = shm_segs (kern w) \<and> fifos (kern w') = fifos (kern w)"
  using assms
  by (cases "sems w i") (auto simp: remove_semaphore_def semaphore_delete_def semctl_rmid_def sync_def fun_eq_iff)

lemma fifo_sem_destroy_now:
  assumes "inputs w = Event [] (SysOk 0) # Event [] (SysOk b) # evs" and "0 < fs_file_descriptor f" and "fs_path f \<noteq> []"
  shows "\<exists>r f' w'. fifo_sem_destroy (Some f) w = Some (r, f', w') \<and> sems w' = sems w \<and>
    shm_segs (kern w') = shm_segs (kern w) \<and> fs_path f \<notin> set (fifos (kern w'))"
  using assms
  by (auto simp: fifo_sem_destroy_def fifo_sem_close_def close_loop.simps [of w] sync_def unlink_def)

text \<open>When all calls succeed, no segment, no semaphore and no FIFO is left.\<close>

lemma remove_resources_now:
  assumes "inputs (mn_sys w) = replicate 11 (Event [] (SysOk 0)) @ evs"
    and "shm_configuration w = Some p1" "0 \<le> shm_configuration_id w"
    and "at_shm (mn_att w) = Some p2" "0 \<le> at_shm_id (mn_att w)"
    and "at_stack (mn_att w) = Some p3" "0 \<le> at_stack_id (mn_att w)"
    and "0 \<le> shm_configuration_semaphore_id w" "0 \<le> at_sem_id (mn_att w)" "0 \<le> mn_gate_semaphore_id w"
    and "0 < fs_file_descriptor (mn_fifo_sem w)" "fs_path (mn_fifo_sem w) \<noteq> []"
  shows "\<exists>w'. remove_resources w = Some ((), w') \<and>
    shm_segs (kern (mn_sys w')) (shm_configuration_id w) = None \<and>
    shm_segs (kern (mn_sys w')) (at_shm_id (mn_att w)) = None \<and>
    shm_segs (kern (mn_sys w')) (at_stack_id (mn_att w)) = None \<and>
    sems (mn_sys w') (shm_configuration_semaphore_id w) = None \<and>
    sems (mn_sys w') (at_sem_id (mn_att w)) = None \<and>
    sems (mn_sys w') (mn_gate_semaphore_id w) = None \<and>
    fs_path (mn_fifo_sem w) \<notin> set (fifos (kern (mn_sys w')))"
proof -
  let ?e = "Event [] (SysOk 0)"
  obtain s1 where s1: "remove_segment (Some p1) (shm_configuration_id w) (mn_sys w) = Some (True, s1)"
      "inputs s1 = replicate 9 ?e @ evs" "sems s1 = sems (mn_sys w)"
      "shm_segs (kern s1) = (shm_segs (kern (mn_sys w)))(shm_configuration_id w := None)"
    using remove_segment_now [of "mn_sys w" 0 0 "replicate 9 ?e @ evs"] assms(1,3)
    by (force simp: eval_nat_numeral)
  obtain s2 where s2: "remove_segment (Some p2) (at_shm_id (mn_att w)) s1 = Some (True, s2)"
      "inputs s2 = replicate 7 ?e @ evs" "sems s2 = sems s1"
      "shm_segs (kern s2) = (shm_segs (kern s1))(at_shm_id (mn_att w) := None)"
    using remove_segment_now [of s1 0 0 "replicate 7 ?e @ evs"] s1(2) assms(5)
    by (force simp: eval_nat_numeral)
  obtain s3 where s3: "remove_segment (Some p3) (at_stack_id (mn_att w)) s2 = Some (True, s3)"
      "inputs s3 = replicate 5 ?e @ evs" "sems s3 = sems s2"
      "shm_segs (kern s3) = (shm_segs (kern s2))(at_stack_id (mn_att w) := None)"
    using remove_segment_now [of s2 0 0 "replicate 5 ?e @ evs"] s2(2) assms(7)
    by (force simp: eval_nat_numeral)
  obtain s4 where s4: "remove_semaphore (shm_configuration_semaphore_id w) s3 = Some ((), s4)"
      "inputs s4 = replicate 4 ?e @ evs" "sems s4 = (sems s3)(shm_configuration_semaphore_id w := None)"
      "shm_segs (kern s4) = shm_segs (kern s3)"
    using remove_semaphore_now [of s3 0 "replicate 4 ?e @ evs"] s3(2) assms(8)
    by (force simp: eval_nat_numeral)
  obtain s5 where s5: "remove_semaphore (at_sem_id (mn_att w)) s4 = Some ((), s5)"
      "inputs s5 = replicate 3 ?e @ evs" "sems s5 = (sems s4)(at_sem_id (mn_att w) := None)"
      "shm_segs (kern s5) = shm_segs (kern s4)"
    using remove_semaphore_now [of s4 0 "replicate 3 ?e @ evs"] s4(2) assms(9)
    by (force simp: eval_nat_numeral)
  obtain s6 where s6: "remove_semaphore (mn_gate_semaphore_id w) s5 = Some ((), s6)"
      "inputs s6 = ?e # ?e # evs" "sems s6 = (sems s5)(mn_gate_semaphore_id w := None)"
      "shm_segs (kern s6) = shm_segs (kern s5)"
    using remove_semaphore_now [of s5 0 "?e # ?e # evs"] s5(2) assms(10)
    by (force simp: eval_nat_numeral)
  obtain r f' s7 where s7: "fifo_sem_destroy (Some (mn_fifo_sem w)) s6 = Some (r, f', s7)" "sems s7 = sems s6"
      "shm_segs (kern s7) = shm_segs (kern s6)" "fs_path (mn_fifo_sem w) \<notin> set (fifos (kern s7))"
    using fifo_sem_destroy_now [OF s6(2) assms(11,12)] by blast
  show ?thesis
    using assms(2,4,6,11) s1 s2 s3 s4 s5 s6 s7
    by (simp add: remove_resources_def on_mn_def Let_def)
qed

text \<open>A segment that was created but could not be attached stays behind.\<close>

lemma attach_failure_leaks:
  assumes w: "shm_configuration w = None" "mn_att w = no_attachments" "mn_gate_semaphore_id w = - 1"
      "shm_configuration_semaphore_id w = - 1" "mn_operator_pid w = - 1" "system_commander_pid w = - 1"
      "fs_file_descriptor (mn_fifo_sem w) = - 1"
    and key: "0 \<le> ftok_key (kern (mn_sys w)) ''config_key''"
    and new: "shm_keys (kern (mn_sys w)) (ftok_key (kern (mn_sys w)) ''config_key'') = None"
      "shm_segs (kern (mn_sys w)) i = None" "0 \<le> i"
    and events: "inputs (mn_sys w) = [Event [] (SysOk 3), Event [] (SysOk 0), Event [] (SysOk 0),
      Event [] (SysOk i), Event [] (SysErr EINVAL)]"
  shows "\<exists>w'. main_setup cfg w = Some (Exited (- 1), w') \<and>
    shm_segs (kern (mn_sys w')) i = Some sizeof_SHM_Configuration"
  using assms
  by (auto simp: main_setup_def mn_or_fail_def create_shm_config_def on_mn_def grab_key_from_file_def
      plain_call_def sync_def shm_create_def shm_attach_def main_close_main_def join_children_def
      remove_resources_def remove_segment_def remove_semaphore_def no_attachments_def process_exit_def Let_def)

end
