(* ===== verification/Printer.thy ===== *)
theory Printer
  imports Fifo Parsing
begin

text \<open>
  The output of \<^verbatim>\<open>src/src/utils/printer.c\<close>: a line is put together in a buffer of fixed size by
  three calls of \<open>snprintf\<close>, written to the terminal and, under a lock on the file, to the log.
  The text that \<open>vsnprintf\<close> produces from a format and its arguments is a parameter (\<open>body\<close>).

  The lemmas say exactly when the buffer is enough: a line that fits is written as it is, a line
  whose text ends at the border is cut, and a longer one makes the program write outside the
  buffer.
\<close>

section \<open>snprintf\<close>

definition BUFFER_SIZE :: int where
  "BUFFER_SIZE = 1024"

text \<open>\<open>snprintf (buf + pos, size, ...)\<close> for the text \<open>s\<close>: at most \<open>size - 1\<close> characters and a null
  character are written, nothing if \<open>size\<close> is 0.  The length of \<open>s\<close> is returned.  \<open>None\<close> is a write
  outside the buffer.\<close>

definition write_text :: "string \<Rightarrow> nat \<Rightarrow> string \<Rightarrow> string option" where
  "write_text buf pos s =
     (if pos + length s \<le> length buf
      then Some (take pos buf @ s @ drop (pos + length s) buf) else None)"

definition snprintf :: "string \<Rightarrow> int \<Rightarrow> size_t \<Rightarrow> string \<Rightarrow> (int \<times> string) option" where
  "snprintf buf pos sz s =
     (if sz = 0 then Some (int (length s), buf)
      else map_option (\<lambda>b. (int (length s), b))
             (write_text buf (nat pos) (take (unat sz - 1) s @ [CHR 0x00])))"

section \<open>A line\<close>

text \<open>The three calls, the sum of their results, and the final correction of the position.  The
  size that is passed is \<open>BUFFER_SIZE - pos\<close>, converted to \<open>size_t\<close>.\<close>

definition format_line :: "string \<Rightarrow> string \<Rightarrow> string \<Rightarrow> string \<Rightarrow> (int \<times> string) option" where
  "format_line buf head body tail = do {
     (n, buf) \<leftarrow> snprintf buf 0 (word_of_int BUFFER_SIZE) head;
     let pos = n;
     (n, buf) \<leftarrow> snprintf buf pos (word_of_int (BUFFER_SIZE - pos)) body;
     let pos = pos + n;
     (n, buf) \<leftarrow> snprintf buf pos (word_of_int (BUFFER_SIZE - pos)) tail;
     let pos = pos + n;
     Some (if pos < 0 then 0 else if pos \<ge> BUFFER_SIZE then BUFFER_SIZE - 1 else pos, buf)
   }"

definition COLOR_RESET :: string where
  "COLOR_RESET = [CHR 0x1B] @ ''[0m''"

definition line_head :: "string \<Rightarrow> string \<Rightarrow> int \<Rightarrow> string" where
  "line_head time name pid = ''['' @ time @ ''] ['' @ name @ '' (PID='' @ show_int pid @ '')] ''"

text \<open>The loops around \<open>fcntl\<close> that lock and unlock the log file.\<close>

function fcntl_loop :: "os \<Rightarrow> (int \<times> os) option" where
  "fcntl_loop w =
     (case sync w of
        None \<Rightarrow> None
      | Some (SysOk n, w') \<Rightarrow> if n \<noteq> - 1 then Some (0, w') else Some (- 1, w')
      | Some (SysErr e, w') \<Rightarrow> if e = EINTR then fcntl_loop w' else Some (- 1, w'))"
  by pat_completeness auto
termination
  by (relation "measure (\<lambda>w. length (inputs w))") (auto dest: sync_inputs)

declare fcntl_loop.simps [simp del]

definition lock_log_file_for_writing :: "os \<Rightarrow> (int \<times> os) option" where
  "lock_log_file_for_writing w = fcntl_loop w"

definition unlock_log_file :: "os \<Rightarrow> (int \<times> os) option" where
  "unlock_log_file w = fcntl_loop w"

text \<open>The static variables of the file, and the functions that set them.\<close>

record printer =
  PROCESS_NAME :: string
  PROCESS_COLOR :: string
  PROCESS_PID :: int
  log_file_descriptor :: int

definition printer_initial :: printer where
  "printer_initial = \<lparr>PROCESS_NAME = ''Unknown'', PROCESS_COLOR = COLOR_RESET, PROCESS_PID = - 1,
     log_file_descriptor = - 1\<rparr>"

definition open_log :: "printer \<Rightarrow> os \<Rightarrow> ((int \<times> printer) \<times> os) option" where
  "open_log p w = do {
     (fd, w) \<leftarrow> plain_call w;
     Some ((if fd < 0 then - 1 else 0, p\<lparr>log_file_descriptor := fd\<rparr>), w)
   }"

definition global_logger_initialize :: "string option \<Rightarrow> printer \<Rightarrow> os \<Rightarrow> ((int \<times> printer) \<times> os) option" where
  "global_logger_initialize log_file_path p w =
     (case log_file_path of None \<Rightarrow> Some ((- 1, p), w) | Some _ \<Rightarrow> open_log p w)"

definition logger_initialize :: "string option \<Rightarrow> printer \<Rightarrow> os \<Rightarrow> ((int \<times> printer) \<times> os) option" where
  "logger_initialize log_file_path p w =
     (case log_file_path of None \<Rightarrow> Some ((0, p), w) | Some _ \<Rightarrow> open_log p w)"

definition logger_shutdown :: "printer \<Rightarrow> os \<Rightarrow> (printer \<times> os) option" where
  "logger_shutdown p w =
     (if log_file_descriptor p \<ge> 0 then do {
        (_, w) \<leftarrow> plain_call w;
        Some (p\<lparr>log_file_descriptor := - 1\<rparr>, w)
      } else Some (p, w))"

definition setup_print :: "string \<Rightarrow> string \<Rightarrow> int \<Rightarrow> printer \<Rightarrow> printer" where
  "setup_print name color pid p =
     p\<lparr>PROCESS_NAME := name, PROCESS_COLOR := color, PROCESS_PID := pid\<rparr>"

text \<open>The buffers of a call are not initialised: \<open>buf\<close> and \<open>buf'\<close> are their contents.  The result
  is the list of the calls of \<open>write\<close>, each with its descriptor and its text.\<close>

definition print_internal ::
  "(string \<Rightarrow> string) \<Rightarrow> string \<Rightarrow> string \<Rightarrow> string \<Rightarrow> printer \<Rightarrow> int \<Rightarrow> string \<Rightarrow> string \<Rightarrow> os \<Rightarrow>
     ((int \<times> string) list \<times> os) option" where
  "print_internal render time buf buf' p output color fmt w = do {
     (console_pos, console_buffer) \<leftarrow>
       format_line buf (color @ line_head time (PROCESS_NAME p) (PROCESS_PID p)) (render fmt)
         (COLOR_RESET @ [CHR 0x0A]);
     (_, w) \<leftarrow> plain_call w;
     let out = (output, take (nat console_pos) console_buffer);
     if log_file_descriptor p \<ge> 0 then do {
       (file_pos, file_buffer) \<leftarrow>
         format_line buf' (line_head time (PROCESS_NAME p) (PROCESS_PID p)) (render fmt) [CHR 0x0A];
       (r, w) \<leftarrow> lock_log_file_for_writing w;
       if r = 0 then do {
         (_, w) \<leftarrow> plain_call w;
         (_, w) \<leftarrow> unlock_log_file w;
         Some ([out, (log_file_descriptor p, take (nat file_pos) file_buffer)], w)
       } else Some ([out], w)
     } else Some ([out], w)
   }"

abbreviation (input) STDOUT_FILENO :: int where
  "STDOUT_FILENO \<equiv> 1"

abbreviation (input) STDERR_FILENO :: int where
  "STDERR_FILENO \<equiv> 2"

definition COLOR_RED :: string where
  "COLOR_RED = [CHR 0x1B] @ ''[31m''"

definition print_msg ::
  "(string \<Rightarrow> string) \<Rightarrow> string \<Rightarrow> string \<Rightarrow> string \<Rightarrow> printer \<Rightarrow> string \<Rightarrow> os \<Rightarrow> ((int \<times> string) list \<times> os) option" where
  "print_msg render time buf buf' p fmt w =
     print_internal render time buf buf' p STDOUT_FILENO (PROCESS_COLOR p) fmt w"

definition print_msg_color ::
  "(string \<Rightarrow> string) \<Rightarrow> string \<Rightarrow> string \<Rightarrow> string \<Rightarrow> printer \<Rightarrow> string \<Rightarrow> string \<Rightarrow> os \<Rightarrow>
     ((int \<times> string) list \<times> os) option" where
  "print_msg_color render time buf buf' p color fmt w =
     print_internal render time buf buf' p STDOUT_FILENO color fmt w"

text \<open>The format of an error is itself built in a buffer, and its place and the text of \<open>errno\<close>
  become part of the format that is rendered.\<close>

definition print_error_impl ::
  "(string \<Rightarrow> string) \<Rightarrow> string \<Rightarrow> string \<Rightarrow> string \<Rightarrow> string \<Rightarrow> printer \<Rightarrow> string \<Rightarrow> int \<Rightarrow> string \<Rightarrow> string \<Rightarrow> string \<Rightarrow>
     os \<Rightarrow> ((int \<times> string) list \<times> os) option" where
  "print_error_impl render time buf buf' buf'' p file line func fmt strerror w = do {
     (_, new_fmt) \<leftarrow> snprintf buf'' 0 (word_of_int BUFFER_SIZE)
       (file @ '':'' @ show_int line @ '' '' @ func @ ''() | '' @ fmt @ '': '' @ strerror);
     print_internal render time buf buf' p STDERR_FILENO COLOR_RED
       (takeWhile (\<lambda>c. c \<noteq> CHR 0x00) new_fmt) w
   }"

section \<open>When the buffer is enough\<close>

lemma size_word: "0 \<le> n \<Longrightarrow> n \<le> BUFFER_SIZE \<Longrightarrow> unat (word_of_int n :: size_t) = nat n"
  by (simp add: BUFFER_SIZE_def unat_eq_nat_uint uint_word_of_int take_bit_int_eq_self)

lemma size_word_0: "0 \<le> n \<Longrightarrow> n \<le> BUFFER_SIZE \<Longrightarrow> (word_of_int n :: size_t) = 0 \<longleftrightarrow> n = 0"
proof (intro iffI)
  assume n: "0 \<le> n" "n \<le> BUFFER_SIZE" and "(word_of_int n :: size_t) = 0"
  then have "unat (word_of_int n :: size_t) = 0" by simp
  with size_word [OF n] n show "n = 0" by simp
qed simp

text \<open>A part that fits, with room for the null character.\<close>

lemma snprintf_fits:
  assumes "length buf = 1024" and "pos + length s < 1024"
  shows "\<exists>buf'. snprintf buf (int pos) (word_of_int (BUFFER_SIZE - int pos)) s = Some (int (length s), buf') \<and>
    length buf' = 1024 \<and> take (pos + length s) buf' = take pos buf @ s"
proof -
  have size: "unat (word_of_int (BUFFER_SIZE - int pos) :: size_t) = 1024 - pos"
    using assms(2) size_word [of "BUFFER_SIZE - int pos"] by (simp add: BUFFER_SIZE_def)
  moreover have "(word_of_int (BUFFER_SIZE - int pos) :: size_t) \<noteq> 0"
    using size_word_0 [of "BUFFER_SIZE - int pos"] assms(2) by (simp add: BUFFER_SIZE_def)
  moreover have "take (1024 - pos - 1) s = s" using assms(2) by simp
  ultimately show ?thesis
    using assms by (simp add: snprintf_def write_text_def)
qed

text \<open>A part that does not fit is cut at the end of the buffer.\<close>

lemma snprintf_cut:
  assumes "length buf = 1024" and "pos \<le> 1024" and "1024 \<le> pos + length s"
  shows "\<exists>buf'. snprintf buf (int pos) (word_of_int (BUFFER_SIZE - int pos)) s = Some (int (length s), buf') \<and>
    length buf' = 1024 \<and> take 1023 buf' = take 1023 (take pos buf @ s)"
proof (cases "pos = 1024")
  case True
  with assms show ?thesis by (simp add: snprintf_def BUFFER_SIZE_def)
next
  case False
  with assms(2) have size: "unat (word_of_int (BUFFER_SIZE - int pos) :: size_t) = 1024 - pos"
    using size_word [of "BUFFER_SIZE - int pos"] by (simp add: BUFFER_SIZE_def)
  moreover have "(word_of_int (BUFFER_SIZE - int pos) :: size_t) \<noteq> 0"
    using size_word_0 [of "BUFFER_SIZE - int pos"] assms(2) False by (simp add: BUFFER_SIZE_def)
  ultimately show ?thesis
    using assms False by (simp add: snprintf_def write_text_def)
qed

text \<open>Behind the end of the buffer the size is huge, and every write is outside.\<close>

lemma snprintf_outside:
  assumes "length buf = 1024" and "1024 < pos" and "pos \<le> nat INT_MAX"
  shows "snprintf buf (int pos) (word_of_int (BUFFER_SIZE - int pos)) s = None"
proof -
  define x where "x = BUFFER_SIZE - int pos"
  have x: "x < 0" "- 2147483648 \<le> x"
    using assms by (simp_all add: x_def BUFFER_SIZE_def INT_MAX_def)
  have "(word_of_int x :: size_t) \<noteq> 0"
  proof
    assume "(word_of_int x :: size_t) = 0"
    then have "uint (word_of_int x :: size_t) = 0" by simp
    then have "x mod 2 ^ 64 = 0" by (simp add: uint_word_of_int)
    then have "2 ^ 64 dvd x" by (simp add: dvd_eq_mod_eq_0)
    with x dvd_imp_le_int [of x "2 ^ 64"] show False by simp
  qed
  with assms show ?thesis by (simp add: snprintf_def write_text_def x_def [symmetric])
qed

text \<open>The whole line.\<close>

lemma format_line_fits:
  assumes "length buf = 1024" and "length head + length body + length tail < 1024"
  shows "\<exists>buf'. format_line buf head body tail =
      Some (int (length head + length body + length tail), buf') \<and>
    take (length head + length body + length tail) buf' = head @ body @ tail"
proof -
  obtain b1 where b1: "snprintf buf (int 0) (word_of_int (BUFFER_SIZE - int 0)) head = Some (int (length head), b1)"
      "length b1 = 1024" "take (0 + length head) b1 = take 0 buf @ head"
    using snprintf_fits [of buf 0 head] assms by auto
  obtain b2 where b2: "snprintf b1 (int (length head)) (word_of_int (BUFFER_SIZE - int (length head))) body =
      Some (int (length body), b2)" "length b2 = 1024"
      "take (length head + length body) b2 = take (length head) b1 @ body"
    using snprintf_fits [of b1 "length head" body] b1 assms by auto
  obtain b3 where b3: "snprintf b2 (int (length head + length body))
      (word_of_int (BUFFER_SIZE - int (length head + length body))) tail = Some (int (length tail), b3)"
      "take (length head + length body + length tail) b3 = take (length head + length body) b2 @ tail"
    using snprintf_fits [of b2 "length head + length body" tail] b2 assms by auto
  have "format_line buf head body tail = Some (int (length head + length body + length tail), b3)"
    using b1(1) b2(1) b3(1) assms(2)
    by (simp add: format_line_def Let_def) (simp add: BUFFER_SIZE_def)
  with b1 b2 b3 show ?thesis by simp
qed

lemma snprintf_within:
  assumes "length buf = 1024" and "pos \<le> 1024"
  shows "\<exists>buf'. snprintf buf (int pos) (word_of_int (BUFFER_SIZE - int pos)) s = Some (int (length s), buf') \<and>
    length buf' = 1024"
  using snprintf_fits [OF assms(1), of pos s] snprintf_cut [OF assms, of s] by (cases "pos + length s < 1024") auto

text \<open>The line is safe exactly when the position after the second part is within the buffer.\<close>

lemma format_line_safe_iff:
  assumes "length buf = 1024" and "length head \<le> 1024" and "int (length head + length body) \<le> INT_MAX"
  shows "format_line buf head body tail \<noteq> None \<longleftrightarrow> length head + length body \<le> 1024"
proof -
  obtain b1 where b1: "snprintf buf 0 (word_of_int BUFFER_SIZE) head = Some (int (length head), b1)" "length b1 = 1024"
    using snprintf_within [OF assms(1), of 0 head] by auto
  obtain b2 where b2: "snprintf b1 (int (length head)) (word_of_int (BUFFER_SIZE - int (length head))) body =
      Some (int (length body), b2)" "length b2 = 1024"
    using snprintf_within [OF b1(2) assms(2)] by auto
  have "snprintf b2 (int (length head + length body)) (word_of_int (BUFFER_SIZE - int (length head + length body))) tail
      \<noteq> None \<longleftrightarrow> length head + length body \<le> 1024"
    using snprintf_within [OF b2(2), of "length head + length body" tail]
      snprintf_outside [OF b2(2), of "length head + length body" tail] assms(3)
    by (cases "length head + length body \<le> 1024") (auto simp: nat_le_iff le_nat_iff INT_MAX_def)
  with b1 b2 show ?thesis
    by (auto simp: format_line_def Let_def split: bind_splits)
qed

interpretation fcntl: os_call sync "\<lambda>n. n \<noteq> - 1" fcntl_loop "\<lambda>_. True" "\<lambda>_. True" "\<lambda>w. w"
proof (unfold_locales, goal_cases)
  case (3 f w Q)
  have "calms f 1 w w' \<Longrightarrow> (f \<noteq> None \<Longrightarrow> r \<noteq> SysErr EINTR) \<Longrightarrow> Q r w'" for r w'
    using 3(4) 3(5,6) [of w'] by (cases r; cases "r = SysOk (- 1)") auto
  then show ?case by (rule sync_wp [OF 3(1,2)])
qed (auto dest: sync_inputs intro: fcntl_loop.simps)

lemma fcntl_next_wp:
  assumes "calms f n w w1" and "has (n + 1) f"
    and "\<And>r w'. calms f (n + 1) w w' \<Longrightarrow> r = 0 \<or> r = - 1 \<Longrightarrow> Q r w'"
  shows "outc (f = None) (fcntl_loop w1) Q"
proof -
  have later: "calms f (n + 1) w w'" if "calms (spend n f) 1 w1 w'" for w'
    by (rule calms_trans [OF assms(1) that])
  have "outc (spend n f = None) (fcntl_loop w1) Q"
    by (rule fcntl.retried_wp) (use assms later in \<open>simp_all add: calms_def\<close>)
  then show ?thesis by simp
qed

lemma format_line_defined:
  assumes "length buf = 1024" and "length head + length body \<le> 1024"
  shows "\<exists>r. format_line buf head body tail = Some r"
  using format_line_safe_iff [of buf head body tail] assms by (auto simp: INT_MAX_def)

lemma logged_write_wp:
  assumes "calms f 1 w w1" and "has 4 f"
  shows "outc (f = None) (do {
       (r, w) \<leftarrow> fcntl_loop w1;
       if r = 0 then do { (_, w) \<leftarrow> plain_call w; (_, w) \<leftarrow> fcntl_loop w; Some (B, w) } else Some (A, w)
     }) (\<lambda>out w'. calms f 4 w w' \<and> out \<in> {A, B})"
proof -
  have calls: "has (1 + 1) f" "has (1 + 1 + 1) f" "has (1 + 1 + 1 + 1) f"
    by (rule has_mono [OF assms(2)], simp)+
  have 4: "(1 + 1 + 1 + 1 :: nat) = 4" by simp
  have early: "calms f (1 + 1) w w' \<Longrightarrow> calms f 4 w w'" for w'
    by (erule calms_mono) (simp del: One_nat_def)
  have logged: "outc (f = None) (do { (_, w) \<leftarrow> plain_call w2; (_, w) \<leftarrow> fcntl_loop w; Some (B, w) })
      (\<lambda>out w'. calms f 4 w w' \<and> out \<in> {A, B})" if 2: "calms f (1 + 1) w w2" for w2
    unfolding outc_bind prod.case
    by (rule plain_call_next_wp [OF 2 calls(2)], rule fcntl_next_wp [OF _ calls(3)], assumption) (simp add: 4 del: One_nat_def)
  show ?thesis
    unfolding outc_bind prod.case outc_if
    by (rule fcntl_next_wp [OF assms(1) calls(1)]) (use logged early in simp)
qed

text \<open>A call of the logger writes exactly the rendered line, to the terminal with its colours and
  to the log without them, when the line fits; the log is written only under the lock.\<close>

lemma print_internal_exact:
  assumes "funded f w" and "has 4 f" and "length buf = 1024" and "length buf' = 1024"
    and "length (color @ line_head time (PROCESS_NAME p) (PROCESS_PID p)) + length (render fmt) + 5 < 1024"
  shows "outc (f = None) (print_internal render time buf buf' p output color fmt w)
    (\<lambda>out w'. calms f 4 w w' \<and>
       out \<in> {[(output, color @ line_head time (PROCESS_NAME p) (PROCESS_PID p) @ render fmt @ COLOR_RESET @ [CHR 0x0A])],
              [(output, color @ line_head time (PROCESS_NAME p) (PROCESS_PID p) @ render fmt @ COLOR_RESET @ [CHR 0x0A]),
               (log_file_descriptor p, line_head time (PROCESS_NAME p) (PROCESS_PID p) @ render fmt @ [CHR 0x0A])]})"
proof -
  let ?h = "line_head time (PROCESS_NAME p) (PROCESS_PID p)"
  obtain b1 where b1: "format_line buf (color @ ?h) (render fmt) (COLOR_RESET @ [CHR 0x0A]) =
        Some (int (length (color @ ?h) + length (render fmt) + length (COLOR_RESET @ [CHR 0x0A])), b1)"
      "take (length (color @ ?h) + length (render fmt) + length (COLOR_RESET @ [CHR 0x0A])) b1 =
        (color @ ?h) @ render fmt @ COLOR_RESET @ [CHR 0x0A]"
    using format_line_fits [of buf "color @ ?h" "render fmt" "COLOR_RESET @ [CHR 0x0A]"] assms
    by (auto simp: COLOR_RESET_def)
  obtain b2 where b2: "format_line buf' ?h (render fmt) [CHR 0x0A] =
        Some (int (length ?h + length (render fmt) + length [CHR 0x0A]), b2)"
      "take (length ?h + length (render fmt) + length [CHR 0x0A]) b2 = ?h @ render fmt @ [CHR 0x0A]"
    using format_line_fits [of buf' ?h "render fmt" "[CHR 0x0A]"] assms by auto
  have one: "has 1 f" by (rule has_mono [OF assms(2)]) simp
  have early: "calms f 1 w w' \<Longrightarrow> calms f 4 w w'" for w'
    by (erule calms_mono) (simp del: One_nat_def)
  show ?thesis
    unfolding print_internal_def b1(1) b2(1) lock_log_file_for_writing_def unlock_log_file_def
      bind.bind_lunit prod.case Let_def outc_bind [of _ "plain_call w"] outc_if nat_int b1(2) b2(2) append_assoc
  proof (rule plain_call_wp [OF assms(1) one], goal_cases)
    case (1 r w1)
    then show ?case
      by (cases "log_file_descriptor p \<ge> 0")
        (simp_all only: if_True if_False logged_write_wp [OF _ assms(2)], simp add: early del: One_nat_def)
  qed
qed

end
