(* ===== verification/Samples.thy ===== *)
theory Samples
  imports Dron_Effects Progress Startup Launcher Printer
begin

text \<open>
  Concrete states in which the theorems of the development are applied: a swarm of four slots with
  one drone on a mission and one in the base, and the processes of the program attached to it.
\<close>

definition sample_config :: SHM_Configuration where
  "sample_config =
     \<lparr>starting_drones_count = 2, resupply_interval = 1000, cfg_maximum_charge_time = 4000,
      max_loading_cycles = 3, cfg_gate_time_to_pass = 20, dron_work_interval = 50\<rparr>"

definition sample_slot :: "int \<Rightarrow> DronData_Location \<Rightarrow> DronData" where
  "sample_slot p l = \<lparr>dd_id = 0, dd_pid = p, dd_location = l\<rparr>"

definition sample_table :: SHM_AllDronesData where
  "sample_table =
     \<lparr>next_dron_id = 3, dron_count = 2, dron_in_base_count = 1, maximum_dron_in_base_count = 3,
      dron_reserving_space_count = 0, capacity = 4, drone_lost_suicide = 0,
      drone_lost_decommissioned = 0, drone_lost_out_of_power = 0, drone_lost_other = 0,
      drones = [sample_slot 501 LOCATION_MISSION, sample_slot 502 LOCATION_BASE,
                sample_slot 0 LOCATION_UNDEFINE, sample_slot 0 LOCATION_UNDEFINE]\<rparr>"

definition sample_stack :: Stack where
  "sample_stack =
     \<lparr>st_capacity = 4, st_size = 2, st_elem_size = 4,
      st_data = [3, 0, 0, 0, 2, 0, 0, 0, 1, 0, 0, 0, 0, 0, 0, 0]\<rparr>"

definition sample_swarm :: swarm where
  "sample_swarm =
     \<lparr>all_drones = sample_table, free_stack = sample_stack, config = sample_config,
      gate_tokens = 2, reservers = [], passing = []\<rparr>"

definition sample_kernel :: kernel where
  "sample_kernel =
     \<lparr>sem_keys = (\<lambda>_. None), shm_keys = (\<lambda>_. None), shm_segs = (\<lambda>_. None), attached = [],
      fifos = [], ftok_key = (\<lambda>_. 17)\<rparr>"

text \<open>A process that sees the swarm, with the events its calls will meet.\<close>

definition sample_os :: "int option \<Rightarrow> bool \<Rightarrow> int \<Rightarrow> event list \<Rightarrow> os" where
  "sample_os i charging battery evs =
     \<lparr>me = i, sw = sample_swarm, kern = sample_kernel, sems = (\<lambda>_. None)(7 \<mapsto> 1), drones_sem = 7,
      semadj = (\<lambda>_. 0), got_sigusr1 = False, got_sigusr2 = False, got_shutdown_requested = False,
      is_charging = charging, battery_percentage = battery, battery_created = True,
      battery_working = True, inputs = evs\<rparr>"

definition sample_attachments :: attachments where
  "sample_attachments =
     \<lparr>at_shm = Some 11, at_shm_id = 11, at_stack = Some 12, at_stack_id = 12, at_sem_id = 7\<rparr>"

definition sample_dron :: "int \<Rightarrow> DronData_Location \<Rightarrow> int \<Rightarrow> event list \<Rightarrow> dron" where
  "sample_dron i loc battery evs =
     \<lparr>sys = sample_os (Some i) (loc = LOCATION_BASE) battery evs,
      internal = \<lparr>my_id = 1, my_index = i, maximum_charge_time = 4000, loading_cycles_left = 3,
        have_reserved_space = 0, gate_time_to_pass = 20, work_interval = 50, location = loc\<rparr>,
      local_data = sample_slot 501 loc, starting_location = loc, att = sample_attachments,
      gate_semaphore_id = 8,
      fifo_sem = \<lparr>fs_path = ''/tmp/gate_fifo'', fs_file_descriptor = 5, fs_capacity = 2\<rparr>\<rparr>"

definition sample_operator :: "event list \<Rightarrow> operator" where
  "sample_operator evs =
     \<lparr>op_sys = sample_os None False 100 evs, local_configuration = sample_config,
      op_att = sample_attachments, launched = []\<rparr>"

definition sample_commander :: "event list \<Rightarrow> commander" where
  "sample_commander evs =
     \<lparr>cm_sys = sample_os None False 100 evs, operator_pid = 400, cm_att = sample_attachments, sent = []\<rparr>"

text \<open>A call that succeeds at once, with the value it returns.\<close>

definition quiet :: "int \<Rightarrow> event" where
  "quiet n = Event [] (SysOk n)"

lemma prompt_quiet [simp]: "prompt (quiet n)"
  by (simp add: quiet_def)

section \<open>The sample states satisfy the invariants\<close>

lemma sample_stack_ints: "stack_ints sample_stack = [2, 3]"
  by code_simp

lemma sample_free_slots: "free_slots sample_table = {2, 3}"
proof -
  have "slot_valid sample_table i \<longleftrightarrow> i = 0 \<or> i = 1 \<or> i = 2 \<or> i = 3" for i
    by (auto simp: slot_valid_def sample_table_def)
  then show ?thesis
    by (auto simp: free_slots_def sample_table_def slot_def sample_slot_def)
qed

lemma sample_table_ok: "table_ok sample_table sample_stack"
proof -
  have "int_stack_ok sample_stack"
    by (simp add: int_stack_ok_def stack_ok_def sample_stack_def sizeof_int_def)
  then show ?thesis
    by (simp add: table_ok_def sample_stack_ints sample_free_slots)
      (simp add: sample_table_def sample_stack_def sample_slot_def INT_MAX_def)
qed

lemma sample_swarm_ok: "swarm_ok sample_swarm"
  using sample_table_ok
  by (simp add: swarm_ok_defs sample_swarm_def GATE_CAPACITY_def)
    (simp add: sample_table_def sample_config_def lost_total_def)

lemma sample_slots [simp]:
  "slot_valid sample_table 0" "slot_valid sample_table 1"
  "slot sample_table 0 = sample_slot 501 LOCATION_MISSION"
  "slot sample_table 1 = sample_slot 502 LOCATION_BASE"
  by (simp_all add: slot_valid_def slot_def sample_table_def)

lemma sample_dron_ok:
  assumes "(i, loc) \<in> {(0, LOCATION_MISSION), (1, LOCATION_BASE)}" and "0 \<le> b" "b \<le> 100"
    and "f = None \<or> f = Some (length evs) \<and> list_all prompt evs"
  shows "dron_ok f 0 sample_swarm (sample_dron i loc b evs)"
proof -
  have "funded f (sample_os (Some i) c b evs)" for c
    using assms(4) by (auto simp: funded_def sample_os_def)
  then show ?thesis
    using assms(1-3) sample_swarm_ok
    by (auto simp: dron_ok_def own_at_def sample_dron_def sample_attachments_def owned_def battery_ok_def reach_refl)
      (auto simp: sample_os_def sample_swarm_def sample_slot_def reach_refl)
qed

lemma sample_operator_ok: "operator_ok sample_swarm 7 (sample_operator evs)"
  using sample_swarm_ok
  by (simp add: operator_ok_def gone_at_def sample_operator_def sample_attachments_def sample_os_def reach_refl)
    (simp add: sample_swarm_def)

lemma sample_commander_ok: "commander_ok sample_swarm 7 (sample_commander evs)"
  using sample_swarm_ok
  by (simp add: commander_ok_def gone_at_def sample_commander_def sample_attachments_def sample_os_def reach_refl)

section \<open>Processes that start\<close>

text \<open>The tables of the kernel after the set-up: the three segments, the three semaphores (7 for the
  table of drones, 8 for the gate, 9 for the configuration) and the FIFO.\<close>

definition started_kernel :: kernel where
  "started_kernel =
     \<lparr>sem_keys = (\<lambda>_. None)(1 \<mapsto> 7, 3 \<mapsto> 9, 4 \<mapsto> 8), shm_keys = (\<lambda>_. None)(1 \<mapsto> 11, 2 \<mapsto> 12, 3 \<mapsto> 13),
      shm_segs = (\<lambda>_. None)(11 \<mapsto> 88, 12 \<mapsto> 48, 13 \<mapsto> 24), attached = [],
      fifos = [''/tmp/gate_fifo''],
      ftok_key = (\<lambda>f. if f = ''dron_info_key'' then 1 else if f = ''stack_key'' then 2
                      else if f = ''config_key'' then 3 else 4)\<rparr>"

definition started_os :: "event list \<Rightarrow> os" where
  "started_os evs =
     (sample_os None False 100 evs)\<lparr>kern := started_kernel, sems := (\<lambda>_. None)(7 \<mapsto> 1, 8 \<mapsto> 2, 9 \<mapsto> 1),
       battery_created := False, battery_working := False\<rparr>"

lemma started_ready:
  "ready_at sample_swarm 7 sample_config (ftok_key started_kernel) (sem_keys started_kernel) False (started_os evs)"
  using sample_swarm_ok
  by (simp add: ready_at_def gone_at_def battery_ok_def started_os_def sample_os_def reach_refl)
    (simp add: sample_swarm_def)

lemma started_keys: "keys_ok 7 (ftok_key started_kernel) (sem_keys started_kernel)"
  by (simp add: keys_ok_def started_kernel_def)

definition no_fifo :: FIFO_SEM where
  "no_fifo = \<lparr>fs_path = '''', fs_file_descriptor = - 1, fs_capacity = 0\<rparr>"

definition new_dron :: "event list \<Rightarrow> dron" where
  "new_dron evs =
     \<lparr>sys = started_os evs, internal = initial_internal_data sample_config LOCATION_UNDEFINE,
      local_data = sample_slot 0 LOCATION_UNDEFINE, starting_location = LOCATION_UNDEFINE,
      att = no_attachments, gate_semaphore_id = - 1, fifo_sem = no_fifo\<rparr>"

definition new_operator :: "event list \<Rightarrow> operator" where
  "new_operator evs =
     \<lparr>op_sys = started_os evs, local_configuration = sample_config, op_att = no_attachments, launched = []\<rparr>"

definition new_commander :: "event list \<Rightarrow> commander" where
  "new_commander evs =
     \<lparr>cm_sys = started_os evs, operator_pid = - 1, cm_att = no_attachments, sent = []\<rparr>"

text \<open>The main process, before anything of the program exists.\<close>

definition new_launcher :: "event list \<Rightarrow> launcher" where
  "new_launcher evs =
     \<lparr>mn_sys = (sample_os None False 100 evs)\<lparr>sw := sample_swarm\<lparr>gate_tokens := 0\<rparr>, sems := (\<lambda>_. None),
        kern := started_kernel\<lparr>sem_keys := (\<lambda>_. None), shm_keys := (\<lambda>_. None), shm_segs := (\<lambda>_. None),
          fifos := []\<rparr>\<rparr>,
      shm_configuration = None, shm_configuration_id = - 1, shm_configuration_semaphore_id = - 1,
      mn_att = no_attachments, mn_gate_semaphore_id = - 1, mn_operator_pid = - 1,
      system_commander_pid = - 1, mn_fifo_sem = no_fifo, maximum_drones_in_memory = 4,
      commander_args = None\<rparr>"

text \<open>The swarm of the default configuration, and of one with three drones.\<close>

lemma default_config_ok:
  "config_ok default_configuration 100"
  "config_ok (default_configuration\<lparr>starting_drones_count := 3\<rparr>) 100"
  by (simp_all add: config_ok_def default_configuration_def args_max_defs)

lemma default_free_stack: "initial_free_stack 100 = Some (the (initial_free_stack 100))"
  using initial_free_stack_ok [of 100] by (auto simp: INT_MAX_def)

section \<open>Runs of the programs\<close>

text \<open>A drone starts, registers in slot 2 and flies two rounds while drone 501 is lost; then it is
  told to shut down.\<close>

definition dron_run :: "event list" where
  "dron_run =
     replicate 32 (quiet 1) @ quiet 0 # replicate 9 (quiet 1) @
     Event [Others (A_delete 0 DESTRUCTION_REASON_SUICIDE), Signal_shutdown] (SysOk 1) # replicate 8 (quiet 1)"

lemma dron_run_ends:
  "\<exists>w'. dron_main [''2''] 503 2 (new_dron dron_run) = Some (Exited 0, w') \<and>
     map dd_location (drones (table w')) = [LOCATION_UNDEFINE, LOCATION_BASE, LOCATION_MISSION, LOCATION_UNDEFINE]"
proof -
  have "case dron_main [''2''] 503 2 (new_dron dron_run) of None \<Rightarrow> False
    | Some (st, w') \<Rightarrow> st = Exited 0 \<and> map dd_location (drones (table w')) =
        [LOCATION_UNDEFINE, LOCATION_BASE, LOCATION_MISSION, LOCATION_UNDEFINE]"
    by code_simp
  then show ?thesis by (auto split: option.splits)
qed

text \<open>The operator starts the two first drones and one more, and is told to shut down.\<close>

definition operator_run :: "event list" where
  "operator_run =
     replicate 29 (quiet 1) @
     Event [Others (A_register (sample_slot 503 LOCATION_MISSION)), Signal_shutdown] (SysOk 1) #
     replicate 6 (quiet 1) @ [quiet 0]"

lemma operator_run_ends:
  "\<exists>w'. operator_main 1 (new_operator operator_run) = Some (Exited 0, w') \<and>
     launched w' = [[''1''], [''2''], [''2'']]"
proof -
  have "case operator_main 1 (new_operator operator_run) of None \<Rightarrow> False
    | Some (st, w') \<Rightarrow> st = Exited 0 \<and> launched w' = [[''1''], [''2''], [''2'']]"
    by code_simp
  then show ?thesis by (auto split: option.splits)
qed

text \<open>The commander has platforms added three times, takes out one drone, and is told to shut
  down.\<close>

definition commander_mission :: "event list" where
  "commander_mission =
     replicate 8 (quiet 1) @ replicate 12 (quiet 0) @ Event [Signal_shutdown] (SysOk 0) # replicate 7 (quiet 0)"

lemma commander_mission_ends:
  "\<exists>w'. commander_main [''400''] (new_commander commander_mission) = Some (Exited 0, w') \<and>
     sent w' = [(501, SIGUSR1), (400, SIGUSR1), (400, SIGUSR1), (400, SIGUSR1)]"
proof -
  have "case commander_main [''400''] (new_commander commander_mission) of None \<Rightarrow> False
    | Some (st, w') \<Rightarrow> st = Exited 0 \<and> sent w' = [(501, SIGUSR1), (400, SIGUSR1), (400, SIGUSR1), (400, SIGUSR1)]"
    by code_simp
  then show ?thesis by (auto split: option.splits)
qed

text \<open>The main program creates the segments 13, 11 and 12, the semaphores 9, 7 and 8 and the gate.\<close>

definition setup_run :: "event list" where
  "setup_run =
     map quiet [1, 1, 1, 13, 1, 9, 1, 1, 1, 1, 11, 1, 1, 1, 1, 12, 1, 7, 1, 1, 1, 1, 8, 1, 1, 1, 1, 1, 1, 1]"

lemma setup_run_ends:
  "\<exists>w'. main_setup sample_config (new_launcher setup_run) = Some (Returned 0, w') \<and>
     at_sem_id (mn_att w') = 7 \<and> gate_tokens (sw (mn_sys w')) = 2"
proof -
  have "case main_setup sample_config (new_launcher setup_run) of None \<Rightarrow> False
    | Some (st, w') \<Rightarrow> st = Returned 0 \<and> at_sem_id (mn_att w') = 7 \<and> gate_tokens (sw (mn_sys w')) = 2"
    by code_simp
  then show ?thesis by (auto split: option.splits)
qed

lemma setup_run_starts:
  "setting_up (sample_swarm\<lparr>gate_tokens := 0\<rparr>) (new_launcher setup_run)"
  "config_ok sample_config (maximum_drones_in_memory (new_launcher setup_run))"
  by (simp_all add: setting_up_def alone_def setup_run_def quiet_def new_launcher_def sample_os_def sample_config_def
      config_ok_def args_max_defs)

end
