(* ===== verification/Swarm_Theorems.thy ===== *)
theory Swarm_Theorems
  imports Samples
begin

text \<open>
  The theorems on the shared data: the swarm under every interleaving of the actions of its
  processes, the semaphore that orders these actions, and the retry loops around system calls.
\<close>

section \<open>The swarm\<close>

text \<open>C1. From the swarm that the main process sets up, every sequence of actions of any number of
  processes (drones that register, reserve, pass the gate, dock, leave and are deleted; the
  operator that doubles and halves the number of platforms) leads to a swarm that satisfies the
  invariant: the table agrees with its counters and with the stack of free slots, the reservations
  and the tokens of the gate are accounted for, and every lost drone is counted once.\<close>

theorem swarm_invariant:
  assumes "config_ok cfg m" and "initial_free_stack m = Some st"
  shows "swarm_ok (fold exec_act as (initial_swarm cfg m st))"
  by (rule swarm_sys.run_inv) (rule initial_swarm_ok [OF assms])

theorem swarm_invariant_witness:
  "swarm_ok (fold exec_act [A_register (sample_slot 501 LOCATION_MISSION), A_add_platforms, A_reserve 0]
     (initial_swarm default_configuration 100 (the (initial_free_stack 100))))"
  by (rule swarm_invariant [OF default_config_ok(1) default_free_stack])

text \<open>C5. The numbers at every moment of every run: the drones in the base and the places reserved in it
  are together at most twice the initial number of drones minus one, neither count is ever negative
  (so the messages about a negative reserve are never printed), the table never holds more drones
  than it has slots, and a drone is in the gate for every token that is missing, so at most two.\<close>

theorem swarm_bounds:
  assumes "config_ok cfg m" and "initial_free_stack m = Some st"
    and "s = fold exec_act as (initial_swarm cfg m st)"
  shows "dron_in_base_count (all_drones s) + dron_reserving_space_count (all_drones s)
      \<le> 2 * starting_drones_count cfg - 1 \<and>
    0 \<le> dron_in_base_count (all_drones s) \<and> \<not> reserve_negative (all_drones s) \<and>
    0 \<le> dron_count (all_drones s) \<and> dron_count (all_drones s) \<le> m \<and>
    gate_tokens s + length (passing s) = 2 \<and> distinct (passing s)"
proof -
  have start: "swarm_ok (initial_swarm cfg m st)" by (rule initial_swarm_ok [OF assms(1,2)])
  then have ok: "swarm_ok s" unfolding assms(3) by (rule swarm_sys.run_inv)
  have kept: "config s = cfg" "capacity (all_drones s) = m"
    using run_kept [OF start, of as] by (simp_all add: assms(3) initial_swarm_def initial_table_def)
  have "count_by used (drones (all_drones s)) \<le> int (length (drones (all_drones s)))"
    by (simp add: count_by_def)
  with ok kept show ?thesis
    by (simp add: swarm_ok_defs table_ok_def GATE_CAPACITY_def reserve_negative_def)
qed

theorem swarm_bounds_witness:
  "let s = fold exec_act [A_register (sample_slot 501 LOCATION_MISSION), A_add_platforms, A_reserve 0]
     (initial_swarm default_configuration 100 (the (initial_free_stack 100)))
   in dron_in_base_count (all_drones s) + dron_reserving_space_count (all_drones s) \<le> 11 \<and>
     dron_count (all_drones s) \<le> 100 \<and> gate_tokens s + length (passing s) = 2"
  using swarm_bounds [OF default_config_ok(1) default_free_stack refl,
      of "[A_register (sample_slot 501 LOCATION_MISSION), A_add_platforms, A_reserve 0]"]
  by (simp add: Let_def default_configuration_def del: exec_act.simps fold_simps)



text \<open>C16. Admission to the base: whatever action a process takes, the drones in the base and the
  reservations grow together only up to the number of platforms at that moment; a base that the
  operator has made too small for its drones admits nobody.\<close>

theorem base_admission:
  assumes "swarm_ok s" and "occupancy s < occupancy (exec_act a s)"
  shows "has_room (all_drones s) \<and> occupancy (exec_act a s) \<le> maximum_dron_in_base_count (all_drones s)"
  using occupancy_step [OF assms(1), of a] assms(2) by (auto simp: has_room_def occupancy_def)

theorem base_admission_witness:
  "has_room (all_drones sample_swarm) \<and> occupancy (exec_act (A_reserve 0) sample_swarm) \<le> 3"
proof -
  have "occupancy sample_swarm < occupancy (exec_act (A_reserve 0) sample_swarm)"
    by code_simp
  moreover have "maximum_dron_in_base_count (all_drones sample_swarm) = 3"
    by (simp add: sample_swarm_def sample_table_def)
  ultimately show ?thesis using base_admission [OF sample_swarm_ok] by metis
qed

text \<open>C17. A slot belongs to its drone: whatever the other processes do, in any order and with or
  without the semaphore, the entry of a drone in the table, its reservation and its place in the
  gate change only by its own actions.\<close>

theorem slot_ownership:
  assumes "swarm_ok s" and "slot_valid (all_drones s) i" and "used (slot (all_drones s) i)"
    and "s' = fold (env_act (Some i) unlocked) as s"
  shows "slot (all_drones s') i = slot (all_drones s) i \<and>
    (i \<in> set (reservers s') \<longleftrightarrow> i \<in> set (reservers s)) \<and> (i \<in> set (passing s') \<longleftrightarrow> i \<in> set (passing s))"
  using env_run_view [of s i unlocked as] assms by (auto simp: owned_def own_view_def)

theorem slot_ownership_witness:
  "slot (all_drones (fold (env_act (Some 1) True)
       [A_delete 0 DESTRUCTION_REASON_SUICIDE, A_register (sample_slot 503 LOCATION_BASE), A_undock 1]
     sample_swarm)) 1 = sample_slot 502 LOCATION_BASE"
  using slot_ownership [OF sample_swarm_ok _ _ refl, of 1 True
      "[A_delete 0 DESTRUCTION_REASON_SUICIDE, A_register (sample_slot 503 LOCATION_BASE), A_undock 1]"]
  by (simp add: sample_swarm_def sample_slot_def del: fold_simps)

text \<open>C37. With at most three initial drones the base has no platform (\<open>N/2 - 1 \<le> 0\<close>), and no
  sequence of actions, signals to the operator included, ever lets a drone reserve a place or come
  into the base.\<close>

theorem small_swarm_has_no_base:
  assumes "config_ok cfg m" and "initial_free_stack m = Some st" and "starting_drones_count cfg \<le> 3"
  shows "occupancy (fold exec_act as (initial_swarm cfg m st)) = 0 \<and>
    \<not> has_room (all_drones (fold exec_act as (initial_swarm cfg m st)))"
proof -
  define P where "P = (\<lambda>s. swarm_ok s \<and> maximum_dron_in_base_count (all_drones s) \<le> 0 \<and> occupancy s = 0)"
  have "starting_drones_count cfg \<in> {1, 2, 3}" using assms(1,3) by (auto simp: config_ok_def)
  then have "P (initial_swarm cfg m st)"
    using initial_swarm_ok [OF assms(1,2)]
    by (auto simp: P_def occupancy_def initial_swarm_def initial_table_def signed_divide_int_def sgn_if)
  then have "P (fold exec_act as (initial_swarm cfg m st))"
  proof (induction as rule: rev_induct)
    case (snoc a as)
    then show ?case using no_platforms_step exec_act_ok by (auto simp: P_def)
  qed simp
  then show ?thesis by (auto simp: P_def has_room_def occupancy_def)
qed

theorem small_swarm_has_no_base_witness:
  "occupancy (fold exec_act [A_add_platforms, A_register (sample_slot 501 LOCATION_BASE)]
     (initial_swarm (default_configuration\<lparr>starting_drones_count := 3\<rparr>) 100 (the (initial_free_stack 100)))) = 0"
  using small_swarm_has_no_base [OF default_config_ok(2) default_free_stack,
      of "[A_add_platforms, A_register (sample_slot 501 LOCATION_BASE)]"]
  by (simp del: exec_act.simps fold_simps)

section \<open>The table\<close>

text \<open>C18. Registration: with a free slot the drone goes into the slot on top of the free stack, the
  counters follow and the invariant of the table is kept; with no free slot the call returns \<open>-1\<close> and
  changes nothing.\<close>

theorem add_dron_correct:
  assumes "table_ok a s" and "used d"
  shows "\<exists>r a' s'. SHM_AllDronesData_add_dron a s d = Some (r, a', s') \<and> table_ok a' s' \<and>
    (if free_slots a = {} then r = - 1 \<and> a' = a \<and> s' = s
     else r = hd (stack_ints s) \<and> r \<in> free_slots a \<and> slot a' r = d \<and> stack_ints s' = tl (stack_ints s) \<and>
       dron_count a' = dron_count a + 1 \<and>
       dron_in_base_count a' = dron_in_base_count a + (if dd_location d = LOCATION_BASE then 1 else 0) \<and>
       (\<forall>j. slot_valid a j \<longrightarrow> j \<noteq> r \<longrightarrow> slot a' j = slot a j))"
proof (cases "stack_ints s")
  case Nil
  then have "free_slots a = {}" using assms(1) by (auto simp: table_ok_def)
  with add_dron_full [OF assms(1) Nil] assms(1) show ?thesis by simp
next
  case (Cons i "is")
  then have i: "i \<in> free_slots a" using assms(1) by (auto simp: table_ok_def)
  then have "slot_valid a i" by (simp add: free_slots_def)
  moreover have "free_slots a \<noteq> {}" using i by auto
  ultimately show ?thesis
    using i Cons add_dron_room [OF assms(1) Cons assms(2)] by auto
qed

theorem add_dron_correct_witness:
  "\<exists>a' s'. SHM_AllDronesData_add_dron sample_table sample_stack (sample_slot 503 LOCATION_BASE) = Some (2, a', s') \<and>
     table_ok a' s' \<and> slot a' 2 = sample_slot 503 LOCATION_BASE \<and> stack_ints s' = [3]"
  using add_dron_correct [OF sample_table_ok, of "sample_slot 503 LOCATION_BASE"]
  by (auto simp: sample_free_slots sample_stack_ints sample_slot_def)

text \<open>C19. Removal: the slot is free again and on top of the free stack, the counters follow, exactly the
  counter of the given reason grows, no other slot changes, and the invariant of the table is kept.\<close>

theorem delete_drone_correct:
  assumes "table_ok a s" and "slot_valid a i" and "used (slot a i)"
  shows "\<exists>a' s'. SHM_AllDronesData_delete_drone a s i reserved reason = Some (i, a', s') \<and> table_ok a' s' \<and>
    i \<in> free_slots a' \<and> stack_ints s' = i # stack_ints s \<and> dron_count a' = dron_count a - 1 \<and>
    dron_in_base_count a' = dron_in_base_count a - (if slot_location a i = LOCATION_BASE then 1 else 0) \<and>
    dron_reserving_space_count a' = dron_reserving_space_count a - (if reserved \<noteq> 0 then 1 else 0) \<and>
    drone_lost_suicide a' = drone_lost_suicide a + (if reason = DESTRUCTION_REASON_SUICIDE then 1 else 0) \<and>
    drone_lost_decommissioned a' =
      drone_lost_decommissioned a + (if reason = DESTRUCTION_REASON_DECOMMISSIONED then 1 else 0) \<and>
    drone_lost_out_of_power a' =
      drone_lost_out_of_power a + (if reason = DESTRUCTION_REASON_OUT_OF_POWER then 1 else 0) \<and>
    drone_lost_other a' = drone_lost_other a + (if reason = DESTRUCTION_REASON_OTHER then 1 else 0) \<and>
    (\<forall>j. slot_valid a j \<longrightarrow> j \<noteq> i \<longrightarrow> slot a' j = slot a j)"
proof -
  obtain s' where del: "SHM_AllDronesData_delete_drone a s i reserved reason =
        Some (i, table_deleted a i reserved reason, s')"
      "table_ok (table_deleted a i reserved reason) s'" "stack_ints s' = i # stack_ints s"
    using delete_drone_ok [OF assms] by blast
  then have "i \<in> free_slots (table_deleted a i reserved reason)"
    by (metis list.set_intros(1) table_ok_def)
  with del assms(2) show ?thesis by (simp add: table_deleted_losses)
qed

theorem delete_drone_correct_witness:
  "\<exists>a' s'. SHM_AllDronesData_delete_drone sample_table sample_stack 1 0 DESTRUCTION_REASON_SUICIDE = Some (1, a', s') \<and>
     table_ok a' s' \<and> stack_ints s' = [1, 2, 3] \<and> dron_count a' = 1 \<and> dron_in_base_count a' = 0 \<and>
     drone_lost_suicide a' = 1"
  using delete_drone_correct [OF sample_table_ok, of 1 0 DESTRUCTION_REASON_SUICIDE]
  by (auto simp: sample_stack_ints sample_slot_def) (simp_all add: sample_table_def)

text \<open>C21. Looking for a victim: the scan returns the process of the first used slot, and \<open>-1\<close> exactly
  when the table has no drone.\<close>

theorem get_dron_pid_first_used:
  assumes "table_ok a s"
  shows "SHM_AllDronesData_get_dron_pid a =
      Some (case find (\<lambda>d. dd_location d \<noteq> LOCATION_UNDEFINE) (drones a) of None \<Rightarrow> - 1 | Some d \<Rightarrow> dd_pid d) \<and>
    (find (\<lambda>d. dd_location d \<noteq> LOCATION_UNDEFINE) (drones a) = None \<longleftrightarrow> dron_count a = 0)"
proof
  show "find (\<lambda>d. dd_location d \<noteq> LOCATION_UNDEFINE) (drones a) = None \<longleftrightarrow> dron_count a = 0"
    using assms by (simp add: table_ok_def count_by_def find_None_iff filter_empty_conv Ball_def)
qed (rule get_dron_pid_correct [OF assms])

theorem get_dron_pid_first_used_witness: "SHM_AllDronesData_get_dron_pid sample_table = Some 501"
  using get_dron_pid_first_used [OF sample_table_ok] by (simp add: sample_table_def sample_slot_def)

text \<open>C20. A change of location: a drone on a mission that docks gives back its reservation and is
  counted in the base, a drone in the base that leaves is no longer counted; no other slot and no
  other counter changes, and the invariant of the table is kept.\<close>

theorem update_location_correct:
  assumes "table_ok a s" and "slot_valid a i"
    and "(slot_location a i, l) \<in> {(LOCATION_MISSION, LOCATION_BASE), (LOCATION_BASE, LOCATION_MISSION)}"
  shows "\<exists>a'. SHM_AllDronesData_update_dron_location a i l = Some (0, a') \<and> table_ok a' s \<and>
    slot a' i = (slot a i)\<lparr>dd_location := l\<rparr> \<and> (\<forall>j. slot_valid a j \<longrightarrow> j \<noteq> i \<longrightarrow> slot a' j = slot a j) \<and>
    dron_in_base_count a' = dron_in_base_count a + (if l = LOCATION_BASE then 1 else - 1) \<and>
    dron_reserving_space_count a' = dron_reserving_space_count a - (if l = LOCATION_BASE then 1 else 0) \<and>
    dron_count a' = dron_count a \<and> maximum_dron_in_base_count a' = maximum_dron_in_base_count a"
proof -
  have "table_ok (table_moved a i l) s"
    by (rule table_moved_ok) (use assms in auto)
  with assms(2,3) show ?thesis
    by (auto simp: update_dron_location_valid)
qed

theorem update_location_correct_witness:
  "\<exists>a'. SHM_AllDronesData_update_dron_location sample_table 1 LOCATION_MISSION = Some (0, a') \<and>
     table_ok a' sample_stack \<and> slot a' 1 = sample_slot 502 LOCATION_MISSION \<and> dron_in_base_count a' = 0"
  using update_location_correct [OF sample_table_ok, of 1 LOCATION_MISSION]
  by (auto simp: sample_slot_def) (simp add: sample_table_def)

section \<open>The semaphore of the table\<close>

text \<open>C13. Mutual exclusion: a process that returns from \<open>semaphore_lock\<close> with \<open>0\<close> has made a step of the
  protocol of all processes after which it, and nobody else, is in the critical section.\<close>

theorem semaphore_lock_excludes:
  assumes "sem_reach g" and "sees sid p w g" and "semaphore_lock sid w = Some (0, w')"
  shows "\<exists>g'. sem_step g g' \<and> sem_reach g' \<and> sees sid p w' g' \<and> (\<forall>q. in_section q g' \<longleftrightarrow> q = p)"
proof -
  have "wp (semaphore_lock sid w) (\<lambda>r w'. r = 0 \<longrightarrow> (\<exists>g'. sem_step g g' \<and> in_section p g' \<and> sees sid p w' g'))"
  proof (rule lock.retried_wp [where f = None, simplified], goal_cases)
    case (2 v)
    then have "sees sid p v g" using assms(2) by (simp add: sees_def calm_def)
    with 2 show ?case using lock_refines [OF _ assms(1)] by blast
  qed simp
  with assms(3) obtain g' where g': "sem_step g g'" "in_section p g'" "sees sid p w' g'" by auto
  then have "sem_reach g'" using assms(1) by (blast intro: sem_reach.step)
  moreover have "in_section q g' \<longleftrightarrow> q = p" for q
    using sem_reach_inv [OF \<open>sem_reach g'\<close>] g'(2) by (auto simp: sem_inv_def in_section_def split: if_splits)
  ultimately show ?thesis using g' by blast
qed

theorem semaphore_lock_excludes_witness:
  "\<exists>g' w'. semaphore_lock 7 (sample_os None False 100 [quiet 0]) = Some (0, w') \<and> sees 7 0 w' g' \<and>
     (\<forall>q. in_section q g' \<longleftrightarrow> q = 0)"
proof -
  let ?w = "sample_os None False 100 [quiet 0]"
  have "sees 7 0 ?w sem_free_state"
    by (simp add: sees_def sem_free_state_def sample_os_def)
  moreover have "\<exists>w'. semaphore_lock 7 ?w = Some (0, w')"
    using semaphore_lock_now [of ?w "[]" 0 "[]" 7 1] by (simp add: sample_os_def quiet_def)
  ultimately show ?thesis
    using semaphore_lock_excludes [OF sem_reach.free] by meson
qed

text \<open>C14. The way out: \<open>semaphore_unlock\<close> and the end of a process (at whatever point, through
  \<open>SEM_UNDO\<close>) are steps of the same protocol after which the process is outside and the semaphore is
  free for the next one.\<close>

theorem semaphore_released:
  assumes "sem_reach g" and "sees sid p w g" and "in_section p g"
  shows "(\<forall>w'. semaphore_unlock sid w = Some (0, w') \<longrightarrow>
      (\<exists>g'. sem_step g g' \<and> sees sid p w' g' \<and> sem_value g' = 1 \<and> (\<forall>q. \<not> in_section q g'))) \<and>
    (\<exists>g'. sem_step g g' \<and> sees sid p (process_exit w) g' \<and> sem_value g' = 1 \<and> (\<forall>q. \<not> in_section q g'))"
proof -
  have adj: "sem_adj g = (\<lambda>_. 0)(p := 1)" "sem_value g = 0"
    using sem_reach_inv [OF assms(1)] assms(3) by (auto simp: sem_inv_def in_section_def split: if_splits)
  have free: "sem_value g' = 1 \<and> (\<forall>q. \<not> in_section q g')" if "sem_step g g'" "\<not> in_section p g'" for g'
  proof -
    have "sem_inv g'" using that assms(1) by (blast intro: sem_reach.step sem_reach_inv)
    moreover have "q = p" if "in_section q g'" for q
      using \<open>sem_step g g'\<close> that adj by (elim sem_stepE) (auto simp: in_section_def split: if_splits)
    ultimately show ?thesis
      using that(2) by (auto simp: sem_inv_def in_section_def)
  qed
  have "wp (semaphore_unlock sid w) (\<lambda>r w'. r = 0 \<longrightarrow> (\<exists>g'. sem_step g g' \<and> \<not> in_section p g' \<and> sees sid p w' g'))"
  proof (rule unlock.retried_wp [where f = None, simplified], goal_cases)
    case (2 v)
    then have "sees sid p v g" using assms(2) by (simp add: sees_def calm_def)
    then show ?case using unlock_refines [OF _ assms(3)] by blast
  qed simp
  then show ?thesis using free exit_refines [OF assms(2)] by fastforce
qed

theorem semaphore_released_witness:
  "\<exists>g' w'. semaphore_unlock 7 ((sample_os None False 100 [quiet 0])\<lparr>sems := [7 \<mapsto> 0], semadj := (\<lambda>_. 0)(7 := 1)\<rparr>)
       = Some (0, w') \<and> sees 7 0 w' g' \<and> sem_value g' = 1"
proof -
  let ?w = "(sample_os None False 100 [quiet 0])\<lparr>sems := [7 \<mapsto> 0], semadj := (\<lambda>_. 0)(7 := 1)\<rparr>"
  let ?g = "\<lparr>sem_value = 0, sem_adj = (\<lambda>_. 0)(0 := 1)\<rparr>"
  have "sem_step sem_free_state ?g"
    using sem_step.enter [of 0 sem_free_state] by (simp add: in_section_def sem_free_state_def)
  then have "sem_reach ?g" by (rule sem_reach.step [OF sem_reach.free])
  moreover have "\<exists>w'. semaphore_unlock 7 ?w = Some (0, w')"
    using semaphore_unlock_now [of ?w "[]" 0 "[]" 7 0] by (simp add: sample_os_def quiet_def)
  ultimately show ?thesis
    using semaphore_released [of ?g 7 0 ?w] by (auto simp: sees_def in_section_def)
qed

text \<open>C15. \<open>semaphore_lock\<close> returns: signals that interrupt the call any number of times only repeat
  it, and it comes back with \<open>0\<close> and the semaphore as soon as the semaphore is free.\<close>

theorem semaphore_lock_returns:
  assumes "inputs w = replicate n (Event [] (SysErr EINTR)) @ Event es (SysOk k) # evs"
    and "sems w sid = Some v" and "1 \<le> v"
  shows "\<exists>w'. semaphore_lock sid w = Some (0, w') \<and> inputs w' = evs \<and>
    sems w' sid = Some (v - 1) \<and> semadj w' sid = semadj w sid + 1"
  using assms
proof (induction n arbitrary: w)
  case 0
  have "calm (w\<lparr>inputs := evs\<rparr>) (fold apply_step es (w\<lparr>inputs := evs\<rparr>))" by (rule apply_steps_calm)
  with 0 show ?case by (simp add: semaphore_lock_now sem_add_def calm_def)
next
  case (Suc n)
  let ?w = "w\<lparr>inputs := replicate n (Event [] (SysErr EINTR)) @ Event es (SysOk k) # evs\<rparr>"
  have "semop sid (- 1) w = Some (SysErr EINTR, ?w)"
    using Suc.prems by (simp add: semop.simps [of sid "- 1" w] sync_def)
  then have "semaphore_lock sid w = semaphore_lock sid ?w"
    by (simp add: semaphore_lock.simps [of sid w])
  with Suc.IH [of ?w] Suc.prems show ?case by simp
qed

theorem semaphore_lock_returns_witness:
  "\<exists>w'. semaphore_lock 7 (sample_os None False 100 [Event [] (SysErr EINTR), Event [] (SysErr EINTR), quiet 0])
      = Some (0, w') \<and> sems w' 7 = Some 0"
  using semaphore_lock_returns [of "sample_os None False 100 [Event [] (SysErr EINTR), Event [] (SysErr EINTR), quiet 0]"
      2 "[]" 0 "[]" 7 1]
  by (auto simp: sample_os_def quiet_def numeral_2_eq_2)

section \<open>The battery\<close>

text \<open>The battery thread counts up to 100 while the drone charges and down to 0 while it flies, one
  percent per round, and never leaves that range.\<close>

theorem battery_after_rounds:
  assumes "0 \<le> b" and "b \<le> 100"
  shows "(battery_round charging ^^ n) b = (if charging then min 100 (b + int n) else max 0 (b - int n))"
proof (induction n)
  case (Suc n)
  then show ?case using assms by (cases charging) (simp_all add: battery_round_def)
qed (use assms in simp)

theorem battery_after_rounds_witness: "(battery_round False ^^ 7) 5 = 0"
  using battery_after_rounds [of 5 7 False] by simp

end
