(* ===== verification/Drone_Theorems.thy ===== *)
theory Drone_Theorems
  imports Samples
begin

text \<open>
  The theorems on a drone: what its handlers do on every branch, that a round of its loop returns
  whatever the others do, that a shutdown request ends it, and how it registers.
\<close>

section \<open>Samples of a drone in its loop\<close>

lemma calm_run_ok:
  assumes "(i, loc) \<in> {(0, LOCATION_MISSION), (1, LOCATION_BASE)}" and "0 \<le> b" "b \<le> 100"
  shows "dron_ok None 0 sample_swarm (sample_dron i loc b (replicate k (Event [] (SysOk 1))))"
  by (rule sample_dron_ok) (use assms in auto)

lemma sample_dron_simps:
  "inputs (sys (sample_dron i loc b evs)) = evs" "battery_percentage (sys (sample_dron i loc b evs)) = b"
  "sw (sys (sample_dron i loc b evs)) = sample_swarm" "my_index (internal (sample_dron i loc b evs)) = i"
  "location (internal (sample_dron i loc b evs)) = loc" "loading_cycles_left (internal (sample_dron i loc b evs)) = 3"
  "have_reserved_space (internal (sample_dron i loc b evs)) = 0" "fs_file_descriptor (fifo_sem (sample_dron i loc b evs)) = 5"
  "gate_tokens sample_swarm = 2" "has_room (all_drones sample_swarm)" "dron_sem_id (sample_dron i loc b evs) = 7"
  "got_shutdown_requested (sys (sample_dron i loc b evs)) = False"
  by (simp_all add: sample_dron_def sample_os_def sample_swarm_def sample_table_def has_room_def sample_attachments_def)

section \<open>The loop\<close>





section \<open>The handlers\<close>

text \<open>C11. The suicide order: with more than 20 percent of battery the drone is deleted with that reason
  and the process ends successfully, otherwise the order is refused and nothing changes.\<close>

theorem process_sigusr1_effect:
  assumes "dron_ok f n si w" and "inputs (sys w) = replicate 7 (Event [] (SysOk 1)) @ evs"
  shows "\<exists>st w'. process_sigusr1 w = Some (st, w') \<and>
    (if 20 < battery_percentage (sys w)
     then st = Exited 0 \<and>
       sw (sys w') = exec_act (A_delete (my_index (internal w)) DESTRUCTION_REASON_SUICIDE) (sw (sys w))
     else st = Returned 0 \<and> sw (sys w') = sw (sys w) \<and> internal w' = internal w)"
  using process_sigusr1_exact [OF assms] by (auto simp: outc_False)

theorem process_sigusr1_effect_witness:
  "\<exists>w'. process_sigusr1 (sample_dron 1 LOCATION_BASE 21 (replicate 7 (Event [] (SysOk 1)))) = Some (Exited 0, w') \<and>
     sw (sys w') = exec_act (A_delete 1 DESTRUCTION_REASON_SUICIDE) sample_swarm"
  using process_sigusr1_effect [OF calm_run_ok, of 1 LOCATION_BASE 21 7 "[]"] by (auto simp: sample_dron_simps)

text \<open>C12. The check of the battery: an empty battery deletes the drone with that reason and ends the
  process, any other changes nothing.\<close>

theorem battery_state_check_effect:
  assumes "dron_ok f n si w" and "inputs (sys w) = replicate 7 (Event [] (SysOk 1)) @ evs"
  shows "\<exists>st w'. battery_state_check w = Some (st, w') \<and>
    (if battery_percentage (sys w) = 0
     then st = Exited 0 \<and>
       sw (sys w') = exec_act (A_delete (my_index (internal w)) DESTRUCTION_REASON_OUT_OF_POWER) (sw (sys w))
     else st = Returned 0 \<and> sw (sys w') = sw (sys w) \<and> internal w' = internal w)"
proof -
  have "0 \<le> battery_percentage (sys w)"
    using assms(1) by (simp add: dron_ok_def own_at_def battery_ok_def)
  then show ?thesis using battery_state_check_exact [OF assms] by (auto simp: outc_False)
qed

theorem battery_state_check_effect_witness:
  "\<exists>w'. battery_state_check (sample_dron 0 LOCATION_MISSION 0 (replicate 7 (Event [] (SysOk 1)))) = Some (Exited 0, w') \<and>
     sw (sys w') = exec_act (A_delete 0 DESTRUCTION_REASON_OUT_OF_POWER) sample_swarm"
  using battery_state_check_effect [OF calm_run_ok, of 0 LOCATION_MISSION 0 7 "[]"] by (auto simp: sample_dron_simps)





section \<open>Registration\<close>

text \<open>C22. A drone that may enter (the base has room, or it starts on a mission) and finds a free slot
  registers: it gets the slot on top of the free stack and the next number, its data is in that
  slot, and the semaphore is released.\<close>

theorem registration_takes_slot:
  assumes ok: "swarm_ok (sw (sys w))" and sem: "sems (sys w) (dron_sem_id w) = Some 1"
    and events: "inputs (sys w) = Event [] (SysOk x) # Event [] (SysOk y) # evs"
    and may: "used (local_data w)" "has_room (table w) \<or> dd_location (local_data w) = LOCATION_MISSION"
    and top: "stack_ints (free_stack (sw (sys w))) = i # is"
  shows "\<exists>w'. try_adding_self_to_shm w = Some (0, w') \<and>
    sw (sys w') = exec_act (A_register (local_data w)) (sw (sys w)) \<and> slot (table w') i = local_data w \<and>
    my_index (internal w') = i \<and> my_id (internal w') = next_dron_id (table w) \<and>
    sems (sys w') (dron_sem_id w) = Some 1"
proof -
  let ?a = "table w" and ?d = "local_data w"
  have tab: "table_ok ?a (free_stack (sw (sys w)))" using ok by (simp add: swarm_ok_def)
  obtain st where add: "SHM_AllDronesData_add_dron ?a (free_stack (sw (sys w))) ?d = Some (i, table_added ?a i ?d, st)"
    using add_dron_room [OF tab top may(1)] by blast
  have "slot_valid ?a i" using table_ok_slot [OF tab, of i] top by simp
  then have "i \<noteq> - 1" "slot (table_added ?a i ?d) i = ?d" by (auto simp: slot_valid_def)
  with add sem events may show ?thesis
    by (simp add: try_adding_self_to_shm_def on_sys_def semaphore_lock_now semaphore_unlock_now sem_add_def
        swarm_add_def swarm_next_id_def set_sw_def set_internal_def the_swarm_def)
qed

theorem registration_takes_slot_witness:
  "\<exists>w'. try_adding_self_to_shm ((new_dron [quiet 0, quiet 0])\<lparr>local_data := sample_slot 503 LOCATION_BASE,
       att := sample_attachments\<rparr>) = Some (0, w') \<and>
     slot (table w') 2 = sample_slot 503 LOCATION_BASE \<and> my_index (internal w') = 2 \<and> my_id (internal w') = 3"
proof -
  let ?w = "(new_dron [quiet 0, quiet 0])\<lparr>local_data := sample_slot 503 LOCATION_BASE, att := sample_attachments\<rparr>"
  have w: "sw (sys ?w) = sample_swarm" "sems (sys ?w) 7 = Some 1" "dron_sem_id ?w = 7"
      "inputs (sys ?w) = [Event [] (SysOk 0), Event [] (SysOk 0)]" "used (local_data ?w)"
    by (simp_all add: new_dron_def started_os_def sample_os_def sample_attachments_def quiet_def sample_slot_def)
  have "has_room (all_drones sample_swarm)" "stack_ints (free_stack sample_swarm) = [2, 3]"
      "next_dron_id (all_drones sample_swarm) = 3"
    by code_simp+
  with w sample_swarm_ok registration_takes_slot [of ?w 0 0 "[]" 2 "[3]"] show ?thesis by auto
qed









end
