(* ===== verification/Control_Theorems.thy ===== *)
theory Control_Theorems
  imports Samples
begin

text \<open>
  The theorems on the processes that control the swarm: the operator, the commander and the main
  program.
\<close>

section \<open>The operator\<close>

text \<open>C25. \<open>SIGUSR1\<close>: the operator doubles the number of platforms, but never to twice the initial number
  of drones or more; nothing else in the swarm changes.\<close>

theorem operator_adds_platforms:
  assumes "operator_ok si sid w" and "inputs (op_sys w) = Event [] (SysOk a) # Event [] (SysOk b) # evs"
    and m: "m = maximum_dron_in_base_count (op_table w)" and n: "n = starting_drones_count (config (sw (op_sys w)))"
  shows "\<exists>w'. operator_sigusr1 w = Some (Returned 0, w') \<and> \<not> got_sigusr1 (op_sys w') \<and>
    sw (op_sys w') = set_maximum (if 2 * m < 2 * n then 2 * m else 2 * n - 1) (sw (op_sys w)) \<and>
    got_shutdown_requested (op_sys w') = got_shutdown_requested (op_sys w)"
  using operator_sigusr1_quiet [OF assms(1,2)]
  by (auto simp: m n doubled_maximum_def Let_def mult.commute [of _ 2])

theorem operator_adds_platforms_witness:
  "\<exists>w'. operator_sigusr1 (sample_operator [quiet 0, quiet 0]) = Some (Returned 0, w') \<and>
     sw (op_sys w') = set_maximum 3 sample_swarm"
  using operator_adds_platforms [OF sample_operator_ok [of "[quiet 0, quiet 0]"] _ refl refl, of 0 0 "[]"]
  by (auto simp: sample_operator_def sample_os_def quiet_def sample_swarm_def sample_table_def sample_config_def)

text \<open>C26. \<open>SIGUSR2\<close>: the operator halves the number of platforms, rounding towards zero, and asks
  itself to shut down exactly when none is left.\<close>

theorem operator_removes_platforms:
  assumes "operator_ok si sid w" and "inputs (op_sys w) = Event [] (SysOk a) # Event [] (SysOk b) # evs"
    and m: "m = maximum_dron_in_base_count (op_table w)"
  shows "\<exists>w'. operator_sigusr2 w = Some (Returned 0, w') \<and> \<not> got_sigusr2 (op_sys w') \<and>
    sw (op_sys w') = set_maximum (m sdiv 2) (sw (op_sys w)) \<and>
    (got_shutdown_requested (op_sys w') \<longleftrightarrow> got_shutdown_requested (op_sys w) \<or> m < 2)"
proof -
  have "m sdiv 2 \<le> 0 \<longleftrightarrow> m < 2"
    by (auto simp: signed_divide_int_def sgn_if)
  then show ?thesis
    using operator_sigusr2_quiet [OF assms(1,2)] by (auto simp: m halved_maximum_def)
qed

theorem operator_removes_platforms_witness:
  "\<exists>w'. operator_sigusr2 (sample_operator [quiet 0, quiet 0]) = Some (Returned 0, w') \<and>
     sw (op_sys w') = set_maximum 1 sample_swarm \<and> \<not> got_shutdown_requested (op_sys w')"
  using operator_removes_platforms [OF sample_operator_ok [of "[quiet 0, quiet 0]"] _ refl, of 0 0 "[]"]
  by (auto simp: sample_operator_def sample_os_def quiet_def sample_swarm_def sample_table_def signed_divide_int_def)

text \<open>C27. The resupply: exactly when the base has room under the semaphore, one drone is launched, in
  the base; the shared data does not change.\<close>

theorem operator_resupply_effect:
  assumes "operator_ok si sid w"
    and "inputs (op_sys w) = Event [] (SysOk a) # Event [] (SysOk b) # Event [] (SysOk pid) # evs" and "0 < pid"
  shows "\<exists>w'. operator_resupply w = Some (Returned 0, w') \<and> sw (op_sys w') = sw (op_sys w) \<and>
    (case dron_child LOCATION_BASE of
       Inl argv \<Rightarrow> launched w' = (if has_room (op_table w) then argv # launched w else launched w)
     | Inr _ \<Rightarrow> False)"
  using operator_resupply_quiet [OF assms] by (simp add: dron_child_args)

theorem operator_resupply_effect_witness:
  "\<exists>w'. operator_resupply (sample_operator [quiet 0, quiet 0, quiet 600]) = Some (Returned 0, w') \<and>
     sw (op_sys w') = sample_swarm \<and> launched w' = [[''1'']]"
  using operator_resupply_effect [OF sample_operator_ok [of "[quiet 0, quiet 0, quiet 600]"], of 0 0 600 "[]"]
  by (auto simp: sample_operator_def sample_os_def quiet_def dron_child_args has_room_def sample_swarm_def sample_table_def)

text \<open>The first drones: when every \<open>fork\<close> succeeds, exactly the configured number is launched, all
  on a mission.\<close>

theorem starting_drones_launched:
  assumes "inputs (op_sys w) = map (\<lambda>p. Event [] (SysOk p)) pids @ evs" and "list_all (\<lambda>p. 0 < p) pids"
    and "\<not> got_shutdown_requested (op_sys w)" and "int (length pids) = starting_drones_count (local_configuration w)"
  shows "\<exists>w'. generate_starting_drones w = Some (0, w') \<and> sw (op_sys w') = sw (op_sys w) \<and>
    launched w' = replicate (nat (starting_drones_count (local_configuration w))) [''2''] @ launched w"
  using generate_drones_quiet [of w pids evs] assms
  by (simp add: generate_starting_drones_def list_all_iff flip: assms(4))

theorem starting_drones_launched_witness:
  "\<exists>w'. generate_starting_drones (sample_operator [quiet 601, quiet 602]) = Some (0, w') \<and>
     launched w' = [[''2''], [''2'']]"
  using starting_drones_launched [of "sample_operator [quiet 601, quiet 602]" "[601, 602]" "[]"]
  by (auto simp: sample_operator_def sample_os_def quiet_def sample_config_def numeral_2_eq_2)




section \<open>The commander\<close>

text \<open>The first step of the mission: when it is not disturbed, it sends exactly the planned number of
  \<open>SIGUSR1\<close> to the operator and nothing else.\<close>

theorem increase_step_signals:
  assumes "inputs (cm_sys w) = concat (replicate n [Event [] (SysOk 0), Event [] (SysOk 0)]) @ evs"
    and "\<not> cm_shutdown w"
  shows "\<exists>w'. mission_step_increase_drones op_pid n w = Some (0, w') \<and>
    sent w' = replicate n (op_pid, SIGUSR1) @ sent w \<and> sw (cm_sys w') = sw (cm_sys w)"
  using assms
proof (induction n arbitrary: w)
  case (Suc n)
  let ?evs = "concat (replicate n [Event [] (SysOk 0), Event [] (SysOk 0)]) @ evs"
  let ?w = "w\<lparr>cm_sys := (cm_sys w)\<lparr>inputs := ?evs\<rparr>, sent := (op_pid, SIGUSR1) # sent w\<rparr>"
  have "mission_step_increase_drones op_pid (Suc n) w = mission_step_increase_drones op_pid n ?w"
    using Suc.prems
    by (simp add: mission_wait_seconds_interruptible.simps [of w] sync_def send_add_drones_def send_signal_def
        on_cm_def plain_call_def)
  with Suc.IH [of ?w] Suc.prems show ?case by (simp add: replicate_app_Cons_same)
qed simp

theorem increase_step_signals_witness:
  "\<exists>w'. mission_step_increase_drones 400 3 (sample_commander (replicate 6 (Event [] (SysOk 0)))) = Some (0, w') \<and>
     sent w' = [(400, SIGUSR1), (400, SIGUSR1), (400, SIGUSR1)]"
  using increase_step_signals [of "sample_commander (replicate 6 (Event [] (SysOk 0)))" 3 "[]" 400]
  by (auto simp: sample_commander_def sample_os_def numeral_eq_Suc)

text \<open>What one round of \<open>mission_step_decrease_drones_to_0\<close> meets when the operator obeys: the calls
  succeed, and during the pause the operator halves the number of platforms.\<close>

definition obeyed :: "event list" where
  "obeyed = [Event [] (SysOk 0), Event [] (SysOk 0), Event [] (SysOk 0), Event [Others A_remove_platforms] (SysOk 0)]"

lemma decrease_round:
  assumes "inputs (cm_sys w) = obeyed @ evs" and "\<not> cm_shutdown w" and "0 < m"
    and "sems (cm_sys w) (cm_sem_id w) = Some 1" and "drones_sem (cm_sys w) = cm_sem_id w"
  shows "\<exists>w'. decrease_loop p m w = decrease_loop p (maximum_dron_in_base_count (all_drones (sw (cm_sys w)))) w' \<and>
    inputs (cm_sys w') = evs \<and> \<not> cm_shutdown w' \<and> sems (cm_sys w') (cm_sem_id w') = Some 1 \<and>
    drones_sem (cm_sys w') = cm_sem_id w' \<and> sent w' = (p, SIGUSR2) # sent w \<and>
    sw (cm_sys w') = exec_act A_remove_platforms (sw (cm_sys w))"
  using assms
  by (simp add: decrease_loop.simps [of p m w] read_maximum_def on_cm_def Let_def obeyed_def semaphore_lock_now
      semaphore_unlock_now sem_add_def send_subtract_drones_def send_signal_def plain_call_def sync_def
      mission_wait_seconds_interruptible.simps env_act_def sem_free_def del: exec_act.simps)
    (rule exI, rule conjI, rule refl, simp)

lemma decrease_loop_ends:
  assumes "inputs (cm_sys w) = concat (replicate (n + 1) obeyed) @ evs" and "\<not> cm_shutdown w"
    and "sems (cm_sys w) (cm_sem_id w) = Some 1" and "drones_sem (cm_sys w) = cm_sem_id w"
    and "0 \<le> maximum_dron_in_base_count (all_drones (sw (cm_sys w)))"
    and "maximum_dron_in_base_count (all_drones (sw (cm_sys w))) < 2 ^ n"
  shows "\<exists>k w'. decrease_loop p m w = Some (0, w') \<and> k \<le> n + 1 \<and> sent w' = replicate k (p, SIGUSR2) @ sent w"
proof (cases "0 < m")
  case True
  with assms show ?thesis
  proof (induction n arbitrary: m w)
    case 0
    have now: "maximum_dron_in_base_count (all_drones (sw (cm_sys w))) = 0" using 0(5,6) by simp
    have "inputs (cm_sys w) = obeyed @ evs" using 0(1) by simp
    from decrease_round [OF this 0(2,7,3,4), of p] obtain w1 where
      "decrease_loop p m w = decrease_loop p 0 w1" "sent w1 = (p, SIGUSR2) # sent w"
      unfolding now by blast
    then show ?case by (intro exI [of _ 1] exI [of _ w1]) (simp add: decrease_loop.simps [of p 0])
  next
    case (Suc n)
    let ?m = "maximum_dron_in_base_count (all_drones (sw (cm_sys w)))"
    have "inputs (cm_sys w) = obeyed @ (concat (replicate (n + 1) obeyed) @ evs)" using Suc.prems(1) by simp
    from decrease_round [OF this Suc.prems(2,7,3,4), of p] obtain w1 where w1:
      "decrease_loop p m w = decrease_loop p ?m w1" "inputs (cm_sys w1) = concat (replicate (n + 1) obeyed) @ evs"
      "\<not> cm_shutdown w1" "sems (cm_sys w1) (cm_sem_id w1) = Some 1" "drones_sem (cm_sys w1) = cm_sem_id w1"
      "sent w1 = (p, SIGUSR2) # sent w" "sw (cm_sys w1) = exec_act A_remove_platforms (sw (cm_sys w))"
      by blast
    show ?case
    proof (cases "?m = 0")
      case True
      with w1(1,6) show ?thesis
        by (intro exI [of _ 1] exI [of _ w1]) (simp add: decrease_loop.simps [of p 0])
    next
      case False
      have "maximum_dron_in_base_count (all_drones (sw (cm_sys w1))) = ?m div 2"
        using w1(7) Suc.prems(5) by (simp add: set_maximum_def halved_maximum_def signed_divide_int_def sgn_if)
      moreover have "?m div 2 < 2 ^ n" "0 < ?m" using Suc.prems(5,6) False by simp_all
      ultimately obtain k w2 where
        "decrease_loop p ?m w1 = Some (0, w2)" "k \<le> n + 1" "sent w2 = replicate k (p, SIGUSR2) @ sent w1"
        using Suc.IH [OF w1(2-5), of ?m] by auto
      with w1(1,6) show ?thesis
        by (intro exI [of _ "Suc k"] exI [of _ w2]) (simp add: replicate_app_Cons_same)
    qed
  qed
qed (auto simp: decrease_loop.simps [of p m])

text \<open>C29. The last step of the mission ends: when the operator obeys every signal, a base of fewer than
  \<open>2 ^ n\<close> platforms is empty after at most \<open>n + 1\<close> signals \<open>SIGUSR2\<close>, and the step returns \<open>0\<close>.\<close>

theorem decrease_step_ends:
  assumes "commander_ok si sid w" and "\<not> cm_shutdown w"
    and "inputs (cm_sys w) = Event [] (SysOk 0) # Event [] (SysOk 0) # concat (replicate (n + 1) obeyed) @ evs"
    and "0 \<le> maximum_dron_in_base_count (all_drones (sw (cm_sys w)))"
      "maximum_dron_in_base_count (all_drones (sw (cm_sys w))) < 2 ^ n"
  shows "\<exists>k w'. mission_step_decrease_drones_to_0 p w = Some (0, w') \<and> k \<le> n + 1 \<and>
    sent w' = replicate k (p, SIGUSR2) @ sent w"
proof -
  have at: "cm_sem_id w = sid" "drones_sem (cm_sys w) = sid" "sems (cm_sys w) sid = Some 1"
    using assms(1) by (simp_all add: commander_ok_def gone_at_def)
  let ?m = "maximum_dron_in_base_count (all_drones (sw (cm_sys w)))"
  obtain w1 where w1: "read_maximum w = Some (Some ?m, w1)" "inputs (cm_sys w1) = concat (replicate (n + 1) obeyed) @ evs"
      "\<not> cm_shutdown w1" "sems (cm_sys w1) (cm_sem_id w1) = Some 1" "drones_sem (cm_sys w1) = cm_sem_id w1"
      "sw (cm_sys w1) = sw (cm_sys w)" "sent w1 = sent w"
    using assms(2,3) at
    by (simp add: read_maximum_def on_cm_def Let_def semaphore_lock_now semaphore_unlock_now sem_add_def)
  with decrease_loop_ends [OF w1(2-5)] assms(4,5) show ?thesis
    by (simp add: mission_step_decrease_drones_to_0_def)
qed

theorem decrease_step_ends_witness:
  "\<exists>k w'. mission_step_decrease_drones_to_0 400
       (sample_commander (Event [] (SysOk 0) # Event [] (SysOk 0) # concat (replicate 3 obeyed))) = Some (0, w') \<and>
     k \<le> 3 \<and> sent w' = replicate k (400, SIGUSR2)"
  using decrease_step_ends [OF sample_commander_ok, of "Event [] (SysOk 0) # Event [] (SysOk 0) # concat (replicate 3 obeyed)"
      2 "[]" 400]
  by (auto simp: sample_commander_def sample_os_def sample_swarm_def sample_table_def numeral_3_eq_3 numeral_2_eq_2)



end
