(* ===== verification/Main_Theorems.thy ===== *)
theory Main_Theorems
  imports Samples
begin

text \<open>
  The theorems on the main program and on the logger that all programs use.
\<close>

section \<open>The command line\<close>

text \<open>C31. Whatever the command line, the program continues only with a configuration in which every
  value lies between 1 and its limit and the table has room for twice the initial number of
  drones.\<close>

theorem command_line_bounds:
  assumes "process_argv args = Config cfg m"
  shows "config_ok cfg m \<and> 2 * starting_drones_count cfg \<le> m"
  by (rule process_argv_ok [OF assms])

theorem command_line_bounds_witness:
  "\<exists>cfg. process_argv [''-n'', ''8'', ''-m50'', ''-w'', ''700000''] = Config cfg 50 \<and> config_ok cfg 50 \<and>
     starting_drones_count cfg = 8 \<and> dron_work_interval cfg = 700000"
proof -
  have "process_argv [''-n'', ''8'', ''-m50'', ''-w'', ''700000''] =
      Config (default_configuration\<lparr>starting_drones_count := 8, dron_work_interval := 700000\<rparr>) 50"
    by code_simp
  with command_line_bounds [OF this] show ?thesis by simp
qed

text \<open>A number that is written in decimal and given as an argument is read back exactly, and is
  accepted exactly when it is positive, within the limit of its option and an \<open>int\<close>.\<close>

theorem argument_roundtrip:
  assumes "0 \<le> v" and "v \<le> LONG_MAX"
  shows "main_parse_positive_int (show_int v) limit =
    (if 1 \<le> v \<and> v \<le> limit \<and> v \<le> INT_MAX then Some v else None)"
  using strtol_show_int [OF assms] by (auto simp: main_parse_positive_int_def)

theorem argument_roundtrip_witness: "main_parse_positive_int (show_int 30) ARGS_MAX_LOADING_CYCLES = Some 30"
  using argument_roundtrip [of 30 ARGS_MAX_LOADING_CYCLES]
  by (simp add: LONG_MAX_def INT_MAX_def ARGS_MAX_LOADING_CYCLES_def)

section \<open>Set-up and clean-up\<close>

text \<open>C33. The loop that fills the stack of free slots ends, and leaves every index exactly once, the
  smallest on top.\<close>

theorem free_stack_filled:
  assumes "1 \<le> m" and "m \<le> INT_MAX"
  shows "\<exists>st. initial_free_stack m = Some st \<and> stack_ok st \<and> unat (st_capacity st) = nat m \<and>
    stack_ints st = map int [0..<nat m]"
  using initial_free_stack_ok [OF assms] by (auto simp: int_stack_ok_def)

theorem free_stack_filled_witness:
  "\<exists>st. initial_free_stack 3 = Some st \<and> stack_ints st = [0, 1, 2]"
  using free_stack_filled [of 3] by (auto simp: INT_MAX_def numeral_3_eq_3)

text \<open>A process that was forked from process \<open>w\<close> and runs a program of its own: it sees the same kernel
  and the same shared data, has no slot, no attached segment and no \<open>SEM_UNDO\<close> adjustment, and
  starts with the initial values of its variables.\<close>

definition forked :: "int \<Rightarrow> event list \<Rightarrow> os \<Rightarrow> os" where
  "forked sid evs w =
     w\<lparr>me := None, kern := (kern w)\<lparr>attached := []\<rparr>, drones_sem := sid, semadj := (\<lambda>_. 0),
       got_sigusr1 := False, got_sigusr2 := False, got_shutdown_requested := False, is_charging := False,
       battery_percentage := 100, battery_created := False, battery_working := False, inputs := evs\<rparr>"

text \<open>C32. A set-up that succeeds has created the initial swarm, with two tokens in the gate, and it
  satisfies the invariant; every program that is started from then on finds the semaphore of the
  table by its key and free, and so meets the conditions of the safety theorems of the drone,
  operator and commander programs.\<close>

theorem setup_readies_programs:
  assumes "setting_up s w" and "gate_tokens s = 0" "reservers s = []" "passing s = []"
    and "config_ok cfg (maximum_drones_in_memory w)" and "main_setup cfg w = Some (Returned r, w')"
    and sid: "sid = at_sem_id (mn_att w')"
  shows "(\<exists>st. initial_free_stack (maximum_drones_in_memory w) = Some st \<and>
      sw (mn_sys w') = initial_swarm cfg (maximum_drones_in_memory w) st) \<and> swarm_ok (sw (mn_sys w')) \<and>
    ready_at (sw (mn_sys w')) sid cfg (ftok_key (kern (mn_sys w'))) (sem_keys (kern (mn_sys w'))) False
      (forked sid evs (mn_sys w')) \<and>
    keys_ok sid (ftok_key (kern (mn_sys w'))) (sem_keys (kern (mn_sys w')))"
proof -
  obtain st where st: "initial_free_stack (maximum_drones_in_memory w) = Some st"
      "sw (mn_sys w') = initial_swarm cfg (maximum_drones_in_memory w) st"
    and ok: "swarm_ok (sw (mn_sys w'))" "table_named (ftok_key (kern (mn_sys w))) w'"
    using main_setup_wp [OF assms(1-5)] assms(6) by auto
  have "config (sw (mn_sys w')) = cfg" by (simp add: st(2) initial_swarm_def)
  with ok have "ready_at (sw (mn_sys w')) sid cfg (ftok_key (kern (mn_sys w'))) (sem_keys (kern (mn_sys w'))) False
      (forked sid evs (mn_sys w'))"
    by (simp add: ready_at_def gone_at_def forked_def battery_ok_def reach_refl table_named_def sid)
  moreover have "keys_ok sid (ftok_key (kern (mn_sys w'))) (sem_keys (kern (mn_sys w')))"
    using ok(2) by (auto simp: keys_ok_def table_named_def sid)
  ultimately show ?thesis using st ok(1) by blast
qed

theorem setup_readies_programs_witness:
  "\<exists>w'. main_setup sample_config (new_launcher setup_run) = Some (Returned 0, w') \<and> swarm_ok (sw (mn_sys w')) \<and>
     keys_ok 7 (ftok_key (kern (mn_sys w'))) (sem_keys (kern (mn_sys w'))) \<and> gate_tokens (sw (mn_sys w')) = 2"
proof -
  obtain w' where run: "main_setup sample_config (new_launcher setup_run) = Some (Returned 0, w')"
      "7 = at_sem_id (mn_att w')" "gate_tokens (sw (mn_sys w')) = 2"
    using setup_run_ends by metis
  have "reservers (sample_swarm\<lparr>gate_tokens := 0\<rparr>) = []" "passing (sample_swarm\<lparr>gate_tokens := 0\<rparr>) = []"
    by (simp_all add: sample_swarm_def)
  from setup_readies_programs [OF setup_run_starts(1) _ this setup_run_starts(2) run(1,2)] run show ?thesis
    by auto
qed

text \<open>C34. The clean-up: when its calls succeed, no segment, no semaphore and no FIFO of the program is
  left.\<close>

theorem cleanup_removes_everything:
  assumes "inputs (mn_sys w) = replicate 11 (Event [] (SysOk 0)) @ evs"
    and "shm_configuration w = Some p1" "0 \<le> shm_configuration_id w"
    and "at_shm (mn_att w) = Some p2" "0 \<le> at_shm_id (mn_att w)"
    and "at_stack (mn_att w) = Some p3" "0 \<le> at_stack_id (mn_att w)"
    and "0 \<le> shm_configuration_semaphore_id w" "0 \<le> at_sem_id (mn_att w)" "0 \<le> mn_gate_semaphore_id w"
    and "0 < fs_file_descriptor (mn_fifo_sem w)" "fs_path (mn_fifo_sem w) \<noteq> []"
  shows "\<exists>w'. remove_resources w = Some ((), w') \<and>
    list_all (\<lambda>i. shm_segs (kern (mn_sys w')) i = None)
      [shm_configuration_id w, at_shm_id (mn_att w), at_stack_id (mn_att w)] \<and>
    list_all (\<lambda>i. sems (mn_sys w') i = None)
      [shm_configuration_semaphore_id w, at_sem_id (mn_att w), mn_gate_semaphore_id w] \<and>
    fs_path (mn_fifo_sem w) \<notin> set (fifos (kern (mn_sys w')))"
  using remove_resources_now [OF assms] by auto

definition running_launcher :: "event list \<Rightarrow> launcher" where
  "running_launcher evs =
     \<lparr>mn_sys = started_os evs, shm_configuration = Some 13, shm_configuration_id = 13,
      shm_configuration_semaphore_id = 9, mn_att = sample_attachments, mn_gate_semaphore_id = 8,
      mn_operator_pid = - 1, system_commander_pid = - 1,
      mn_fifo_sem = \<lparr>fs_path = ''/tmp/gate_fifo'', fs_file_descriptor = 5, fs_capacity = 2\<rparr>,
      maximum_drones_in_memory = 4, commander_args = None\<rparr>"

theorem cleanup_removes_everything_witness:
  "\<exists>w'. remove_resources (running_launcher (replicate 11 (Event [] (SysOk 0)))) = Some ((), w') \<and>
     shm_segs (kern (mn_sys w')) 11 = None \<and> sems (mn_sys w') 7 = None \<and>
     ''/tmp/gate_fifo'' \<notin> set (fifos (kern (mn_sys w')))"
  using cleanup_removes_everything [of "running_launcher (replicate 11 (Event [] (SysOk 0)))" "[]" 13 11 12]
  by (auto simp: running_launcher_def started_os_def sample_os_def sample_attachments_def)

text \<open>C35. A set-up in which the segment of the configuration is created but cannot be attached ends the
  program with \<open>-1\<close> and leaves the segment behind: \<open>close_main\<close> removes a segment only if it is
  attached.\<close>

theorem failed_attach_leaves_segment:
  assumes "shm_configuration w = None" "mn_att w = no_attachments" "mn_gate_semaphore_id w = - 1"
      "shm_configuration_semaphore_id w = - 1" "mn_operator_pid w = - 1" "system_commander_pid w = - 1"
      "fs_file_descriptor (mn_fifo_sem w) = - 1"
    and "0 \<le> ftok_key (kern (mn_sys w)) ''config_key''"
    and "shm_keys (kern (mn_sys w)) (ftok_key (kern (mn_sys w)) ''config_key'') = None"
      "shm_segs (kern (mn_sys w)) i = None" "0 \<le> i"
    and "inputs (mn_sys w) = [Event [] (SysOk 3), Event [] (SysOk 0), Event [] (SysOk 0),
      Event [] (SysOk i), Event [] (SysErr EINVAL)]"
  shows "\<exists>w'. main_setup cfg w = Some (Exited (- 1), w') \<and>
    shm_segs (kern (mn_sys w')) i = Some sizeof_SHM_Configuration"
  by (rule attach_failure_leaks [OF assms])

theorem failed_attach_leaves_segment_witness:
  "\<exists>w'. main_setup sample_config (new_launcher [Event [] (SysOk 3), Event [] (SysOk 0), Event [] (SysOk 0),
      Event [] (SysOk 13), Event [] (SysErr EINVAL)]) = Some (Exited (- 1), w') \<and> shm_segs (kern (mn_sys w')) 13 = Some 24"
  using failed_attach_leaves_segment [of "new_launcher [Event [] (SysOk 3), Event [] (SysOk 0), Event [] (SysOk 0),
      Event [] (SysOk 13), Event [] (SysErr EINVAL)]" 13 sample_config]
  by (simp add: new_launcher_def no_fifo_def sample_os_def started_kernel_def sizeof_SHM_Configuration_def)

text \<open>The report at the end: the four reasons add up to the drones that are gone, together with the
  registered ones they are fewer than the numbers given out, and the warning about an overfull base
  is never printed.\<close>

theorem report_consistent:
  assumes "swarm_ok s" and "print_simulation_report (all_drones s) = (registered, docked, lost, warning)"
  shows "registered + lost < next_dron_id (all_drones s) \<and> 0 \<le> docked \<and> docked \<le> registered \<and> 0 \<le> lost \<and> \<not> warning"
proof -
  have "count_by in_base ds \<le> count_by used ds" for ds
    by (induction ds) auto
  moreover have "count_by used ds \<le> int (length ds)" for ds
    by (simp add: count_by_def)
  ultimately have "count_by in_base ds \<le> int (length ds)" "count_by in_base ds \<le> count_by used ds" for ds
    by (meson order_trans)+
  from this [of "drones (all_drones s)"] assms show ?thesis
    by (auto simp: print_simulation_report_def swarm_ok_defs table_ok_def lost_total_def)
qed

theorem report_consistent_witness: "print_simulation_report (all_drones sample_swarm) = (2, 1, 0, False) \<and> 2 + 0 < (3 :: int)"
proof -
  have "print_simulation_report (all_drones sample_swarm) = (2, 1, 0, False)" by code_simp
  with report_consistent [OF sample_swarm_ok this] show ?thesis by simp
qed

section \<open>The logger\<close>

text \<open>A message whose line fits the buffer is written to the terminal with the colour of the process
  and, if the lock of the file is obtained, to the log without it, character by character as
  rendered; the process returns from the call.\<close>

theorem message_written:
  assumes "funded (Some k) w" and "4 \<le> k" and "length buf = 1024" "length buf' = 1024"
    and "length (PROCESS_COLOR p @ line_head time (PROCESS_NAME p) (PROCESS_PID p)) + length (render fmt) + 5 < 1024"
  shows "\<exists>out w'. print_msg render time buf buf' p fmt w = Some (out, w') \<and>
    out \<in> {[(1, PROCESS_COLOR p @ line_head time (PROCESS_NAME p) (PROCESS_PID p) @ render fmt @ COLOR_RESET @ [CHR 0x0A])],
            [(1, PROCESS_COLOR p @ line_head time (PROCESS_NAME p) (PROCESS_PID p) @ render fmt @ COLOR_RESET @ [CHR 0x0A]),
             (log_file_descriptor p, line_head time (PROCESS_NAME p) (PROCESS_PID p) @ render fmt @ [CHR 0x0A])]}"
proof -
  have budget: "has 4 (Some k)" using assms(2) by simp
  let ?head = "line_head time (PROCESS_NAME p) (PROCESS_PID p)"
  have "outc (Some k = None) (print_msg render time buf buf' p fmt w) (\<lambda>out w'.
    out \<in> {[(1, PROCESS_COLOR p @ ?head @ render fmt @ COLOR_RESET @ [CHR 0x0A])],
            [(1, PROCESS_COLOR p @ ?head @ render fmt @ COLOR_RESET @ [CHR 0x0A]),
             (log_file_descriptor p, ?head @ render fmt @ [CHR 0x0A])]})"
    unfolding print_msg_def
    by (rule outc_mono [OF print_internal_exact [OF assms(1) budget assms(3,4), where color = "PROCESS_COLOR p" and p = p
          and render = render and time = time and fmt = fmt, OF assms(5)]]) simp
  then show ?thesis by (auto simp only: outc_False option.distinct)
qed

theorem message_written_witness:
  "\<exists>out w'. print_msg (\<lambda>f. f) ''12:00:00'' (replicate 1024 CHR ''x'') (replicate 1024 CHR ''x'') printer_initial ''hello''
     (sample_os None False 100 (replicate 4 (quiet 1))) = Some (out, w') \<and>
     fst (hd out) = 1"
proof -
  have "funded (Some 4) (sample_os None False 100 (replicate 4 (quiet 1)))"
    by (simp add: funded_def sample_os_def list_all_iff)
  moreover have "length (PROCESS_COLOR printer_initial @ line_head ''12:00:00'' (PROCESS_NAME printer_initial)
      (PROCESS_PID printer_initial)) + length ((\<lambda>f. f) ''hello'') + 5 < 1024"
    by code_simp
  ultimately show ?thesis
    using message_written [of 4 "sample_os None False 100 (replicate 4 (quiet 1))" "replicate 1024 CHR ''x''"
        "replicate 1024 CHR ''x''" printer_initial "''12:00:00''" "\<lambda>f. f" "''hello''"]
    by fastforce
qed

text \<open>C38. The line is built without a write outside the buffer exactly when its head and its text have at
  most 1024 characters together: beyond that the remaining size is negative, becomes a huge
  \<open>size_t\<close>, and the third \<open>snprintf\<close> writes behind the buffer.\<close>

theorem line_overflow:
  assumes "length buf = 1024" and "length head \<le> 1024" and "int (length head + length body) \<le> INT_MAX"
  shows "format_line buf head body tail \<noteq> None \<longleftrightarrow> length head + length body \<le> 1024"
  by (rule format_line_safe_iff [OF assms])

theorem line_overflow_witness:
  "format_line (replicate 1024 CHR ''x'') (replicate 60 CHR ''h'') (replicate 965 CHR ''t'') [CHR 0x0A] = None"
  using line_overflow [of "replicate 1024 CHR ''x''" "replicate 60 CHR ''h''" "replicate 965 CHR ''t''" "[CHR 0x0A]"]
  by (simp add: INT_MAX_def del: not_None_eq)

end
