(* ===== verification/Spec2Isabelle.thy ===== *)
theory Spec2Isabelle
  imports Swarm_Theorems Drone_Theorems Control_Theorems Main_Theorems
begin

text \<open>
  A verification of the drone swarm simulation under \<^verbatim>\<open>src/src\<close>.

  \<^bold>\<open>The program.\<close>  The main program (\<^verbatim>\<open>main.c\<close>) reads the command line, creates three shared-memory
  segments (the configuration, the table of drones, the stack of free slots of the table), three
  semaphores and a FIFO that serves as the gate of the base, starts the operator and the
  commander, waits for them and removes everything.  The operator (\<^verbatim>\<open>operator/operator.c\<close>) starts the
  first drones, starts a drone whenever the base has room, and doubles or halves the number of
  platforms when the commander signals.  A drone (\<^verbatim>\<open>dron/dron.c\<close>) registers in the table, flies while
  a second thread uses up its battery, returns through the gate to charge, leaves again, and ends
  by order, with an empty battery or after too many charges.  The commander
  (\<^verbatim>\<open>system_commander/system_commander.c\<close>) runs a plan of signals.  All of them share the table under
  one System V semaphore and print through one logger (\<^verbatim>\<open>utils/printer.c\<close>).

  \<^bold>\<open>The theories and the code.\<close>
  \<^item> \<open>Prelude\<close>: C types, outcomes of system calls, weakest preconditions (\<open>outc\<close>, \<open>wp\<close>), the locale
    \<open>invariant_system\<close>.
  \<^item> \<open>Stack\<close>: \<^verbatim>\<open>data_structures/stack.c\<close>.  The header fields at 64 bits and the elements as bytes of the
    segment; the locale of a bounded index stack and its interpretation on the bytes.
  \<^item> \<open>Drone_Data\<close>: the structures of \<^verbatim>\<open>ipc/ipc.h\<close> and the operations on the table in \<^verbatim>\<open>ipc/shm.c\<close>.
  \<^item> \<open>Swarm\<close>: the shared data as a whole, the actions that the processes perform on it (one per
    critical section, one per token of the gate), the invariant \<open>swarm_ok\<close>.
  \<^item> \<open>Process\<close>: one process in its environment (record \<open>os\<close>); the retry loops around system calls as
    the locales \<open>retry_loop\<close> and \<open>os_call\<close>.
  \<^item> \<open>Semaphore\<close>, \<open>Fifo\<close>, \<open>Segments\<close>: \<^verbatim>\<open>ipc/semaphore.c\<close>, \<^verbatim>\<open>ipc/fifo.c\<close>, the segments of \<^verbatim>\<open>ipc/shm.c\<close> and the
    keys of \<^verbatim>\<open>ipc/key.c\<close>; \<open>Semaphore\<close> also has the protocol of all processes as a step relation.
  \<^item> \<open>Client\<close>: the functions that drone, operator and commander have copies of.
  \<^item> \<open>Parsing\<close>: \<open>strtol\<close>, decimal output, the three versions of \<open>parse_positive_int\<close>.
  \<^item> \<open>Dron\<close>, \<open>Operator\<close>, \<open>Commander\<close>, \<open>Launcher\<close>, \<open>Printer\<close>: the programs and the logger, one function of the
    code per definition, with all its error paths; the global variables are the fields of the records
    \<open>dron\<close>, \<open>operator\<close>, \<open>commander\<close>, \<open>launcher\<close>, \<open>printer\<close>.
  \<^item> \<open>Dron_Props\<close>, \<open>Dron_Effects\<close>, \<open>Progress\<close>, \<open>Startup\<close>: what a drone keeps while the others act, what its
    handlers do exactly, that it ends, and the whole programs from their first call on.
  \<^item> \<open>Samples\<close>: concrete states and runs, evaluated in the kernel, at which the theorems are applied.
  \<^item> \<open>Swarm_Theorems\<close>, \<open>Drone_Theorems\<close>, \<open>Control_Theorems\<close>, \<open>Main_Theorems\<close> and this theory: the theorems.

  \<^bold>\<open>The environment.\<close>  A process cannot see what the others do between two of its system calls.
  Each call takes the next element of the list \<open>inputs\<close>: a sequence of steps of the environment
  (actions of other processes on the swarm, ticks of the battery thread, signals) and the outcome
  of the call, failures and \<open>EINTR\<close> included.  Theorems hold for every list, hence for every
  interleaving and every failure.  An action of another process that needs the semaphore of the
  table happens only while this process does not hold it, and happens as a whole; the theorem on
  \<open>semaphore_lock\<close> and the protocol of \<open>Semaphore\<close> justify that.  Each handler is shown to change the
  swarm only by actions of the theory \<open>Swarm\<close>, so the assumption that one process makes about the
  others is what each of them is shown to keep.  The gate is not under the semaphore: taking and
  giving back a token are actions of their own.

  \<^bold>\<open>Not returning.\<close>  A function that blocks for ever, or whose behaviour C leaves undefined (an access
  outside an array or a buffer), has the value \<open>None\<close>.  A loop on system calls consumes \<open>inputs\<close>, so
  it is total as a function; the loops of the programs take the number of rounds they are followed
  for.  The safety theorems of whole programs speak about runs that end.  That the code does return,
  and does not go wrong on the way, is proved separately: a round of a drone returns if 29
  calls are not interrupted (25 that it makes at most, 4 to end the process), the shutdown request
  ends it after as many rounds as there are events before the request, the operator shuts
  down, and the last step of the commander ends, after a logarithmic number of signals, and each operation on the table and the
  stack is defined in every state that satisfies the invariant.

  \<^bold>\<open>What is shown.\<close>  The invariant of the swarm under every sequence of actions and its numerical
  consequences; that the drone, operator and commander programs keep it on every path and leave the semaphore free; mutual
  exclusion and recovery through \<open>SEM_UNDO\<close>; the exact effect of every handler of the drone, the
  operator and the steps of the commander; that a successful set-up establishes the conditions the
  other theorems start from; the bounds of the command line; the round trips through argument
  vectors; the byte-level stack as a bounded list; the clean-up; when the logger overruns its buffer.

  \<^bold>\<open>Not modelled.\<close>  The texts that are printed, \<open>print_usage\<close>, \<open>print_configuration\<close> and
  \<open>print_dron_internal_data\<close> (output only); the length of pauses; the rendering of a format by \<open>vsnprintf\<close>
  (a parameter of the logger); \<open>fork\<close> and \<open>exec\<close> beyond the argument vector of the new process; the
  mutex of the battery thread (its critical sections are single assignments, which are steps of the
  environment); the test program and the descriptions of manual tests under \<^verbatim>\<open>src/src/tests\<close>.  The counters of the table are mathematical
  integers; that they stay within \<open>int\<close> is a theorem.
\<close>

section \<open>Whole programs\<close>

text \<open>C2. The drone program, from its command line to its end, among any number of other processes that
  act in any order and with any outcome of its system calls: if it ends, it has only performed
  actions of the swarm, the shared data satisfies the invariant and the semaphore of the table is
  free, whichever of its error paths it took.\<close>

theorem dron_program_safe:
  assumes "ready_at si sid c F M ch (sys w)" and "keys_ok sid F M"
    and "process_argv_location args \<in> {None, Some LOCATION_BASE, Some LOCATION_MISSION}"
    and "dron_main args pid n w = Some (st, w')"
  shows "(\<exists>code. st = Exited code) \<and> swarm_reach si (sw (sys w')) \<and> swarm_ok (sw (sys w')) \<and>
    sems (sys w') sid = Some 1 \<and> semadj (sys w') sid = 0"
  using dron_main_wp [OF assms(1-3), of pid n] assms(4) by (simp add: ended_at_def)

theorem dron_program_safe_witness:
  "\<exists>w'. dron_main [''2''] 503 2 (new_dron dron_run) = Some (Exited 0, w') \<and> swarm_ok (sw (sys w')) \<and>
     sems (sys w') 7 = Some 1"
proof -
  have at: "ready_at sample_swarm 7 sample_config (ftok_key started_kernel) (sem_keys started_kernel) False
      (sys (new_dron dron_run))"
    using started_ready by (simp add: new_dron_def)
  have "process_argv_location [''2''] \<in> {None, Some LOCATION_BASE, Some LOCATION_MISSION}"
    by code_simp
  from dron_program_safe [OF at started_keys this] dron_run_ends show ?thesis by blast
qed

text \<open>C3. The operator program likewise: if it ends, the shared data satisfies the invariant and the
  semaphore is free, whatever happened on the way.\<close>

theorem operator_program_safe:
  assumes "ready_at si sid c F M ch (op_sys w)" and "keys_ok sid F M" and "operator_main n w = Some (st, w')"
  shows "(\<exists>code. st = Exited code) \<and> swarm_reach si (sw (op_sys w')) \<and> swarm_ok (sw (op_sys w')) \<and>
    sems (op_sys w') sid = Some 1 \<and> semadj (op_sys w') sid = 0"
  using operator_main_wp [OF assms(1,2), of n] assms(3) by (simp add: ended_at_def)

theorem operator_program_safe_witness:
  "\<exists>w'. operator_main 1 (new_operator operator_run) = Some (Exited 0, w') \<and> swarm_ok (sw (op_sys w')) \<and>
     sems (op_sys w') 7 = Some 1 \<and> launched w' = [[''1''], [''2''], [''2'']]"
proof -
  have "ready_at sample_swarm 7 sample_config (ftok_key started_kernel) (sem_keys started_kernel) False
      (op_sys (new_operator operator_run))"
    using started_ready by (simp add: new_operator_def)
  from operator_program_safe [OF this started_keys] operator_run_ends show ?thesis by blast
qed



section \<open>From one program to the next\<close>

text \<open>The operator tells a drone its starting location on the command line, and the drone reads the
  same location back; a location other than base and mission is refused.\<close>

theorem drone_argument_roundtrip:
  assumes "loc \<in> {LOCATION_UNDEFINE, LOCATION_BASE, LOCATION_MISSION}"
  shows "\<exists>args. dron_child loc = Inl args \<and>
    process_argv_location args = (if loc = LOCATION_UNDEFINE then None else Some loc)"
proof -
  have "dron_child LOCATION_UNDEFINE = Inl [''0'']" "process_argv_location [''0''] = None"
    "process_argv_location [''1''] = Some LOCATION_BASE" "process_argv_location [''2''] = Some LOCATION_MISSION"
    by code_simp+
  with assms dron_child_args show ?thesis by auto
qed

theorem drone_argument_roundtrip_witness: "\<exists>args. dron_child LOCATION_BASE = Inl args \<and> process_argv_location args = Some LOCATION_BASE"
  using drone_argument_roundtrip [of LOCATION_BASE] by simp

text \<open>C36. The main program tells the commander the process of the operator on the command line; for every
  process number of the system the commander reads the same number back.\<close>

theorem operator_pid_roundtrip:
  assumes "1 \<le> pid" and "pid \<le> INT_MAX"
  shows "\<exists>args. commander_child pid = Inl args \<and> process_argv_operator_pid args = Some pid"
proof -
  have "nat pid < 10 ^ 10" using assms by (simp add: INT_MAX_def)
  then have "length (show_int pid) \<le> 10"
    using show_nat_length_le [of "nat pid" 10] assms by (simp add: show_int_def)
  moreover have "strtol (show_int pid) = (pid, [], False)"
    by (rule strtol_show_int) (use assms in \<open>simp_all add: INT_MAX_def LONG_MAX_def\<close>)
  ultimately show ?thesis
    using assms by (auto simp: commander_child_def Let_def process_argv_operator_pid_def commander_parse_positive_int_def)
qed

theorem operator_pid_roundtrip_witness: "\<exists>args. commander_child 4194304 = Inl args \<and> process_argv_operator_pid args = Some 4194304"
  using operator_pid_roundtrip [of 4194304] by (simp add: INT_MAX_def)

end
